(* ===== verification/Prelude.thy ===== *)
theory Prelude
  imports Main "HOL-Library.Word"
begin

text \<open>
  Shared vocabulary of the development: instants, PostgreSQL errors, tables as lists of rows
  with guarded updates, and the generic lemmas the component theories lean on.

  An instant is a count of microseconds since the Unix epoch, the resolution of PostgreSQL's
  \<open>timestamptz\<close>; the Go process forwards instants to the database, so sub-microsecond digits
  never reach a stored row.  A table is the list of its rows.  A SQL \<open>UPDATE \<dots> SET \<dots> WHERE \<dots>\<close>
  is \<open>update_where\<close>, its \<open>RowsAffected()\<close> is \<open>rows_affected\<close>, and the locales below state what
  a guarded update promises to the code that issues it.
\<close>

named_theorems table_simps
named_theorems preserve

type_synonym instant = int

abbreviation (input) microseconds_per_minute :: int where
  "microseconds_per_minute \<equiv> 60000000"

abbreviation (input) microseconds_per_second :: int where
  "microseconds_per_second \<equiv> 1000000"

text \<open>
  The errors a pgx call returns, as far as the code tells them apart: \<open>pgx.ErrNoRows\<close>, a
  \<open>*pgconn.PgError\<close> with its SQLSTATE, and anything else (a lost connection, a parameter that
  cannot be encoded as its column's type).
\<close>

datatype pg_error = ErrNoRows | PgError string | OtherError

section \<open>Tables\<close>

definition update_where :: "('r \<Rightarrow> bool) \<Rightarrow> ('r \<Rightarrow> 'r) \<Rightarrow> 'r list \<Rightarrow> 'r list" where
  "update_where P f rows = map (\<lambda>r. if P r then f r else r) rows"

definition rows_affected :: "('r \<Rightarrow> bool) \<Rightarrow> 'r list \<Rightarrow> nat" where
  "rows_affected P rows = length (filter P rows)"

definition select_one :: "('r \<Rightarrow> bool) \<Rightarrow> 'r list \<Rightarrow> 'r option" where
  "select_one P rows = List.find P rows"

lemma update_where_simps [simp]:
  "update_where P f [] = []"
  "update_where P f (r # rs) = (if P r then f r else r) # update_where P f rs"
  by (simp_all add: update_where_def)

lemma length_update_where [simp]: "length (update_where P f rows) = length rows"
  by (simp add: update_where_def)

lemma update_where_cong:
  "(\<And>r. r \<in> set rows \<Longrightarrow> P r = Q r) \<Longrightarrow> (\<And>r. r \<in> set rows \<Longrightarrow> P r \<Longrightarrow> f r = g r) \<Longrightarrow>
   update_where P f rows = update_where Q g rows"
  by (auto simp: update_where_def)

lemma update_where_none: "rows_affected P rows = 0 \<Longrightarrow> update_where P f rows = rows"
  by (induction rows) (auto simp: rows_affected_def split: if_splits)

lemma rows_affected_zero_iff: "rows_affected P rows = 0 \<longleftrightarrow> (\<forall>r \<in> set rows. \<not> P r)"
  by (auto simp: rows_affected_def filter_empty_conv)

lemma in_update_whereE:
  assumes "r \<in> set (update_where P f rows)"
  obtains r0 where "r0 \<in> set rows" and "r = (if P r0 then f r0 else r0)"
  using assms by (auto simp: update_where_def)

lemma update_where_memI: "r \<in> set rows \<Longrightarrow> (if P r then f r else r) \<in> set (update_where P f rows)"
  by (force simp: update_where_def)

lemma map_update_where:
  "(\<And>r. k (f r) = k r) \<Longrightarrow> map k (update_where P f rows) = map k rows"
  by (induction rows) auto

lemma select_one_Some:
  "select_one P rows = Some r \<Longrightarrow> r \<in> set rows \<and> P r"
  by (auto simp: select_one_def find_Some_iff)

lemma select_one_None_iff: "select_one P rows = None \<longleftrightarrow> (\<forall>r \<in> set rows. \<not> P r)"
  by (auto simp: select_one_def find_None_iff)

lemma select_one_simps [simp]:
  "select_one P [] = None"
  "select_one P (r # rs) = (if P r then Some r else select_one P rs)"
  by (simp_all add: select_one_def)

lemma select_one_append:
  "select_one P (xs @ ys) = (case select_one P xs of None \<Rightarrow> select_one P ys | Some r \<Rightarrow> Some r)"
  by (induction xs) auto

text \<open>A primary key makes a lookup by key unambiguous.\<close>

lemma select_key_unique:
  assumes "distinct (map k rows)" and "r \<in> set rows"
  shows "select_one (\<lambda>x. k x = k r) rows = Some r"
  using assms by (induction rows) (auto simp: image_iff)

lemma distinct_key_eq:
  "distinct (map k rows) \<Longrightarrow> r \<in> set rows \<Longrightarrow> s \<in> set rows \<Longrightarrow> k r = k s \<Longrightarrow> r = s"
  by (meson distinct_map inj_onD)

section \<open>Contracts of guarded updates\<close>

text \<open>
  Every state change of the write path is a compare-and-set: an \<open>UPDATE\<close> whose \<open>WHERE\<close> names
  the row by its primary key and guards on its current status.  \<open>cas_update\<close> is the contract
  all of them share (the key never changes), \<open>cas_once\<close> adds that a row is changed at most once
  (the update falsifies its own guard), \<open>cas_idem\<close> that a repeated update changes nothing.
\<close>

locale cas_update =
  fixes key :: "'r \<Rightarrow> string"
    and guard :: "'r \<Rightarrow> bool"
    and upd :: "'r \<Rightarrow> 'r"
  assumes key_upd: "key (upd r) = key r"
begin

abbreviation hits :: "string \<Rightarrow> 'r \<Rightarrow> bool" where
  "hits i r \<equiv> key r = i \<and> guard r"

lemma keys_kept: "map key (update_where P upd rows) = map key rows"
  by (rule map_update_where) (rule key_upd)

lemma distinct_kept: "distinct (map key rows) \<Longrightarrow> distinct (map key (update_where P upd rows))"
  by (simp add: keys_kept)

lemma other_rows_kept:
  "r \<in> set rows \<Longrightarrow> key r \<noteq> i \<Longrightarrow> r \<in> set (update_where (hits i) upd rows)"
  using update_where_memI [of r rows "hits i" upd] by simp

lemma other_rows_reflect:
  "r \<in> set (update_where (hits i) upd rows) \<Longrightarrow> key r \<noteq> i \<Longrightarrow> r \<in> set rows"
  by (auto elim!: in_update_whereE split: if_splits simp: key_upd)

lemma lookup_after:
  "select_one (\<lambda>r. key r = j) (update_where (hits i) upd rows) =
   map_option (\<lambda>r. if j = i \<and> guard r then upd r else r) (select_one (\<lambda>r. key r = j) rows)"
  by (induction rows) (auto simp: key_upd)

end

locale cas_once = cas_update +
  assumes upd_disables: "\<not> guard (upd r)"
begin

lemma second_affects_none: "rows_affected (hits i) (update_where (hits i) upd rows) = 0"
  by (auto simp: rows_affected_zero_iff upd_disables elim!: in_update_whereE split: if_splits)

lemma twice_is_once:
  "update_where (hits i) upd (update_where (hits i) upd rows) = update_where (hits i) upd rows"
  by (rule update_where_none) (rule second_affects_none)

end

locale cas_idem = cas_update key guard upd
  for key :: "'r \<Rightarrow> string" and guard :: "'r \<Rightarrow> bool" and upd :: "'r \<Rightarrow> 'r" +
  fixes guard' :: "'r \<Rightarrow> bool"
  assumes guard_upd: "guard' (upd r)"
    and upd_upd: "upd (upd r) = upd r"
begin

lemma repeat_same_row:
  assumes "distinct (map key rows)" and "r \<in> set rows" and "hits i r"
  shows "update_where (\<lambda>s. key s = i \<and> guard' s) upd (update_where (hits i) upd rows)
           = update_where (hits i) upd rows"
    and "rows_affected (\<lambda>s. key s = i \<and> guard' s) (update_where (hits i) upd rows) > 0"
proof -
  have one: "s = r" if "s \<in> set rows" "key s = i" for s
    using distinct_key_eq [OF assms(1) that(1) assms(2)] that(2) assms(3) by simp
  show "update_where (\<lambda>s. key s = i \<and> guard' s) upd (update_where (hits i) upd rows)
           = update_where (hits i) upd rows"
    using one assms(3) by (force simp: update_where_def key_upd upd_upd)
  have "upd r \<in> set (update_where (hits i) upd rows)"
    using update_where_memI [OF assms(2), of "hits i" upd] assms(3) by simp
  then show "rows_affected (\<lambda>s. key s = i \<and> guard' s) (update_where (hits i) upd rows) > 0"
    using assms(3) guard_upd [of r] key_upd [of r]
    by (auto simp: rows_affected_def filter_empty_conv)
qed

end

section \<open>Wrap-around\<close>

text \<open>Go's \<open>time.Duration\<close> is a signed 64-bit count of nanoseconds; arithmetic on it wraps.\<close>

definition wrap_int64 :: "int \<Rightarrow> int" where
  "wrap_int64 x = sint (of_int x :: 64 word)"

lemma wrap_int64_id: "- (2 ^ 63) \<le> x \<Longrightarrow> x < 2 ^ 63 \<Longrightarrow> wrap_int64 x = x"
  by (simp add: wrap_int64_def sint_sbintrunc' signed_take_bit_int_eq_self)

end
