(* ===== verification/Effects.thy ===== *)
theory Effects
  imports Prelude
begin

text \<open>
  The handlers of the system as resumptions.  A program is either finished or one atomic action
  (a SQL statement, a clock reading, the delivery of a request) followed by a program.  The same
  handler text is run in two ways: \<open>run\<close> executes it without interruption, \<open>interleave\<close> runs any
  number of handlers under an arbitrary schedule, switching at every atomic action.

  What the handlers cannot determine is a \<open>choice\<close>, consumed by each action: which calls fail and
  how, the readings of the database clock and of the process clock, the random identifier a
  \<open>gen_random_uuid()\<close> would return, the bytes of \<open>rand.Read\<close>, the rows another transaction has
  locked, and the answer of the Catalog service to a GET.
  Statements over all choices are statements over all faults, delays and clocks.
\<close>

section \<open>Choices of the environment\<close>

text \<open>
  The calls that can fail on their way: the RPCs of Booking, the statements of the stores and of the
  Catalog, the two proxied hops of the Gateway, and the steps of the migrations runner.
\<close>

datatype call =
    TechReserveRPC | TechConfirmRPC | TechReleaseRPC
  | BayReserveRPC | BayConfirmRPC | BayReleaseRPC
  | ClaimSQL | ReapSQL | ConfirmSQL | ReleaseSQL
  | InsertHeldSQL | GetSQL | GetByKeySQL | PromoteSQL | CancelSQL
  | SweepSQL | ListCancelledSQL | ClearSQL
  | DealershipsSQL | ServiceTypesSQL | CustomerSQL | VehiclesSQL
  | CatalogHop | BookingHop
  | MigrateConnect | MigrateTableSQL | MigratedSQL | MigrateBegin | MigrateExec | MigrateRecordSQL | MigrateCommit

text \<open>
  A call is carried out and answered, or its request is lost (nothing happened), or its reply is
  lost (it was carried out, the caller sees an error).
\<close>

datatype fault = Deliver | LoseRequest | LoseReply

text \<open>
  The response of an HTTP GET as the client sees it: the status code and what successive
  \<open>Body.Read\<close> calls return, each a chunk and whether an error (\<open>io.EOF\<close> or another) came with it;
  after the last listed call the reader is at its end.
\<close>

record http_resp =
  hr_status :: int
  hr_reads :: "(string \<times> bool) list"

record choice =
  faults :: "call \<Rightarrow> fault"
  db_now :: instant
  go_now :: instant
  fresh_id :: string
  entropy :: "nat \<Rightarrow> 8 word"
  locked :: "string list"
  catalog_reply :: "string \<Rightarrow> http_resp option"

section \<open>Programs\<close>

datatype ('w, 'a) prog =
    Ret 'a
  | Act "choice \<Rightarrow> 'w \<Rightarrow> 'w \<times> ('w, 'a) prog"

primrec andthen :: "('w, 'a) prog \<Rightarrow> ('a \<Rightarrow> ('w, 'b) prog) \<Rightarrow> ('w, 'b) prog" where
  "andthen (Ret x) f = f x"
| "andthen (Act g) f = Act (\<lambda>c w. map_prod id (\<lambda>p. andthen p f) (g c w))"

definition atomic :: "(choice \<Rightarrow> 'w \<Rightarrow> 'a \<times> 'w) \<Rightarrow> ('w, 'a) prog" where
  "atomic f = Act (\<lambda>c w. (snd (f c w), Ret (fst (f c w))))"

text \<open>A statement sent to a database: on a lost request the database is untouched, on a lost
  reply it has changed and the caller still sees an error.\<close>

definition sql :: "call \<Rightarrow> (choice \<Rightarrow> 'w \<Rightarrow> (pg_error + 'a) \<times> 'w) \<Rightarrow> ('w, pg_error + 'a) prog" where
  "sql k f = atomic (\<lambda>c w.
     (case faults c k of
        Deliver \<Rightarrow> f c w
      | LoseRequest \<Rightarrow> (Inl OtherError, w)
      | LoseReply \<Rightarrow> (Inl OtherError, snd (f c w))))"

definition time_now :: "('w, instant) prog" where
  "time_now = atomic (\<lambda>c w. (go_now c, w))"

text \<open>A program on one component, run inside a larger state.\<close>

primrec zoom :: "('v, 'a) prog \<Rightarrow> ('w \<Rightarrow> 'v) \<Rightarrow> ('v \<Rightarrow> 'w \<Rightarrow> 'w) \<Rightarrow> ('w, 'a) prog" where
  "zoom (Ret x) get put = Ret x"
| "zoom (Act g) get put =
     Act (\<lambda>c w. map_prod (\<lambda>v. put v w) (\<lambda>p. zoom p get put) (g c (get w)))"

section \<open>Uninterrupted runs\<close>

primrec run :: "('w, 'a) prog \<Rightarrow> (nat \<Rightarrow> choice) \<Rightarrow> 'w \<Rightarrow> 'a \<times> 'w" where
  "run (Ret x) = (\<lambda>cs w. (x, w))"
| "run (Act g) = (\<lambda>cs w.
     case map_prod id run (g (cs 0) w) of (w', r) \<Rightarrow> r (\<lambda>n. cs (Suc n)) w')"

section \<open>Interleavings\<close>

text \<open>Thread \<open>i\<close> takes one atomic action under choice \<open>c\<close>; a finished or absent thread does
  nothing, and a thread that is never scheduled again is a crashed one.\<close>

definition thread_step :: "nat \<Rightarrow> choice \<Rightarrow> ('w, 'a) prog list \<times> 'w \<Rightarrow> ('w, 'a) prog list \<times> 'w" where
  "thread_step i c s = (case s of (ts, w) \<Rightarrow>
     (if i < length ts
      then (case ts ! i of
              Ret x \<Rightarrow> (ts, w)
            | Act g \<Rightarrow> (ts[i := snd (g c w)], fst (g c w)))
      else (ts, w)))"

fun interleave :: "(nat \<times> choice) list \<Rightarrow> ('w, 'a) prog list \<times> 'w \<Rightarrow> ('w, 'a) prog list \<times> 'w" where
  "interleave [] s = s"
| "interleave ((i, c) # sch) s = interleave sch (thread_step i c s)"

section \<open>Weakest preconditions\<close>

text \<open>\<open>wp C p Q w\<close>: whatever choices within \<open>C\<close> the environment makes, \<open>p\<close> started in \<open>w\<close>
  ends with \<open>Q\<close>.\<close>

primrec wp :: "('w, 'a) prog \<Rightarrow> (choice \<Rightarrow> bool) \<Rightarrow> ('a \<Rightarrow> 'w \<Rightarrow> bool) \<Rightarrow> 'w \<Rightarrow> bool" where
  "wp (Ret x) = (\<lambda>C Q w. Q x w)"
| "wp (Act g) = (\<lambda>C Q w. \<forall>c. C c \<longrightarrow>
     (case map_prod id wp (g c w) of (w', r) \<Rightarrow> r C Q w'))"

text \<open>\<open>keeps I p\<close>: every single action of \<open>p\<close> preserves \<open>I\<close>, from any state the other threads
  may have left behind.\<close>

primrec keeps :: "('w, 'a) prog \<Rightarrow> ('w \<Rightarrow> 'w \<Rightarrow> bool) \<Rightarrow> bool" where
  "keeps (Ret x) = (\<lambda>R. True)"
| "keeps (Act g) = (\<lambda>R. \<forall>c w. case map_prod id keeps (g c w) of (w', r) \<Rightarrow> R w w' \<and> r R)"

section \<open>Laws\<close>

text \<open>Induction over a program: the hypothesis holds for what is left after any first action.\<close>

lemma prog_induct [case_names Ret Act]:
  assumes "\<And>x. P (Ret x)" and "\<And>g. (\<And>c w. P (snd (g c w))) \<Longrightarrow> P (Act g)"
  shows "P p"
proof (induction p)
  case (Ret x)
  show ?case by (rule assms(1))
next
  case (Act g)
  have "P (snd (g c w))" for c w
    by (rule Act.IH [of "g c" "g c w"]) (auto simp: snds.simps)
  then show ?case by (rule assms(2))
qed

lemma andthen_Ret [simp]: "andthen p Ret = p"
  by (induction p rule: prog_induct) (auto simp: fun_eq_iff intro!: prod_eqI)

lemma andthen_assoc: "andthen (andthen p f) h = andthen p (\<lambda>x. andthen (f x) h)"
  by (induction p rule: prog_induct) (auto simp: fun_eq_iff intro!: prod_eqI)

lemma run_atomic [simp]: "run (andthen (atomic f) h) cs w =
   run (h (fst (f (cs 0) w))) (\<lambda>n. cs (Suc n)) (snd (f (cs 0) w))"
  by (simp add: atomic_def)

lemma wp_atomic [simp]: "wp (atomic f) C Q w \<longleftrightarrow>
   (\<forall>c. C c \<longrightarrow> Q (fst (f c w)) (snd (f c w)))"
  by (simp add: atomic_def)

lemma wp_sql: "wp (sql k f) C Q w \<longleftrightarrow>
   (\<forall>c. C c \<longrightarrow> (case faults c k of
      Deliver \<Rightarrow> Q (fst (f c w)) (snd (f c w))
    | LoseRequest \<Rightarrow> Q (Inl OtherError) w
    | LoseReply \<Rightarrow> Q (Inl OtherError) (snd (f c w))))"
  by (auto simp: sql_def split: fault.splits)

lemma wp_sqlI:
  assumes "\<And>c. C c \<Longrightarrow> Q (fst (f c w)) (snd (f c w))"
    and "\<And>c. C c \<Longrightarrow> Q (Inl OtherError) (snd (f c w))" and "Q (Inl OtherError) w"
  shows "wp (sql k f) C Q w"
  using assms by (simp add: wp_sql split: fault.splits)

lemma wp_sql_delivered:
  assumes "\<And>c. C c \<Longrightarrow> faults c k = Deliver"
  shows "wp (sql k f) C Q w \<longleftrightarrow> (\<forall>c. C c \<longrightarrow> Q (fst (f c w)) (snd (f c w)))"
  using assms by (auto simp: wp_sql)

lemma wp_andthen [simp]: "wp (andthen p f) C Q w = wp p C (\<lambda>x. wp (f x) C Q) w"
proof (induction p arbitrary: w rule: prog_induct)
  case (Ret x)
  then show ?case by simp
next
  case (Act g)
  have "wp (andthen (snd (g c w)) f) C Q (fst (g c w)) =
        wp (snd (g c w)) C (\<lambda>x. wp (f x) C Q) (fst (g c w))" for c
    using Act.IH [of c w] by (simp add:)
  then show ?case by (simp add: split_beta)
qed

lemma wp_andthen_fun: "wp (andthen p f) C Q = wp p C (\<lambda>x. wp (f x) C Q)"
  by (rule ext) simp

text \<open>Every uninterrupted run ends, and ends as the weakest precondition promises.\<close>

lemma wp_run:
  assumes "wp p C Q w" and "\<And>n. C (cs n)"
  shows "Q (fst (run p cs w)) (snd (run p cs w))"
  using assms
proof (induction p arbitrary: cs w rule: prog_induct)
  case (Ret x)
  then show ?case by simp
next
  case (Act g)
  have "wp (snd (g (cs 0) w)) C Q (fst (g (cs 0) w))"
    using Act.prems by (simp add: split_beta)
  then show ?case
    using Act.IH [of "cs 0" w] Act.prems(2)
    by (simp add: split_beta)
qed

lemma wp_mono:
  "wp p C Q w \<Longrightarrow> (\<And>x v. Q x v \<Longrightarrow> Q' x v) \<Longrightarrow> wp p C Q' w"
proof (induction p arbitrary: w rule: prog_induct)
  case (Ret x)
  then show ?case by simp
next
  case (Act g)
  have "wp (snd (g c w)) C Q' (fst (g c w))" if "C c" for c
    using Act.IH [of c w] Act.prems that
    by (simp add: split_beta)
  then show ?case by (simp add: split_beta)
qed

lemma wp_conj:
  "wp p C Q w \<Longrightarrow> wp p C Q' w \<Longrightarrow> wp p C (\<lambda>x v. Q x v \<and> Q' x v) w"
proof (induction p arbitrary: w rule: prog_induct)
  case (Ret x)
  then show ?case by simp
next
  case (Act g)
  have "wp (snd (g c w)) C (\<lambda>x v. Q x v \<and> Q' x v) (fst (g c w))" if "C c" for c
    using Act.IH [of c w] Act.prems that
    by (simp add: split_beta)
  then show ?case by (simp add: split_beta)
qed

lemma wp_zoom:
  assumes "\<And>v w. get (put v w) = v" and "\<And>v v' w. put v (put v' w) = put v w"
    and "\<And>w. put (get w) w = w"
  shows "wp (zoom p get put) C Q w = wp p C (\<lambda>x v. Q x (put v w)) (get w)"
proof (induction p arbitrary: w rule: prog_induct)
  case (Ret x)
  then show ?case by (simp add: assms)
next
  case (Act g)
  have "wp (zoom (snd (g c (get w))) get put) C Q (put (fst (g c (get w))) w) =
        wp (snd (g c (get w))) C (\<lambda>x v. Q x (put v w)) (fst (g c (get w)))" for c
    using Act.IH [of c "get w" "put (fst (g c (get w))) w"]
    by (simp add: assms)
  then show ?case by (simp add: split_beta)
qed

section \<open>What every action preserves, every interleaving preserves\<close>

lemma keeps_andthen: "keeps p R \<Longrightarrow> (\<And>x. keeps (f x) R) \<Longrightarrow> keeps (andthen p f) R"
proof (induction p rule: prog_induct)
  case (Ret x)
  then show ?case by simp
next
  case (Act g)
  have "keeps (andthen (snd (g c w)) f) R" for c w
    using Act.IH [of c w] Act.prems
    by (auto simp: split_beta)
  then show ?case using Act.prems by (simp add: split_beta)
qed

lemma keeps_atomic: "(\<And>c w. R w (snd (f c w))) \<Longrightarrow> keeps (atomic f) R"
  by (simp add: atomic_def)

lemma keeps_sql:
  assumes "\<And>w. R w w" and "\<And>c w. R w (snd (f c w))"
  shows "keeps (sql k f) R"
  unfolding sql_def by (rule keeps_atomic) (auto simp: assms split: fault.splits)

lemma keeps_time_now: "(\<And>w. R w w) \<Longrightarrow> keeps time_now R"
  unfolding time_now_def by (rule keeps_atomic) simp

lemma keeps_zoom:
  assumes "keeps p R" and "\<And>v w. R (get w) v \<Longrightarrow> R' w (put v w)"
  shows "keeps (zoom p get put) R'"
  using assms(1)
proof (induction p rule: prog_induct)
  case (Ret x)
  then show ?case by simp
next
  case (Act g)
  have "keeps (zoom (snd (g c v)) get put) R'" for c v
    using Act.IH [of c v] Act.prems
    by (auto simp: split_beta)
  then show ?case using Act.prems assms(2) by (auto simp: split_beta)
qed

text \<open>A program on one component respects every relation that ignores the component.\<close>

lemma keeps_frame: "(\<And>v w. R w (put v w)) \<Longrightarrow> keeps (zoom p get put) R"
  by (rule keeps_zoom [where R = "\<lambda>_ _. True"], induction p rule: prog_induct) (simp_all add: split_beta)

lemma keeps_mono: "keeps p R \<Longrightarrow> (\<And>w w'. R w w' \<Longrightarrow> R' w w') \<Longrightarrow> keeps p R'"
proof (induction p rule: prog_induct)
  case (Ret x)
  then show ?case by simp
next
  case (Act g)
  have "keeps (snd (g c v)) R'" for c v
    using Act.IH [of c v] Act.prems
    by (auto simp: split_beta)
  then show ?case using Act.prems by (auto simp: split_beta)
qed

text \<open>
  A contract between the threads of a system: a reflexive, transitive relation \<open>R\<close> that every
  action of every thread respects.  It then relates any two states of any interleaving, and an
  invariant closed under it survives.
\<close>

locale guarantee =
  fixes R :: "'w \<Rightarrow> 'w \<Rightarrow> bool"
  assumes refl: "R w w"
    and trans: "R u v \<Longrightarrow> R v w \<Longrightarrow> R u w"
begin

lemma thread_step_keeps:
  assumes "\<And>p. p \<in> set ts \<Longrightarrow> keeps p R"
  shows "R w (snd (thread_step i c (ts, w)))"
    and "p \<in> set (fst (thread_step i c (ts, w))) \<Longrightarrow> keeps p R"
proof -
  have step: "R w (fst (g c w)) \<and> keeps (snd (g c w)) R" if "i < length ts" "ts ! i = Act g" for g
    using assms [OF nth_mem [OF that(1)]] that(2) by (auto simp: split_beta)
  show "R w (snd (thread_step i c (ts, w)))"
    using step by (auto simp: thread_step_def refl split: prog.splits)
  show "keeps p R" if "p \<in> set (fst (thread_step i c (ts, w)))"
    using that step assms set_update_subset_insert [of ts i]
    by (auto simp: thread_step_def split: prog.splits if_splits)
qed

lemma interleave_keeps:
  assumes "\<And>p. p \<in> set ts \<Longrightarrow> keeps p R"
  shows "R w (snd (interleave sch (ts, w)))"
  using assms
proof (induction sch arbitrary: ts w)
  case Nil
  then show ?case by (simp add: refl)
next
  case (Cons ic sch)
  obtain i c where ic: "ic = (i, c)" by fastforce
  obtain ts' w' where st: "thread_step i c (ts, w) = (ts', w')" by fastforce
  have "R w w'" using thread_step_keeps(1) [of ts w i c, OF Cons.prems] st by simp
  moreover have "R w' (snd (interleave sch (ts', w')))"
  proof (rule Cons.IH)
    show "keeps p R" if "p \<in> set ts'" for p
      using thread_step_keeps(2) [of ts p i c w, OF Cons.prems] st that by simp
  qed
  ultimately show ?case by (simp add: ic st) (rule trans)
qed

lemma wp_keeps: "keeps p R \<Longrightarrow> wp p C (\<lambda>x v. R w v) w"
proof (induction p arbitrary: w rule: prog_induct)
  case (Ret x)
  then show ?case by (simp add: refl)
next
  case (Act g)
  have "wp (snd (g c w)) C (\<lambda>x v. R w v) (fst (g c w))" for c
  proof (rule wp_mono)
    show "wp (snd (g c w)) C (\<lambda>x v. R (fst (g c w)) v) (fst (g c w))"
      using Act.IH [of c w] Act.prems
      by (auto simp: split_beta)
    show "R w v" if "R (fst (g c w)) v" for v
      using Act.prems that by (auto simp: split_beta intro: trans)
  qed
  then show ?case by (simp add: split_beta)
qed

end

text \<open>The plainest contract: a state predicate that no action falsifies.\<close>

definition stable :: "('w \<Rightarrow> bool) \<Rightarrow> 'w \<Rightarrow> 'w \<Rightarrow> bool" where
  "stable I w w' \<longleftrightarrow> (I w \<longrightarrow> I w')"

interpretation inv: guarantee "stable I" for I
  by unfold_locales (auto simp: stable_def)

end
