(* ===== verification/Clock.thy ===== *)
theory Clock
  imports Prelude
begin

text \<open>
  Civil time as the system uses it.  A zone is what Go's \<open>time.LoadLocation\<close> and PostgreSQL's
  time zone tables both hold: an offset from UTC and the instants at which it changes.  The
  tables themselves are data of the host, so zones reach the model as arguments; the arithmetic
  on them (Go's \<open>Time.In\<close>, \<open>Weekday\<close>, \<open>time.Date\<close>, \<open>Add\<close>; PostgreSQL's \<open>AT TIME ZONE\<close> and
  \<open>EXTRACT\<close>) is written out.  Offsets and instants are in microseconds.
\<close>

section \<open>Zones\<close>

record zone =
  base_offset :: int
  transitions :: "(instant \<times> int) list"

text \<open>
  The period an instant falls in: its offset, its first instant (\<open>None\<close> before the first
  transition) and the first instant after it (\<open>None\<close> after the last).  Transitions ascend.
\<close>

fun period :: "int \<Rightarrow> instant option \<Rightarrow> (instant \<times> int) list \<Rightarrow> instant \<Rightarrow> int \<times> instant option \<times> instant option" where
  "period off from [] t = (off, from, None)"
| "period off from ((s, off') # rest) t =
     (if t < s then (off, from, Some s) else period off' (Some s) rest t)"

definition lookup_zone :: "zone \<Rightarrow> instant \<Rightarrow> int \<times> instant option \<times> instant option" where
  "lookup_zone z t = period (base_offset z) None (transitions z) t"

definition offset_at :: "zone \<Rightarrow> instant \<Rightarrow> int" where
  "offset_at z t = fst (lookup_zone z t)"

definition utc :: zone where
  "utc = \<lparr>base_offset = 0, transitions = []\<rparr>"

abbreviation (input) day :: int where
  "day \<equiv> 86400000000"

text \<open>Wall-clock microseconds since the civil epoch, the civil day and the minute of that day.\<close>

definition local_time :: "zone \<Rightarrow> instant \<Rightarrow> int" where
  "local_time z t = t + offset_at z t"

definition civil_day :: "int \<Rightarrow> int" where
  "civil_day l = l div day"

definition minute_of_day :: "int \<Rightarrow> int" where
  "minute_of_day l = (l mod day) div microseconds_per_minute"

section \<open>Go's time package\<close>

text \<open>\<open>Time.Weekday\<close>: Sunday is 0; the epoch was a Thursday.\<close>

definition go_weekday :: "int \<Rightarrow> int" where
  "go_weekday l = (civil_day l + 4) mod 7"

text \<open>
  \<open>time.Date(year, month, day, 0, 0, 0, 0, loc)\<close> for the civil day \<open>d\<close>: the zone is looked up
  as if the wall clock were UTC, and again at the corrected instant when that falls outside the
  period first found.
\<close>

definition go_midnight :: "zone \<Rightarrow> int \<Rightarrow> instant" where
  "go_midnight z d =
     (let unix = d * day;
          (off, s, e) = lookup_zone z unix;
          u = unix - off
      in if off = 0 then unix
         else if (case s of None \<Rightarrow> False | Some a \<Rightarrow> u < a) \<or> (case e of None \<Rightarrow> False | Some b \<Rightarrow> b \<le> u)
              then unix - offset_at z u
              else u)"

text \<open>\<open>time.Duration(m) * time.Minute\<close>, in nanoseconds with Go's wrap-around, as microseconds.\<close>

definition go_minutes :: "int \<Rightarrow> int" where
  "go_minutes m = wrap_int64 (m * 60000000000) div 1000"

lemma go_minutes_small:
  "\<bar>m\<bar> \<le> 153722867 \<Longrightarrow> go_minutes m = m * microseconds_per_minute"
  by (simp add: go_minutes_def wrap_int64_id)

section \<open>PostgreSQL's EXTRACT on a timestamp\<close>

definition pg_isodow :: "int \<Rightarrow> int" where
  "pg_isodow l = (civil_day l + 3) mod 7 + 1"

definition pg_hour :: "int \<Rightarrow> int" where
  "pg_hour l = (l mod day) div 3600000000"

definition pg_minute :: "int \<Rightarrow> int" where
  "pg_minute l = (l mod 3600000000) div microseconds_per_minute"

text \<open>\<open>make_interval(mins => n)\<close> added to a \<open>timestamptz\<close>.\<close>

definition pg_minutes :: "int \<Rightarrow> int" where
  "pg_minutes n = n * microseconds_per_minute"

lemma pg_hour_minute: "pg_hour l * 60 + pg_minute l = minute_of_day l"
proof -
  define x :: int where "x = l mod day"
  define q :: int where "q = x div 60000000"
  have m: "l mod 3600000000 = x mod 3600000000"
    by (simp add: x_def mod_mod_cancel)
  have "x div (60000000 * 60) = q div 60"
    by (simp add: q_def zdiv_zmult2_eq)
  moreover have "x mod (60000000 * 60) = 60000000 * (q mod 60) + x mod 60000000"
    by (simp only: q_def zmod_zmult2_eq)
  ultimately have "x div 3600000000 = q div 60" "(x mod 3600000000) div 60000000 = q mod 60"
    by simp_all
  moreover have "q div 60 * 60 + q mod 60 = q" by simp
  ultimately show ?thesis
    by (simp add: pg_hour_def pg_minute_def minute_of_day_def m x_def [symmetric] q_def)
qed

lemma mod7_cases: "(x :: int) mod 7 \<in> {0, 1, 2, 3, 4, 5, 6}"
proof -
  have "0 \<le> x mod 7" "x mod 7 < 7" by simp_all
  then show ?thesis by auto
qed

lemma isodow_go_weekday: "pg_isodow l = (if go_weekday l = 0 then 7 else go_weekday l)"
proof -
  have "(x + 3) mod 7 + 1 = (if (x + 4) mod 7 = 0 then 7 else (x + 4) mod 7)" for x :: int
    using mod7_cases [of x]
      mod_add_left_eq [of x 7 3, symmetric] mod_add_left_eq [of x 7 4, symmetric] by auto
  then show ?thesis by (simp add: pg_isodow_def go_weekday_def)
qed

lemma offset_utc [simp]: "offset_at utc t = 0"
  by (simp add: offset_at_def lookup_zone_def utc_def)

lemma local_time_utc [simp]: "local_time utc t = t"
  by (simp add: local_time_def)

lemma go_midnight_utc [simp]: "go_midnight utc d = d * day"
  by (simp add: go_midnight_def lookup_zone_def utc_def)

text \<open>A zone whose offset never changes: midnight is found exactly.\<close>

lemma go_midnight_fixed:
  "transitions z = [] \<Longrightarrow> go_midnight z d = d * day - base_offset z"
  by (simp add: go_midnight_def lookup_zone_def offset_at_def Let_def)

lemma local_time_fixed: "transitions z = [] \<Longrightarrow> local_time z t = t + base_offset z"
  by (simp add: local_time_def offset_at_def lookup_zone_def)

text \<open>
  Within a period the search for midnight is exact: if the offset in force at the returned
  instant is the one subtracted, its wall clock reads 00:00 of the civil day.
\<close>

lemma go_midnight_local:
  assumes "offset_at z (go_midnight z d) = d * day - go_midnight z d"
  shows "local_time z (go_midnight z d) = d * day"
  using assms by (simp add: local_time_def)

end
