(* ===== verification/Occupancy.thy ===== *)
theory Occupancy
  imports Effects Clock
begin

text \<open>
  The occupation table both allocators keep (\<open>tech_occupation\<close>, \<open>bay_occupation\<close>), the GiST
  exclusion constraint that is the race authority, and the four statements issued on it: the
  claiming \<open>INSERT\<close>, the confirming and releasing \<open>UPDATE\<close>s and the reaping \<open>DELETE\<close>.  The two
  tables differ only in the name of the resource column, so the statements are stated once, over
  the row type \<open>occ_row\<close>, and each allocator issues them on its own table.
\<close>

section \<open>PostgreSQL\<close>

text \<open>
  What the SQL text relies on from the server: \<open>hashtext\<close>, the text input of type \<open>uuid\<close>
  (canonical text, or none for malformed input) and the time zone table.
\<close>

record pg_ext =
  hashtext :: "string \<Rightarrow> int"
  uuid_in :: "string \<Rightarrow> string option"
  pg_zone :: "string \<Rightarrow> zone option"

abbreviation (input) exclusion_violation :: string where "exclusion_violation \<equiv> ''23P01''"
abbreviation (input) unique_violation :: string where "unique_violation \<equiv> ''23505''"
abbreviation (input) foreign_key_violation :: string where "foreign_key_violation \<equiv> ''23503''"
abbreviation (input) check_violation :: string where "check_violation \<equiv> ''23514''"

text \<open>\<open>column <= value\<close> on a nullable column: \<open>NULL\<close> is not true.\<close>

definition null_le :: "int option \<Rightarrow> int \<Rightarrow> bool" where
  "null_le x y = (case x of None \<Rightarrow> False | Some v \<Rightarrow> v \<le> y)"

section \<open>Occupations\<close>

datatype occ_status = OccHeld | OccConfirmed | OccReleased

record occ_row =
  occ_id :: string
  occ_resource :: string
  occ_start :: instant
  occ_end :: instant
  occ_status :: occ_status
  occ_hold_expires_at :: "instant option"

text \<open>\<open>status IN ('HELD', 'CONFIRMED')\<close>, the predicate of the exclusion constraint.\<close>

definition occ_live :: "occ_row \<Rightarrow> bool" where
  "occ_live o1 \<longleftrightarrow> occ_status o1 = OccHeld \<or> occ_status o1 = OccConfirmed"

text \<open>\<open>tstzrange(a, b, '[)') && tstzrange(c, d, '[)')\<close>; an empty range overlaps nothing.\<close>

definition range_overlap :: "instant \<Rightarrow> instant \<Rightarrow> instant \<Rightarrow> instant \<Rightarrow> bool" where
  "range_overlap a b c d \<longleftrightarrow> a < b \<and> c < d \<and> a < d \<and> c < b"

definition conflicts :: "occ_row \<Rightarrow> occ_row \<Rightarrow> bool" where
  "conflicts o1 o2 \<longleftrightarrow> occ_live o1 \<and> occ_live o2 \<and> occ_resource o1 = occ_resource o2 \<and>
     range_overlap (occ_start o1) (occ_end o1) (occ_start o2) (occ_end o2)"

text \<open>\<open>EXCLUDE USING gist (resource WITH =, tstzrange WITH &&) WHERE live\<close>, over a whole table.\<close>

definition no_overlap :: "occ_row list \<Rightarrow> bool" where
  "no_overlap rows = sorted_wrt (\<lambda>o1 o2. \<not> conflicts o1 o2) rows"

text \<open>\<open>NOT EXISTS (SELECT 1 FROM \<dots>_occupation o WHERE o.resource = r AND live AND overlapping)\<close>.\<close>

definition free :: "occ_row list \<Rightarrow> string \<Rightarrow> instant \<Rightarrow> instant \<Rightarrow> bool" where
  "free rows r s e = (\<forall>o1 \<in> set rows. \<not> (occ_resource o1 = r \<and> occ_live o1 \<and>
     range_overlap (occ_start o1) (occ_end o1) s e))"

section \<open>Statements\<close>

text \<open>The inserted row: a fresh id, status \<open>HELD\<close>, \<open>hold_expires_at = now() + interval '120 seconds'\<close>.\<close>

definition held_row :: "string \<Rightarrow> string \<Rightarrow> instant \<Rightarrow> instant \<Rightarrow> instant \<Rightarrow> occ_row" where
  "held_row i r s e now = \<lparr>occ_id = i, occ_resource = r, occ_start = s, occ_end = e,
     occ_status = OccHeld, occ_hold_expires_at = Some (now + 120 * microseconds_per_second)\<rparr>"

text \<open>
  \<open>INSERT\<close> of one row: the \<open>CHECK\<close>, the primary key, the exclusion constraint and the foreign key
  to the resource table (\<open>resources\<close>), each with its SQLSTATE.
\<close>

definition insert_occ :: "string list \<Rightarrow> occ_row \<Rightarrow> occ_row list \<Rightarrow> pg_error + occ_row list" where
  "insert_occ resources n rows =
     (if \<not> occ_start n < occ_end n then Inl (PgError check_violation)
      else if occ_id n \<in> set (map occ_id rows) then Inl (PgError unique_violation)
      else if \<exists>o1 \<in> set rows. conflicts o1 n then Inl (PgError exclusion_violation)
      else if occ_resource n \<notin> set resources then Inl (PgError foreign_key_violation)
      else Inr (rows @ [n]))"

text \<open>The \<open>WHERE\<close> of Confirm: the unexpired-\<open>HELD\<close> arm or the \<open>CONFIRMED\<close> arm.\<close>

definition confirmable :: "instant \<Rightarrow> occ_row \<Rightarrow> bool" where
  "confirmable now o1 \<longleftrightarrow>
     (occ_status o1 = OccHeld \<and>
        (case occ_hold_expires_at o1 of None \<Rightarrow> True | Some e \<Rightarrow> now < e)) \<or>
     occ_status o1 = OccConfirmed"

definition confirm_row :: "occ_row \<Rightarrow> occ_row" where
  "confirm_row o1 = o1\<lparr>occ_status := OccConfirmed, occ_hold_expires_at := None\<rparr>"

definition release_row :: "occ_row \<Rightarrow> occ_row" where
  "release_row o1 = o1\<lparr>occ_status := OccReleased\<rparr>"

definition confirm_occ :: "instant \<Rightarrow> string \<Rightarrow> occ_row list \<Rightarrow> occ_row list" where
  "confirm_occ now i rows = update_where (\<lambda>o1. occ_id o1 = i \<and> confirmable now o1) confirm_row rows"

definition release_occ :: "string \<Rightarrow> occ_row list \<Rightarrow> occ_row list" where
  "release_occ i rows = update_where (\<lambda>o1. occ_id o1 = i \<and> occ_live o1) release_row rows"

text \<open>\<open>DELETE \<dots> WHERE status = 'HELD' AND hold_expires_at <= now()\<close>.\<close>

definition expired :: "instant \<Rightarrow> occ_row \<Rightarrow> bool" where
  "expired now o1 \<longleftrightarrow> occ_status o1 = OccHeld \<and> null_le (occ_hold_expires_at o1) now"

definition reap :: "instant \<Rightarrow> occ_row list \<Rightarrow> occ_row list" where
  "reap now rows = filter (\<lambda>o1. \<not> expired now o1) rows"

section \<open>The contracts of the two updates\<close>

lemma row_simps [simp]:
  "occ_id (confirm_row o1) = occ_id o1" "occ_resource (confirm_row o1) = occ_resource o1"
  "occ_start (confirm_row o1) = occ_start o1" "occ_end (confirm_row o1) = occ_end o1"
  "occ_status (confirm_row o1) = OccConfirmed" "occ_hold_expires_at (confirm_row o1) = None"
  "occ_id (release_row o1) = occ_id o1" "occ_resource (release_row o1) = occ_resource o1"
  "occ_start (release_row o1) = occ_start o1" "occ_end (release_row o1) = occ_end o1"
  "occ_status (release_row o1) = OccReleased"
  "occ_hold_expires_at (release_row o1) = occ_hold_expires_at o1"
  by (simp_all add: confirm_row_def release_row_def)

lemma held_row_simps [simp]:
  "occ_id (held_row i r s e now) = i" "occ_resource (held_row i r s e now) = r"
  "occ_start (held_row i r s e now) = s" "occ_end (held_row i r s e now) = e"
  "occ_status (held_row i r s e now) = OccHeld"
  "occ_hold_expires_at (held_row i r s e now) = Some (now + 120 * microseconds_per_second)"
  by (simp_all add: held_row_def)

interpretation confirming: cas_idem occ_id "confirmable now" confirm_row "confirmable later"
  for now later
  by unfold_locales (auto simp: confirmable_def confirm_row_def)

interpretation releasing: cas_once occ_id occ_live release_row
  by unfold_locales (auto simp: occ_live_def release_row_def)

section \<open>The exclusion constraint is kept\<close>

lemma conflicts_sym: "conflicts o1 o2 = conflicts o2 o1"
  by (auto simp: conflicts_def range_overlap_def)

lemma no_overlap_append: "no_overlap (xs @ [n]) \<longleftrightarrow> no_overlap xs \<and> (\<forall>o1 \<in> set xs. \<not> conflicts o1 n)"
  by (simp add: no_overlap_def sorted_wrt_append)

lemma no_overlap_filter: "no_overlap rows \<Longrightarrow> no_overlap (filter P rows)"
  by (simp add: no_overlap_def sorted_wrt_filter)

text \<open>An update that keeps resource and interval and revives nothing keeps the constraint.\<close>

lemma no_overlap_update:
  assumes "no_overlap rows"
    and "\<And>o1. P o1 \<Longrightarrow> occ_live (f o1) \<Longrightarrow> occ_live o1"
    and "\<And>o1. occ_resource (f o1) = occ_resource o1"
    and "\<And>o1. occ_start (f o1) = occ_start o1" and "\<And>o1. occ_end (f o1) = occ_end o1"
  shows "no_overlap (update_where P f rows)"
proof -
  have imp: "conflicts o1 o2"
    if "conflicts (if P o1 then f o1 else o1) (if P o2 then f o2 else o2)" for o1 o2
    using that assms(2-5) by (auto simp: conflicts_def split: if_splits)
  show ?thesis
    unfolding no_overlap_def update_where_def sorted_wrt_map
    by (rule sorted_wrt_mono_rel [OF _ assms(1) [unfolded no_overlap_def]]) (use imp in blast)
qed

lemma confirmable_live: "confirmable now o1 \<Longrightarrow> occ_live o1"
  by (auto simp: confirmable_def occ_live_def)

lemma no_overlap_confirm [preserve]: "no_overlap rows \<Longrightarrow> no_overlap (confirm_occ now i rows)"
  unfolding confirm_occ_def
  by (rule no_overlap_update) (auto intro: confirmable_live)

lemma no_overlap_release [preserve]: "no_overlap rows \<Longrightarrow> no_overlap (release_occ i rows)"
  unfolding release_occ_def
  by (rule no_overlap_update) (auto simp: occ_live_def)

lemma no_overlap_reap [preserve]: "no_overlap rows \<Longrightarrow> no_overlap (reap now rows)"
  by (simp add: reap_def no_overlap_filter)

lemma no_overlap_insert [preserve]:
  "no_overlap rows \<Longrightarrow> insert_occ rs n rows = Inr rows' \<Longrightarrow> no_overlap rows'"
  by (auto simp: insert_occ_def no_overlap_append split: if_splits)

text \<open>What the constraint means for two distinct rows.\<close>

lemma no_overlapD:
  assumes "no_overlap rows" and "o1 \<in> set rows" and "o2 \<in> set rows" and "o1 \<noteq> o2"
  shows "\<not> conflicts o1 o2"
  using assms by (induction rows) (auto simp: no_overlap_def conflicts_sym)

lemma insert_occ_Inr_iff:
  "insert_occ rs n rows = Inr rows' \<longleftrightarrow>
     occ_start n < occ_end n \<and> occ_id n \<notin> occ_id ` set rows \<and> (\<forall>o1 \<in> set rows. \<not> conflicts o1 n) \<and>
     occ_resource n \<in> set rs \<and> rows' = rows @ [n]"
  by (auto simp: insert_occ_def)

lemma free_no_conflict:
  "free rows (occ_resource n) (occ_start n) (occ_end n) \<Longrightarrow> o1 \<in> set rows \<Longrightarrow> \<not> conflicts o1 n"
  by (auto simp: free_def conflicts_def)

lemma confirmed_not_expired: "occ_status o1 = OccConfirmed \<Longrightarrow> \<not> expired now o1"
  by (simp add: expired_def)

lemma in_reap_iff: "o1 \<in> set (reap now rows) \<longleftrightarrow> o1 \<in> set rows \<and> \<not> expired now o1"
  by (simp add: reap_def)

end
