(* ===== verification/Allocator.thy ===== *)
theory Allocator
  imports Occupancy
begin

text \<open>
  What the two allocators share: the status codes of their RPCs, the statements they send to
  their occupation table, the bounded claim-and-reap loop of \<open>reserve\<close>, the periodic reaper
  (\<open>shared/pkg/reaper\<close>), and the contract \<open>allocator\<close> that Booking relies on.  The locale is
  interpreted on the model's own RPC handlers in \<open>Technician\<close> and \<open>Bay\<close>.
\<close>

section \<open>Status codes and results\<close>

text \<open>\<open>Unavailable\<close> stands for every error of the transport; the others are the handlers' own.\<close>

datatype grpc_code = InvalidArgument | FailedPrecondition | Internal | Unavailable

type_synonym grpc_error = "grpc_code \<times> string"

text \<open>The sentinel \<open>ErrUnavailable\<close> of the allocator packages, or any other error of the claim.\<close>

datatype reserve_error = NoFreeResource | ClaimFailed pg_error

record Occupation =
  OccupationID :: string
  ResourceID :: string
  OccupationEnd :: instant

abbreviation (input) maxReserveAttempts :: nat where "maxReserveAttempts \<equiv> 3"

section \<open>Statements on the occupation table\<close>

definition confirm_stmt :: "pg_ext \<Rightarrow> string \<Rightarrow> (occ_row list, pg_error + nat) prog" where
  "confirm_stmt ext i = sql ConfirmSQL (\<lambda>c rows.
     case uuid_in ext i of
       None \<Rightarrow> (Inl OtherError, rows)
     | Some u \<Rightarrow> (Inr (rows_affected (\<lambda>o1. occ_id o1 = u \<and> confirmable (db_now c) o1) rows),
                 confirm_occ (db_now c) u rows))"

definition release_stmt :: "pg_ext \<Rightarrow> string \<Rightarrow> (occ_row list, pg_error + nat) prog" where
  "release_stmt ext i = sql ReleaseSQL (\<lambda>c rows.
     case uuid_in ext i of
       None \<Rightarrow> (Inl OtherError, rows)
     | Some u \<Rightarrow> (Inr (rows_affected (\<lambda>o1. occ_id o1 = u \<and> occ_live o1) rows),
                 release_occ u rows))"

definition reap_stmt :: "(occ_row list, pg_error + nat) prog" where
  "reap_stmt = sql ReapSQL (\<lambda>c rows.
     (Inr (rows_affected (expired (db_now c)) rows), reap (db_now c) rows))"

text \<open>One tick of the reaper goroutine: the same \<open>DELETE\<close>, errors logged and ignored.\<close>

definition reaper_tick :: "(occ_row list, unit) prog" where
  "reaper_tick = andthen reap_stmt (\<lambda>_. Ret ())"

text \<open>
  The claiming \<open>INSERT \<dots> SELECT\<close> under READ COMMITTED is two actions: the \<open>SELECT\<close> picks from the
  snapshot the statement started with (\<open>now()\<close> is fixed there too), the \<open>INSERT\<close> meets the
  constraints of the table as it is by then.  \<open>pick\<close> is the allocator's \<open>SELECT\<close>; no row picked
  means no row inserted and \<open>RETURNING\<close> yields \<open>pgx.ErrNoRows\<close>.
\<close>

definition claim_insert ::
  "('db \<Rightarrow> string list) \<Rightarrow> ('db \<Rightarrow> occ_row list) \<Rightarrow> (occ_row list \<Rightarrow> 'db \<Rightarrow> 'db) \<Rightarrow>
   string \<Rightarrow> instant \<Rightarrow> instant \<Rightarrow> instant \<Rightarrow> string \<Rightarrow> 'db \<Rightarrow> (pg_error + Occupation) \<times> 'db" where
  "claim_insert resources occs set_occs r s e now i db =
     (case insert_occ (resources db) (held_row i r s e now) (occs db) of
        Inl err \<Rightarrow> (Inl err, db)
      | Inr rows \<Rightarrow> (Inr \<lparr>OccupationID = i, ResourceID = r, OccupationEnd = e\<rparr>, set_occs rows db))"

definition claim_stmt ::
  "('db \<Rightarrow> pg_error + (string \<times> instant \<times> instant) option) \<Rightarrow> ('db \<Rightarrow> string list) \<Rightarrow>
   ('db \<Rightarrow> occ_row list) \<Rightarrow> (occ_row list \<Rightarrow> 'db \<Rightarrow> 'db) \<Rightarrow> ('db, pg_error + Occupation) prog" where
  "claim_stmt pick resources occs set_occs =
     andthen (atomic (\<lambda>c db. ((pick db, db_now c), db))) (\<lambda>(picked, now).
       case picked of
         Inl e \<Rightarrow> Ret (Inl e)
       | Inr None \<Rightarrow> Ret (Inl ErrNoRows)
       | Inr (Some (r, s, e)) \<Rightarrow> sql ClaimSQL (\<lambda>c db.
           claim_insert resources occs set_occs r s e now (fresh_id c) db))"

text \<open>
  \<open>for attempt := 1; attempt <= maxReserveAttempts; attempt++\<close>: a claim that found no row or lost
  the exclusion race reaps the expired holds and tries again; the last attempt reaps too.
\<close>

fun claim_loop ::
  "nat \<Rightarrow> ('db, pg_error + Occupation) prog \<Rightarrow> ('db, pg_error + nat) prog \<Rightarrow>
   ('db, reserve_error + Occupation) prog" where
  "claim_loop 0 claim reap1 = Ret (Inl NoFreeResource)"
| "claim_loop (Suc n) claim reap1 = andthen claim (\<lambda>r.
     case r of
       Inr occ \<Rightarrow> Ret (Inr occ)
     | Inl err \<Rightarrow>
         if err = ErrNoRows \<or> err = PgError exclusion_violation
         then andthen reap1 (\<lambda>d.
                case d of
                  Inl derr \<Rightarrow> Ret (Inl NoFreeResource)
                | Inr m \<Rightarrow> claim_loop n claim reap1)
         else Ret (Inl (ClaimFailed err)))"

text \<open>\<open>ORDER BY key LIMIT 1\<close>: the first row with the least key.\<close>

fun first_least :: "('a \<Rightarrow> int) \<Rightarrow> 'a list \<Rightarrow> 'a option" where
  "first_least k [] = None"
| "first_least k (x # xs) =
     (case first_least k xs of
        None \<Rightarrow> Some x
      | Some y \<Rightarrow> if k x \<le> k y then Some x else Some y)"

lemma first_least_None_iff: "first_least k xs = None \<longleftrightarrow> xs = []"
  by (cases xs) (auto split: option.splits)

lemma first_least_in: "first_least k xs = Some x \<Longrightarrow> x \<in> set xs"
  by (induction xs arbitrary: x) (auto split: option.splits if_splits)

lemma first_least_min: "first_least k xs = Some x \<Longrightarrow> y \<in> set xs \<Longrightarrow> k x \<le> k y"
  by (induction xs arbitrary: x y) (force split: option.splits if_splits simp: first_least_None_iff)+

section \<open>What one claim does to the table\<close>

text \<open>
  The outcome of a claim (one statement, or the whole loop): on success the one new row is the
  held row of the returned occupation, under a fresh id; on failure no row is added, unless a
  reply was lost, and then the row added is a hold with its TTL.  Rows that vanish were expired
  holds.
\<close>

definition only_reaped :: "occ_row list \<Rightarrow> occ_row list \<Rightarrow> bool" where
  "only_reaped rows rows' \<longleftrightarrow>
     set rows' \<subseteq> set rows \<and> (\<forall>o1 \<in> set rows - set rows'. \<exists>now. expired now o1)"

definition claimed :: "occ_row list \<Rightarrow> occ_row \<Rightarrow> occ_row list \<Rightarrow> bool" where
  "claimed rows n rows' \<longleftrightarrow> rows' = rows @ [n] \<and>
     occ_status n = OccHeld \<and> occ_hold_expires_at n \<noteq> None \<and> occ_start n < occ_end n \<and>
     occ_id n \<notin> occ_id ` set rows \<and> (\<forall>o1 \<in> set rows. \<not> conflicts o1 n)"

text \<open>A failed claim leaves at most one hold behind, the one whose reply was lost.\<close>

definition failed_claim :: "occ_row list \<Rightarrow> occ_row list \<Rightarrow> bool" where
  "failed_claim rows rows' \<longleftrightarrow>
     only_reaped rows rows' \<or> (\<exists>mid n. only_reaped rows mid \<and> claimed mid n rows')"

lemma only_reaped_refl [simp]: "only_reaped rows rows"
  by (simp add: only_reaped_def)

lemma only_reaped_reap [simp]: "only_reaped rows (reap now rows)"
  by (auto simp: only_reaped_def in_reap_iff)

lemma only_reaped_trans: "only_reaped a b \<Longrightarrow> only_reaped b c \<Longrightarrow> only_reaped a c"
  by (auto simp: only_reaped_def)

lemma claimed_insert:
  "insert_occ rs (held_row i r s e now) rows = Inr rows' \<Longrightarrow> claimed rows (held_row i r s e now) rows'"
  by (auto simp: insert_occ_Inr_iff claimed_def)

lemma failed_claim_reaped: "only_reaped rows rows' \<Longrightarrow> failed_claim rows rows'"
  by (simp add: failed_claim_def)

lemma failed_claim_claimed: "claimed rows n rows' \<Longrightarrow> failed_claim rows rows'"
  unfolding failed_claim_def using only_reaped_refl by blast

lemma failed_claim_trans: "only_reaped a b \<Longrightarrow> failed_claim b c \<Longrightarrow> failed_claim a c"
  unfolding failed_claim_def using only_reaped_trans by blast

section \<open>How occupations evolve\<close>

text \<open>
  The life cycle of an occupation row: its resource and interval are frozen at the claim, its
  status only moves \<open>HELD\<close> to \<open>CONFIRMED\<close> to \<open>RELEASED\<close> (or straight to \<open>RELEASED\<close>), and only
  a row that is still \<open>HELD\<close> and has a TTL can vanish.
\<close>

fun status_rank :: "occ_status \<Rightarrow> nat" where
  "status_rank OccHeld = 0"
| "status_rank OccConfirmed = 1"
| "status_rank OccReleased = 2"

definition row_evolves :: "occ_row \<Rightarrow> occ_row \<Rightarrow> bool" where
  "row_evolves o1 o2 \<longleftrightarrow> occ_id o2 = occ_id o1 \<and> occ_resource o2 = occ_resource o1 \<and>
     occ_start o2 = occ_start o1 \<and> occ_end o2 = occ_end o1 \<and>
     status_rank (occ_status o1) \<le> status_rank (occ_status o2) \<and>
     (occ_status o2 = OccHeld \<longrightarrow> occ_hold_expires_at o2 = occ_hold_expires_at o1)"

definition occ_evolves :: "occ_row list \<Rightarrow> occ_row list \<Rightarrow> bool" where
  "occ_evolves rows rows' \<longleftrightarrow> (\<forall>o1 \<in> set rows.
     (\<exists>o2 \<in> set rows'. row_evolves o1 o2) \<or> (\<exists>now. expired now o1))"

lemma row_evolves_refl [simp]: "row_evolves o1 o1"
  by (simp add: row_evolves_def)

lemma row_evolves_trans: "row_evolves a b \<Longrightarrow> row_evolves b c \<Longrightarrow> row_evolves a c"
  by (cases "occ_status c"; cases "occ_status b") (auto simp: row_evolves_def)

lemma row_evolves_expired: "row_evolves a b \<Longrightarrow> expired now b \<Longrightarrow> expired now a"
  by (cases "occ_status a") (auto simp: row_evolves_def expired_def)

interpretation evolving: guarantee "\<lambda>db db'. occ_evolves (f db) (f db')" for f
proof (unfold_locales, goal_cases)
  case (1 w)
  show ?case by (auto simp: occ_evolves_def intro: row_evolves_refl)
next
  case (2 u v w)
  then show ?case unfolding occ_evolves_def
    by (meson row_evolves_trans row_evolves_expired)
qed

lemma occ_evolves_superset: "set rows \<subseteq> set rows' \<Longrightarrow> occ_evolves rows rows'"
  unfolding occ_evolves_def by (meson row_evolves_refl subsetD)

lemma occ_evolves_reap: "occ_evolves rows (reap now rows)"
  unfolding occ_evolves_def by (metis in_reap_iff row_evolves_refl)

lemma occ_evolves_update:
  "(\<And>o1. P o1 \<Longrightarrow> row_evolves o1 (f o1)) \<Longrightarrow> occ_evolves rows (update_where P f rows)"
  unfolding occ_evolves_def
  by (metis (full_types) row_evolves_refl update_where_memI)

lemma occ_evolves_confirm: "occ_evolves rows (confirm_occ now i rows)"
  unfolding confirm_occ_def
  by (rule occ_evolves_update) (auto simp: row_evolves_def confirmable_def)

lemma occ_evolves_release: "occ_evolves rows (release_occ i rows)"
  unfolding release_occ_def
  by (rule occ_evolves_update) (auto simp: row_evolves_def occ_live_def)

section \<open>The contract of an allocator\<close>

text \<open>
  \<open>confirm_post\<close> and \<open>release_post\<close> relate the table before and after an RPC to its result: an
  answered Confirm found a confirmable row and confirmed it, an answered Release released the
  live row if there was one; a failed RPC either did its update or nothing.
\<close>

definition confirm_post :: "pg_ext \<Rightarrow> string \<Rightarrow> occ_row list \<Rightarrow> grpc_error + unit \<Rightarrow> occ_row list \<Rightarrow> bool" where
  "confirm_post ext i rows r rows' \<longleftrightarrow>
     (case r of
        Inl e \<Rightarrow> rows' = rows \<or> (\<exists>now u. uuid_in ext i = Some u \<and> rows' = confirm_occ now u rows)
      | Inr x \<Rightarrow> \<exists>now u. uuid_in ext i = Some u \<and> rows' = confirm_occ now u rows \<and>
                   (\<exists>o1 \<in> set rows. occ_id o1 = u \<and> confirmable now o1))"

definition release_post :: "pg_ext \<Rightarrow> string \<Rightarrow> occ_row list \<Rightarrow> grpc_error + unit \<Rightarrow> occ_row list \<Rightarrow> bool" where
  "release_post ext i rows r rows' \<longleftrightarrow>
     (case r of
        Inl e \<Rightarrow> rows' = rows \<or> (\<exists>u. uuid_in ext i = Some u \<and> rows' = release_occ u rows)
      | Inr x \<Rightarrow> \<exists>u. uuid_in ext i = Some u \<and> rows' = release_occ u rows)"

text \<open>The query \<open>pick\<close> finds a resource for which the row of the claim would be accepted.\<close>

definition finds ::
  "('db \<Rightarrow> pg_error + (string \<times> instant \<times> instant) option) \<Rightarrow> ('db \<Rightarrow> string list) \<Rightarrow> ('db \<Rightarrow> occ_row list) \<Rightarrow> 'db \<Rightarrow> bool" where
  "finds pick resources occs db \<longleftrightarrow> (\<exists>r s e. pick db = Inr (Some (r, s, e)) \<and> s < e \<and> r \<in> set (resources db) \<and>
     free (occs db) r s e)"

locale occ_store =
  fixes occs :: "'db \<Rightarrow> occ_row list"
    and set_occs :: "occ_row list \<Rightarrow> 'db \<Rightarrow> 'db"
  assumes get_set: "occs (set_occs rows db) = rows"
    and set_set: "set_occs rows (set_occs rows' db) = set_occs rows db"
    and set_get: "set_occs (occs db) db = db"
begin

lemma wp_on_occs: "wp (zoom p occs set_occs) C Q db = wp p C (\<lambda>x rows. Q x (set_occs rows db)) (occs db)"
  by (rule wp_zoom) (simp_all add: get_set set_set set_get)

lemma keeps_on_occs:
  "keeps p (stable I) \<Longrightarrow> keeps (zoom p occs set_occs) (stable (\<lambda>db. I (occs db)))"
  by (erule keeps_zoom) (simp add: stable_def get_set)

end

locale allocator = occ_store occs set_occs
  for occs :: "'db \<Rightarrow> occ_row list" and set_occs :: "occ_row list \<Rightarrow> 'db \<Rightarrow> 'db" +
  fixes ext :: pg_ext
    and Confirm :: "string \<Rightarrow> ('db, grpc_error + unit) prog"
    and Release :: "string \<Rightarrow> ('db, grpc_error + unit) prog"
  assumes Confirm_law:
      "wp (Confirm i) C (\<lambda>r db'. \<exists>rows'. db' = set_occs rows' db \<and> confirm_post ext i (occs db) r rows') db"
    and Release_law:
      "wp (Release i) C (\<lambda>r db'. \<exists>rows'. db' = set_occs rows' db \<and> release_post ext i (occs db) r rows') db"
    and Release_delivered:
      "(\<And>c. C c \<Longrightarrow> faults c ReleaseSQL = Deliver) \<Longrightarrow> i \<noteq> '''' \<Longrightarrow> uuid_in ext i = Some u \<Longrightarrow>
       wp (Release i) C (\<lambda>r db'. r = Inr () \<and> db' = set_occs (release_occ u (occs db)) db) db"
begin

lemma Confirm_confirms:
  "wp (Confirm i) C (\<lambda>r db'. r = Inr () \<longrightarrow>
     (\<exists>u. uuid_in ext i = Some u \<and> (\<exists>o1 \<in> set (occs db'). occ_id o1 = u \<and> occ_status o1 = OccConfirmed))) db"
proof (rule wp_mono [OF Confirm_law])
  fix r db'
  assume "\<exists>rows'. db' = set_occs rows' db \<and> confirm_post ext i (occs db) r rows'"
  then obtain rows' where db': "db' = set_occs rows' db" and cp: "confirm_post ext i (occs db) r rows'"
    by blast
  show "r = Inr () \<longrightarrow> (\<exists>u. uuid_in ext i = Some u \<and>
     (\<exists>o1 \<in> set (occs db'). occ_id o1 = u \<and> occ_status o1 = OccConfirmed))"
  proof
    assume "r = Inr ()"
    with cp obtain now u o1 where u: "uuid_in ext i = Some u" "rows' = confirm_occ now u (occs db)"
      and o1: "o1 \<in> set (occs db)" "occ_id o1 = u" "confirmable now o1"
      by (auto simp: confirm_post_def)
    have "confirm_row o1 \<in> set rows'"
      using update_where_memI [OF o1(1), of "\<lambda>o1. occ_id o1 = u \<and> confirmable now o1" confirm_row]
        o1 u(2) by (simp add: confirm_occ_def)
    then show "\<exists>u. uuid_in ext i = Some u \<and>
       (\<exists>o1 \<in> set (occs db'). occ_id o1 = u \<and> occ_status o1 = OccConfirmed)"
      using u(1) o1(2) db' by (auto simp: get_set intro!: bexI [of _ "confirm_row o1"])
  qed
qed

lemma Release_frees:
  "(\<And>c. C c \<Longrightarrow> faults c ReleaseSQL = Deliver) \<Longrightarrow> i \<noteq> '''' \<Longrightarrow> uuid_in ext i = Some u \<Longrightarrow>
   wp (Release i) C (\<lambda>r db'. r = Inr () \<and> (\<forall>o1 \<in> set (occs db'). occ_id o1 = u \<longrightarrow> \<not> occ_live o1)) db"
  by (rule wp_mono [OF Release_delivered])
    (auto simp: get_set release_occ_def occ_live_def elim!: in_update_whereE split: if_splits)

lemma Release_twice:
  "(\<And>c. C c \<Longrightarrow> faults c ReleaseSQL = Deliver) \<Longrightarrow> i \<noteq> '''' \<Longrightarrow> uuid_in ext i = Some u \<Longrightarrow>
   wp (andthen (Release i) (\<lambda>_. Release i)) C
      (\<lambda>r db'. r = Inr () \<and> db' = set_occs (release_occ u (occs db)) db) db"
  unfolding wp_andthen
  by (rule wp_mono [OF Release_delivered], assumption+, elim conjE, rule wp_mono [OF Release_delivered])
    (auto simp: get_set set_set release_occ_def releasing.twice_is_once)

end

section \<open>The shared statements meet the contract\<close>

lemma keeps_confirm_stmt [preserve]: "keeps (confirm_stmt ext i) (stable no_overlap)"
  unfolding confirm_stmt_def
  by (rule keeps_sql) (auto simp: stable_def split: option.splits intro: preserve)

lemma keeps_release_stmt [preserve]: "keeps (release_stmt ext i) (stable no_overlap)"
  unfolding release_stmt_def
  by (rule keeps_sql) (auto simp: stable_def split: option.splits intro: preserve)

lemma keeps_reap_stmt [preserve]: "keeps reap_stmt (stable no_overlap)"
  unfolding reap_stmt_def
  by (rule keeps_sql) (auto simp: stable_def intro: preserve)

lemma keeps_reaper_tick [preserve]: "keeps reaper_tick (stable no_overlap)"
  unfolding reaper_tick_def by (rule keeps_andthen) (auto intro: preserve)

lemma keeps_claim_loop:
  "keeps claim R \<Longrightarrow> keeps reap1 R \<Longrightarrow> keeps (claim_loop n claim reap1) R"
  by (induction n) (auto intro!: keeps_andthen split: sum.splits)

lemma wp_confirm_stmt:
  "wp (confirm_stmt ext i) C (\<lambda>r rows'. case r of
       Inl e \<Rightarrow> rows' = rows \<or> (\<exists>now u. uuid_in ext i = Some u \<and> rows' = confirm_occ now u rows)
     | Inr n \<Rightarrow> \<exists>now u. uuid_in ext i = Some u \<and> rows' = confirm_occ now u rows \<and>
         n = rows_affected (\<lambda>o1. occ_id o1 = u \<and> confirmable now o1) rows) rows"
  unfolding confirm_stmt_def by (rule wp_sqlI) (auto split: option.splits)

lemma wp_release_stmt:
  "wp (release_stmt ext i) C (\<lambda>r rows'. case r of
       Inl e \<Rightarrow> rows' = rows \<or> (\<exists>u. uuid_in ext i = Some u \<and> rows' = release_occ u rows)
     | Inr n \<Rightarrow> \<exists>u. uuid_in ext i = Some u \<and> rows' = release_occ u rows) rows"
  unfolding release_stmt_def by (rule wp_sqlI) (auto split: option.splits)

lemma wp_release_delivered:
  "(\<And>c. C c \<Longrightarrow> faults c ReleaseSQL = Deliver) \<Longrightarrow> uuid_in ext i = Some u \<Longrightarrow>
   wp (release_stmt ext i) C (\<lambda>r rows'. (\<exists>n. r = Inr n) \<and> rows' = release_occ u rows) rows"
  unfolding release_stmt_def by (simp add: wp_sql_delivered)

lemma wp_reap_stmt: "wp reap_stmt C (\<lambda>r rows'. only_reaped rows rows') rows"
  unfolding reap_stmt_def by (rule wp_sqlI) auto

text \<open>What attempts at a claim leave: \<open>mid\<close> is the table the successful query saw.\<close>

abbreviation claim_outcome ::
  "('db \<Rightarrow> pg_error + (string \<times> instant \<times> instant) option) \<Rightarrow> ('db \<Rightarrow> occ_row list) \<Rightarrow> (occ_row list \<Rightarrow> 'db \<Rightarrow> 'db) \<Rightarrow>
   'db \<Rightarrow> reserve_error + Occupation \<Rightarrow> 'db \<Rightarrow> bool" where
  "claim_outcome pick occs set_occs db r db' \<equiv> \<exists>rows'. db' = set_occs rows' db \<and>
     (case r of
        Inl e \<Rightarrow> failed_claim (occs db) rows'
      | Inr occ \<Rightarrow> \<exists>mid s now. only_reaped (occs db) mid \<and>
          pick (set_occs mid db) = Inr (Some (ResourceID occ, s, OccupationEnd occ)) \<and>
          claimed mid (held_row (OccupationID occ) (ResourceID occ) s (OccupationEnd occ) now) rows')"

text \<open>The bodies both allocators' handlers share, after their argument check.\<close>

context occ_store
begin

lemma Confirm_body_law:
  "wp (andthen (zoom (confirm_stmt ext i) occs set_occs) (\<lambda>tag. case tag of
         Inl e \<Rightarrow> Ret (Inl e1) | Inr n \<Rightarrow> if n = 0 then Ret (Inl e2) else Ret (Inr ()))) C
      (\<lambda>r db'. \<exists>rows'. db' = set_occs rows' db \<and> confirm_post ext i (occs db) r rows') db"
  unfolding wp_andthen wp_on_occs
proof (rule wp_mono [OF wp_confirm_stmt], goal_cases)
  case (1 r rows')
  show ?case
  proof (cases r)
    case (Inl e)
    then show ?thesis using 1 by (auto simp: confirm_post_def)
  next
    case (Inr n)
    then obtain now u where u: "uuid_in ext i = Some u" "rows' = confirm_occ now u (occs db)"
      and n: "n = rows_affected (\<lambda>o1. occ_id o1 = u \<and> confirmable now o1) (occs db)"
      using 1 by auto
    show ?thesis
    proof (cases "n = 0")
      case True
      then show ?thesis using u Inr by (auto simp: confirm_post_def)
    next
      case False
      then have "\<exists>o1 \<in> set (occs db). occ_id o1 = u \<and> confirmable now o1"
        using n rows_affected_zero_iff [of "\<lambda>o1. occ_id o1 = u \<and> confirmable now o1" "occs db"] by auto
      then have "confirm_post ext i (occs db) (Inr ()) rows'"
        using u unfolding confirm_post_def by (simp, blast)
      then show ?thesis using False Inr by auto
    qed
  qed
qed

lemma Release_body_law:
  "wp (andthen (zoom (release_stmt ext i) occs set_occs) (\<lambda>tag. case tag of
         Inl e \<Rightarrow> Ret (Inl e1) | Inr n \<Rightarrow> Ret (Inr ()))) C
      (\<lambda>r db'. \<exists>rows'. db' = set_occs rows' db \<and> release_post ext i (occs db) r rows') db"
  unfolding wp_andthen wp_on_occs
  by (rule wp_mono [OF wp_release_stmt]) (auto simp: release_post_def split: sum.splits)

lemma Release_body_delivered:
  "(\<And>c. C c \<Longrightarrow> faults c ReleaseSQL = Deliver) \<Longrightarrow> uuid_in ext i = Some u \<Longrightarrow>
   wp (andthen (zoom (release_stmt ext i) occs set_occs) (\<lambda>tag. case tag of
         Inl e \<Rightarrow> Ret (Inl e1) | Inr n \<Rightarrow> Ret (Inr ()))) C
      (\<lambda>r db'. r = Inr () \<and> db' = set_occs (release_occ u (occs db)) db) db"
  unfolding wp_andthen wp_on_occs
  by (rule wp_mono [OF wp_release_delivered]) (auto split: sum.splits)

lemma reap_law:
  "wp (zoom reap_stmt occs set_occs) C
      (\<lambda>r db'. \<exists>rows'. db' = set_occs rows' db \<and> only_reaped (occs db) rows') db"
  unfolding wp_on_occs by (rule wp_mono [OF wp_reap_stmt]) auto

lemma no_row_post:
  "\<exists>rows'. db = set_occs rows' db \<and> confirm_post ext i (occs db) (Inl e) rows'"
  "\<exists>rows'. db = set_occs rows' db \<and> release_post ext i (occs db) (Inl e) rows'"
  "\<exists>rows'. db = set_occs rows' db \<and> failed_claim (occs db) rows'"
  by (auto simp: confirm_post_def release_post_def set_get failed_claim_reaped intro!: exI [of _ "occs db"])

lemma keeps_claim_stmt:
  "keeps (claim_stmt pick resources occs set_occs) (stable (\<lambda>db. no_overlap (occs db)))"
  unfolding claim_stmt_def
proof (rule keeps_andthen, goal_cases)
  case 1
  then show ?case by (rule keeps_atomic) (simp add: stable_def)
next
  case (2 x)
  have ins: "stable (\<lambda>db. no_overlap (occs db)) db (snd (claim_insert resources occs set_occs r s e now i db))"
    for r s e now i db
    by (auto simp: claim_insert_def stable_def get_set split: sum.splits intro: no_overlap_insert)
  show ?case
    by (cases x; cases "fst x")
      (auto split: option.split prod.split intro!: keeps_sql ins simp: stable_def)
qed

lemma keeps_evolves_stmts:
  "keeps (zoom (confirm_stmt ext i) occs set_occs) (\<lambda>db db'. occ_evolves (occs db) (occs db'))"
  "keeps (zoom (release_stmt ext i) occs set_occs) (\<lambda>db db'. occ_evolves (occs db) (occs db'))"
  "keeps (zoom reap_stmt occs set_occs) (\<lambda>db db'. occ_evolves (occs db) (occs db'))"
proof -
  have lift: "keeps p occ_evolves \<Longrightarrow> keeps (zoom p occs set_occs) (\<lambda>db db'. occ_evolves (occs db) (occs db'))"
    for p :: "(occ_row list, pg_error + nat) prog"
    by (erule keeps_zoom) (simp add: get_set)
  note r = evolving.refl [where f = "\<lambda>x. x"]
  show "keeps (zoom (confirm_stmt ext i) occs set_occs) (\<lambda>db db'. occ_evolves (occs db) (occs db'))"
    unfolding confirm_stmt_def
    by (intro lift keeps_sql) (auto simp: r occ_evolves_confirm split: option.splits)
  show "keeps (zoom (release_stmt ext i) occs set_occs) (\<lambda>db db'. occ_evolves (occs db) (occs db'))"
    unfolding release_stmt_def
    by (intro lift keeps_sql) (auto simp: r occ_evolves_release split: option.splits)
  show "keeps (zoom reap_stmt occs set_occs) (\<lambda>db db'. occ_evolves (occs db) (occs db'))"
    unfolding reap_stmt_def
    by (intro lift keeps_sql) (auto simp: r occ_evolves_reap)
qed

lemma keeps_reaper:
  "keeps (zoom reap_stmt occs set_occs) R \<Longrightarrow> keeps (zoom reaper_tick occs set_occs) R"
  unfolding reaper_tick_def reap_stmt_def sql_def atomic_def by (simp add: split_beta)

lemma keeps_evolves_claim:
  "keeps (claim_stmt pick resources occs set_occs) (\<lambda>db db'. occ_evolves (occs db) (occs db'))"
  unfolding claim_stmt_def
proof (rule keeps_andthen, goal_cases)
  case 1
  then show ?case by (rule keeps_atomic) (simp add: evolving.refl)
next
  case (2 x)
  have ins: "occ_evolves (occs db) (occs (snd (claim_insert resources occs set_occs r s e now i db)))"
    for r s e now i db
    by (auto simp: claim_insert_def get_set insert_occ_Inr_iff evolving.refl [where f = "\<lambda>x. x"]
        split: sum.splits intro: occ_evolves_superset)
  show ?case
    by (cases x; cases "fst x")
      (auto split: option.split prod.split intro!: keeps_sql ins simp: evolving.refl [where f = occs])
qed

lemma wp_claim_stmt:
  "wp (claim_stmt pick resources occs set_occs) C (\<lambda>r db'.
     \<exists>rows'. db' = set_occs rows' db \<and>
       (case r of
          Inl e \<Rightarrow> rows' = occs db \<or> e = OtherError \<and> (\<exists>n. claimed (occs db) n rows')
        | Inr occ \<Rightarrow> \<exists>n s now. claimed (occs db) n rows' \<and>
            pick db = Inr (Some (ResourceID occ, s, OccupationEnd occ)) \<and>
            n = held_row (OccupationID occ) (ResourceID occ) s (OccupationEnd occ) now)) db"
proof -
  have ins: "case claim_insert resources occs set_occs r s e now i db of
       (Inl err, db') \<Rightarrow> db' = db
     | (Inr occ, db') \<Rightarrow> occ = \<lparr>OccupationID = i, ResourceID = r, OccupationEnd = e\<rparr> \<and>
         (\<exists>rows'. db' = set_occs rows' db \<and> claimed (occs db) (held_row i r s e now) rows')" for r s e now i
    using claimed_insert [of "resources db" i r s e now "occs db"]
    by (auto simp: claim_insert_def split: sum.splits)
  have same: "\<exists>rows'. db = set_occs rows' db \<and>
      (rows' = occs db \<or> e = OtherError \<and> (\<exists>n. claimed (occs db) n rows'))" for e :: pg_error
    by (rule exI [of _ "occs db"]) (simp add: set_get)
  show ?thesis
    unfolding claim_stmt_def wp_andthen wp_atomic
  proof (intro allI impI, simp, cases "pick db", goal_cases)
    case (1 c e)
    then show ?case using same by simp
  next
    case (2 c picked)
    show ?case
    proof (cases picked)
      case None
      then show ?thesis using 2 by (auto simp: set_get)
    next
      case (Some rse)
      obtain r s e where "rse = (r, s, e)" by (cases rse)
      with Some 2 have pk: "pick db = Inr (Some (r, s, e))" by simp
      show ?thesis
        unfolding pk sum.case option.case prod.case
      proof (rule wp_sqlI, goal_cases)
        case (1 c')
        show ?case
          using ins [where r = r and s = s and e = e and now = "db_now c" and i = "fresh_id c'"] same pk by (fastforce split: prod.splits sum.splits)
      next
        case (2 c')
        show ?case
          using ins [where r = r and s = s and e = e and now = "db_now c" and i = "fresh_id c'"] same by (fastforce split: prod.splits sum.splits)
      next
        case 3
        show ?case using same [of OtherError] by simp
      qed
    qed
  qed
qed

text \<open>The outcome on a reaped table is an outcome on the table before.\<close>

lemma claim_outcome_reaped:
  assumes "claim_outcome pick occs set_occs (set_occs rows db) r db'" and "only_reaped (occs db) rows"
  shows "claim_outcome pick occs set_occs db r db'"
proof -
  from assms(1) [unfolded get_set set_set] obtain rows' where "db' = set_occs rows' db" and
    "case r of
        Inl e \<Rightarrow> failed_claim rows rows'
      | Inr occ \<Rightarrow> \<exists>mid s now. only_reaped rows mid \<and>
          pick (set_occs mid db) = Inr (Some (ResourceID occ, s, OccupationEnd occ)) \<and>
          claimed mid (held_row (OccupationID occ) (ResourceID occ) s (OccupationEnd occ) now) rows'"
    by blast
  then show ?thesis
    using assms(2) by (cases r) (auto intro: failed_claim_trans only_reaped_trans)
qed

text \<open>What a missed attempt does next: reap, and try again.\<close>

lemma wp_claim_retry:
  assumes reap: "wp reap1 C (\<lambda>r db'. \<exists>rows'. db' = set_occs rows' db \<and> only_reaped (occs db) rows') db"
    and again: "\<And>db. wp loop C (claim_outcome pick occs set_occs db) db"
  shows "wp (andthen reap1 (\<lambda>d. case d of Inl derr \<Rightarrow> Ret (Inl NoFreeResource) | Inr m \<Rightarrow> loop)) C
    (claim_outcome pick occs set_occs db) db"
  unfolding wp_andthen
proof (rule wp_mono [OF reap], elim exE conjE)
  fix d db2 rows2
  assume db2: "db2 = set_occs rows2 db" and re: "only_reaped (occs db) rows2"
  show "wp (case d of Inl derr \<Rightarrow> Ret (Inl NoFreeResource) | Inr m \<Rightarrow> loop) C (claim_outcome pick occs set_occs db) db2"
  proof (cases d)
    case (Inl derr)
    then show ?thesis using db2 re by (auto simp: failed_claim_reaped)
  next
    case (Inr m)
    show ?thesis
      unfolding Inr sum.case db2
      by (rule wp_mono [OF again]) (rule claim_outcome_reaped [OF _ re])
  qed
qed

text \<open>The whole loop: what it returns and what it leaves, whatever fails on the way.\<close>

lemma wp_claim_loop:
  assumes "\<And>db. wp reap1 C (\<lambda>r db'. \<exists>rows'. db' = set_occs rows' db \<and> only_reaped (occs db) rows') db"
  shows "wp (claim_loop n (claim_stmt pick resources occs set_occs) reap1) C (claim_outcome pick occs set_occs db) db"
proof (induction n arbitrary: db)
  case 0
  show ?case by (auto simp: set_get failed_claim_reaped intro!: exI [of _ "occs db"])
next
  case (Suc n)
  show ?case
    unfolding claim_loop.simps wp_andthen
  proof (rule wp_mono [OF wp_claim_stmt], elim exE conjE)
    fix r :: "pg_error + Occupation" and db1 rows1
    assume db1: "db1 = set_occs rows1 db" and c: "case r of
          Inl e \<Rightarrow> rows1 = occs db \<or> e = OtherError \<and> (\<exists>n. claimed (occs db) n rows1)
        | Inr occ \<Rightarrow> \<exists>n s now. claimed (occs db) n rows1 \<and>
            pick db = Inr (Some (ResourceID occ, s, OccupationEnd occ)) \<and>
            n = held_row (OccupationID occ) (ResourceID occ) s (OccupationEnd occ) now"
    show "wp (case r of Inl err \<Rightarrow>
              if err = ErrNoRows \<or> err = PgError exclusion_violation
              then andthen reap1 (\<lambda>d. case d of Inl derr \<Rightarrow> Ret (Inl NoFreeResource)
                     | Inr m \<Rightarrow> claim_loop n (claim_stmt pick resources occs set_occs) reap1)
              else Ret (Inl (ClaimFailed err))
            | Inr occ \<Rightarrow> Ret (Inr occ)) C (claim_outcome pick occs set_occs db) db1"
    proof (cases r)
      case (Inr occ)
      then obtain s now where "claimed (occs db)
            (held_row (OccupationID occ) (ResourceID occ) s (OccupationEnd occ) now) rows1"
          and "pick (set_occs (occs db) db) = Inr (Some (ResourceID occ, s, OccupationEnd occ))"
        using c by (auto simp: set_get)
      then show ?thesis
        using Inr db1 only_reaped_refl by (simp, intro exI [of _ rows1]) blast
    next
      case (Inl err)
      show ?thesis
      proof (cases "err = ErrNoRows \<or> err = PgError exclusion_violation")
        case True
        with c Inl db1 have db1: "db1 = db" by (auto simp: set_get)
        show ?thesis
          unfolding Inl sum.case if_P [OF True] db1 by (rule wp_claim_retry [OF assms Suc.IH])
      next
        case False
        then show ?thesis
          using c Inl db1 by (auto simp: failed_claim_reaped intro: failed_claim_claimed)
      qed
    qed
  qed
qed

text \<open>Uninterrupted claims, answered by the database.\<close>

lemma run_claim_miss:
  "pick db = Inr None \<Longrightarrow>
   run (andthen (claim_stmt pick resources occs set_occs) h) cs db =
     run (h (Inl ErrNoRows)) (\<lambda>n. cs (Suc n)) db"
  by (simp add: claim_stmt_def andthen_assoc)

lemma run_claim_hit:
  assumes "pick db = Inr (Some (r, s, e))" and "faults (cs 1) ClaimSQL = Deliver"
    and "s < e" and "r \<in> set (resources db)" and "free (occs db) r s e"
    and "fresh_id (cs 1) \<notin> occ_id ` set (occs db)"
  shows "run (andthen (claim_stmt pick resources occs set_occs) h) cs db =
     run (h (Inr \<lparr>OccupationID = fresh_id (cs 1), ResourceID = r, OccupationEnd = e\<rparr>))
       (\<lambda>n. cs (Suc (Suc n)))
       (set_occs (occs db @ [held_row (fresh_id (cs 1)) r s e (db_now (cs 0))]) db)"
proof -
  let ?n = "held_row (fresh_id (cs 1)) r s e (db_now (cs 0))"
  have "insert_occ (resources db) ?n (occs db) = Inr (occs db @ [?n])"
    unfolding insert_occ_Inr_iff
    using assms free_no_conflict [of "occs db" ?n] by simp
  with assms(1,2) show ?thesis
    by (simp add: claim_stmt_def andthen_assoc sql_def claim_insert_def)
qed

lemma run_reap:
  "faults (cs 0) ReapSQL = Deliver \<Longrightarrow>
   run (andthen (zoom reap_stmt occs set_occs) h) cs db =
     run (h (Inr (rows_affected (expired (db_now (cs 0))) (occs db)))) (\<lambda>n. cs (Suc n))
       (set_occs (reap (db_now (cs 0)) (occs db)) db)"
  by (simp add: reap_stmt_def sql_def atomic_def)

text \<open>A claim that finds nothing reaps, and the next attempt sees the reaped table.\<close>

lemma run_loop_miss:
  assumes "pick db = Inr None" and "faults (cs 1) ReapSQL = Deliver"
  shows "run (andthen (claim_loop (Suc n) (claim_stmt pick resources occs set_occs) (zoom reap_stmt occs set_occs)) h) cs db
    = run (andthen (claim_loop n (claim_stmt pick resources occs set_occs) (zoom reap_stmt occs set_occs)) h)
        (\<lambda>n. cs (Suc (Suc n))) (set_occs (reap (db_now (cs 1)) (occs db)) db)"
  unfolding claim_loop.simps andthen_assoc
  by (subst run_claim_miss [of pick, OF assms(1)]) (simp add: andthen_assoc run_reap assms(2) [unfolded One_nat_def])

text \<open>A query that finds a resource the claim can be inserted for ends the loop there.\<close>

lemma run_loop_hit:
  assumes "finds pick resources occs db" and "faults (cs 1) ClaimSQL = Deliver"
    and "fresh_id (cs 1) \<notin> occ_id ` set (occs db)"
  shows "\<exists>occ cs' db'. run (andthen (claim_loop (Suc n) (claim_stmt pick resources occs set_occs) rp) h) cs db = run (h (Inr occ)) cs' db'"
proof -
  from assms(1) obtain r s e where "pick db = Inr (Some (r, s, e))" "s < e" "r \<in> set (resources db)" "free (occs db) r s e"
    unfolding finds_def by blast
  then show ?thesis
    unfolding claim_loop.simps andthen_assoc
    by (subst run_claim_hit [where pick = pick and cs = cs, OF _ assms(2)]) (use assms(3) in auto)
qed

text \<open>
  A query that finds nothing but would once the expired holds are gone is answered by the second
  attempt.
\<close>

lemma run_loop_free:
  assumes "pick db = Inr None \<or> finds pick resources occs db"
    and "finds pick resources occs (set_occs (reap (db_now (cs 1)) (occs db)) db)"
    and "\<forall>n. faults (cs n) = (\<lambda>_. Deliver)" and "\<forall>n. fresh_id (cs n) \<notin> occ_id ` set (occs db)"
  shows "\<exists>occ cs' db'. run (andthen (claim_loop (Suc (Suc n)) (claim_stmt pick resources occs set_occs) (zoom reap_stmt occs set_occs)) h) cs db
    = run (h (Inr occ)) cs' db'"
proof (cases "finds pick resources occs db")
  case True
  then show ?thesis by (rule run_loop_hit) (simp_all add: assms(3,4))
next
  case False
  with assms(1) have "pick db = Inr None" by simp
  then show ?thesis
    by (subst run_loop_miss [where pick = pick and cs = cs], assumption, simp add: assms(3),
      intro run_loop_hit [OF assms(2)]) (use assms(3,4) in \<open>auto simp: get_set reap_def\<close>)
qed

end

section \<open>Claims under delivered statements\<close>

lemma wp_True [simp]: "wp p C (\<lambda>_ _. True) w"
  by (induction p arbitrary: w rule: prog_induct) (auto simp: split_beta)

context occ_store
begin

text \<open>The identifier of a claim is one the database drew.\<close>

lemma wp_claim_stmt_fresh:
  "wp (claim_stmt pick resources occs set_occs) C
      (\<lambda>r db'. \<forall>occ. r = Inr occ \<longrightarrow> (\<exists>c. C c \<and> OccupationID occ = fresh_id c)) db"
  unfolding claim_stmt_def wp_andthen
  by (auto simp: wp_sql claim_insert_def split: sum.splits option.splits fault.splits)

lemma wp_claim_loop_fresh:
  "wp (claim_loop n (claim_stmt pick resources occs set_occs) reap1) C
      (\<lambda>r db'. \<forall>occ. r = Inr occ \<longrightarrow> (\<exists>c. C c \<and> OccupationID occ = fresh_id c)) db"
proof (induction n arbitrary: db)
  case 0
  show ?case by simp
next
  case (Suc n)
  show ?case
    unfolding claim_loop.simps wp_andthen
  proof (rule wp_mono [OF wp_claim_stmt_fresh], goal_cases)
    case (1 r db')
    show ?case
    proof (cases r)
      case (Inl err)
      have "wp reap1 C (\<lambda>d. wp (case d of Inl derr \<Rightarrow> Ret (Inl NoFreeResource)
          | Inr m \<Rightarrow> claim_loop n (claim_stmt pick resources occs set_occs) reap1) C
          (\<lambda>r db'. \<forall>occ. r = Inr occ \<longrightarrow> (\<exists>c. C c \<and> OccupationID occ = fresh_id c))) db'"
        by (rule wp_mono [OF wp_True]) (auto split: sum.split simp: Suc.IH)
      then show ?thesis by (simp add: Inl)
    next
      case (Inr occ)
      then show ?thesis using 1 by simp
    qed
  qed
qed

text \<open>When the claim's reply cannot be lost, a failed claim has left nothing behind.\<close>

lemma wp_claim_stmt_clean:
  assumes "\<And>c. C c \<Longrightarrow> faults c ClaimSQL \<noteq> LoseReply"
  shows "wp (claim_stmt pick resources occs set_occs) C (\<lambda>r db'. \<forall>e. r = Inl e \<longrightarrow> db' = db) db"
  unfolding claim_stmt_def wp_andthen using assms
  by (auto simp: wp_sql claim_insert_def split: sum.splits option.splits fault.splits)

lemma wp_claim_loop_clean:
  assumes "\<And>c. C c \<Longrightarrow> faults c ClaimSQL \<noteq> LoseReply"
  shows "wp (claim_loop n (claim_stmt pick resources occs set_occs) (zoom reap_stmt occs set_occs)) C
      (\<lambda>r db'. \<forall>e. r = Inl e \<longrightarrow> only_reaped (occs db) (occs db')) db"
proof (induction n arbitrary: db)
  case 0
  show ?case by simp
next
  case (Suc n)
  show ?case
    unfolding claim_loop.simps wp_andthen
  proof (rule wp_mono [OF wp_claim_stmt_clean [OF assms]], assumption, goal_cases)
    case (1 r db1)
    show ?case
    proof (cases r)
      case (Inl err)
      with 1 have db1: "db1 = db" by simp
      have "wp (zoom reap_stmt occs set_occs) C (\<lambda>d. wp (case d of Inl derr \<Rightarrow> Ret (Inl NoFreeResource)
          | Inr m \<Rightarrow> claim_loop n (claim_stmt pick resources occs set_occs) (zoom reap_stmt occs set_occs)) C
          (\<lambda>r db'. \<forall>e. r = Inl e \<longrightarrow> only_reaped (occs db) (occs db'))) db"
      proof (rule wp_mono [OF reap_law], elim exE conjE, goal_cases)
        case (1 d db2 rows2)
        show ?case
        proof (cases d)
          case (Inl derr)
          then show ?thesis using 1 by (simp add: get_set)
        next
          case (Inr m)
          show ?thesis
            unfolding Inr sum.case
            by (rule wp_mono [OF Suc.IH [of db2]]) (use 1 in \<open>auto simp: get_set intro: only_reaped_trans\<close>)
        qed
      qed
      then show ?thesis by (simp add: Inl db1)
    qed simp
  qed
qed

end

text \<open>Every live row is an old one or belongs to occupation \<open>i\<close>: what compensating \<open>i\<close> undoes.\<close>

definition only_new :: "occ_row list \<Rightarrow> string \<Rightarrow> occ_row list \<Rightarrow> bool" where
  "only_new rows i rows' \<longleftrightarrow> (\<forall>o1 \<in> set rows'. occ_live o1 \<longrightarrow> occ_id o1 = i \<or> o1 \<in> set rows)"

context allocator
begin

lemma Confirm_keeps_new:
  assumes "only_new rows i (occs db)" and "uuid_in ext i = Some i"
  shows "wp (Confirm i) C (\<lambda>r db'. \<exists>rows'. db' = set_occs rows' db \<and> only_new rows i rows') db"
proof (rule wp_mono [OF Confirm_law], elim exE conjE, goal_cases)
  case (1 r db' rows')
  have "only_new rows i (confirm_occ now i (occs db))" for now
    using assms(1) by (force simp: only_new_def confirm_occ_def dest: confirmable_live
        elim!: in_update_whereE split: if_splits)
  with 1 assms show ?case by (auto simp: confirm_post_def split: sum.splits)
qed

lemma Release_keeps_new:
  assumes "only_new rows j (occs db)"
  shows "wp (Release i) C (\<lambda>r db'. \<exists>rows'. db' = set_occs rows' db \<and> only_new rows j rows') db"
proof (rule wp_mono [OF Release_law], elim exE conjE, goal_cases)
  case (1 r db' rows')
  have "only_new rows j (release_occ u (occs db))" for u
    using assms(1) by (auto simp: only_new_def release_occ_def occ_live_def elim!: in_update_whereE split: if_splits)
  with 1 assms show ?case by (auto simp: release_post_def split: sum.splits)
qed

lemma Release_undoes:
  assumes "\<And>c. C c \<Longrightarrow> faults c ReleaseSQL = Deliver" and "i \<noteq> ''''" and "uuid_in ext i = Some i"
    and "only_new rows i (occs db)"
  shows "wp (Release i) C (\<lambda>r db'. \<exists>rows'. r = Inr () \<and> db' = set_occs rows' db \<and>
     (\<forall>o1 \<in> set rows'. occ_live o1 \<longrightarrow> o1 \<in> set rows)) db"
proof (rule wp_mono [OF Release_delivered [OF assms(1-3)]], assumption, goal_cases)
  case (1 r db')
  have "o1 \<in> set rows" if "o1 \<in> set (release_occ i (occs db))" "occ_live o1" for o1
    using that assms(4) unfolding release_occ_def
    by (auto simp: occ_live_def only_new_def elim!: in_update_whereE split: if_splits)
  with 1 show ?case by blast
qed

end

text \<open>
  An allocator that also reserves: a Reserve claims one fresh row or, its statement's reply not
  being lost, leaves nothing new.
\<close>

locale reserving = allocator occs set_occs ext Confirm Release
  for occs :: "'db \<Rightarrow> occ_row list" and set_occs :: "occ_row list \<Rightarrow> 'db \<Rightarrow> 'db" and ext :: pg_ext
    and Confirm :: "string \<Rightarrow> ('db, grpc_error + unit) prog"
    and Release :: "string \<Rightarrow> ('db, grpc_error + unit) prog" +
  fixes Reserve :: "'req \<Rightarrow> ('db, grpc_error + 'resp) prog"
    and resp_id :: "'resp \<Rightarrow> string"
  assumes Reserve_law:
      "wp (Reserve req) C (\<lambda>r db'. \<exists>rows'. db' = set_occs rows' db \<and>
         (case r of
            Inl e \<Rightarrow> failed_claim (occs db) rows'
          | Inr resp \<Rightarrow> \<exists>mid n. only_reaped (occs db) mid \<and> claimed mid n rows' \<and> occ_id n = resp_id resp)) db"
    and Reserve_fresh:
      "wp (Reserve req) C (\<lambda>r db'. \<forall>resp. r = Inr resp \<longrightarrow> (\<exists>c. C c \<and> resp_id resp = fresh_id c)) db"
    and Reserve_clean:
      "(\<And>c. C c \<Longrightarrow> faults c ClaimSQL \<noteq> LoseReply) \<Longrightarrow>
       wp (Reserve req) C (\<lambda>r db'. \<forall>e. r = Inl e \<longrightarrow> only_reaped (occs db) (occs db')) db"
begin

lemma Reserve_sound:
  assumes "\<And>c. C c \<Longrightarrow> faults c ClaimSQL \<noteq> LoseReply"
    and "\<And>c. C c \<Longrightarrow> fresh_id c \<noteq> '''' \<and> uuid_in ext (fresh_id c) = Some (fresh_id c)"
  shows "wp (Reserve req) C (\<lambda>r db'. \<exists>rows'. db' = set_occs rows' db \<and>
     (case r of
        Inl e \<Rightarrow> set rows' \<subseteq> set (occs db)
      | Inr resp \<Rightarrow> only_new (occs db) (resp_id resp) rows' \<and>
          resp_id resp \<noteq> '''' \<and> uuid_in ext (resp_id resp) = Some (resp_id resp))) db"
proof (rule wp_mono [OF wp_conj [OF Reserve_law wp_conj [OF Reserve_fresh Reserve_clean [OF assms(1)]]]],
    assumption, elim exE conjE, goal_cases)
  case (1 r db' rows')
  then show ?case using assms(2)
    by (cases r) (force simp: get_set only_new_def claimed_def only_reaped_def)+
qed

end

section \<open>Concrete inputs for examples\<close>

text \<open>
  A server that accepts every identifier and has every zone at UTC, a choice where nothing
  fails, and Monday 7 September 2026 (civil day 20703).
\<close>

definition demo_ext :: pg_ext where
  "demo_ext = \<lparr>hashtext = (\<lambda>x. int (length x)), uuid_in = Some, pg_zone = (\<lambda>x. Some utc)\<rparr>"

definition demo_choice :: "instant \<Rightarrow> string \<Rightarrow> choice" where
  "demo_choice now i = \<lparr>faults = (\<lambda>_. Deliver), db_now = now, go_now = now, fresh_id = i,
     entropy = (\<lambda>_. 0), locked = [], catalog_reply = (\<lambda>_. None)\<rparr>"

definition monday :: instant where
  "monday = 20703 * day"

definition demo_cs :: "nat \<Rightarrow> choice" where
  "demo_cs n = demo_choice (monday + int n) ''O''"

end
