(* ===== verification/Technician.thy ===== *)
theory Technician
  imports Allocator
begin

text \<open>
  The Technician allocator (\<open>services/technician/reserve.go\<close>): its database, the claiming
  \<open>SELECT\<close> with its predicates (skill, ceiling, shift, absence, occupation), the RPC handlers
  Reserve, Confirm and Release, and the server as a set of concurrent requests.  The header of
  the root theory says what the lemmas show.
\<close>

section \<open>The technician database\<close>

record technician =
  te_id :: string
  te_dealership_id :: string
  te_active :: bool
  te_timezone :: string

record technician_skill =
  sk_technician_id :: string
  sk_service_type_id :: string
  sk_duration_minutes :: int

record technician_shift =
  sh_technician_id :: string
  sh_weekday :: int
  sh_start_minutes :: int
  sh_end_minutes :: int

record technician_absence =
  ab_technician_id :: string
  ab_start_at :: instant
  ab_end_at :: instant

record tech_db =
  technicians :: "technician list"
  skills :: "technician_skill list"
  shifts :: "technician_shift list"
  absences :: "technician_absence list"
  tech_occs :: "occ_row list"

definition set_tech_occs :: "occ_row list \<Rightarrow> tech_db \<Rightarrow> tech_db" where
  "set_tech_occs rows db = db\<lparr>tech_occs := rows\<rparr>"

section \<open>Messages\<close>

record TechReserveRequest =
  trq_dealership_id :: string
  trq_service_type_id :: string
  trq_start :: "instant option"
  trq_latest_end :: "instant option"
  trq_request_id :: string

record TechReserveResponse =
  trs_occupation_id :: string
  trs_technician_id :: string
  trs_end :: "instant option"

record tech_reserveParams =
  tp_dealershipID :: string
  tp_serviceTypeID :: string
  tp_start :: instant
  tp_latestEnd :: instant
  tp_requestID :: string

section \<open>The claiming SELECT\<close>

text \<open>\<open>FROM technician t JOIN technician_skill sk \<dots> WHERE t.dealership_id = $1 AND t.active\<close>.\<close>

definition qualified_techs :: "tech_db \<Rightarrow> string \<Rightarrow> string \<Rightarrow> (technician \<times> technician_skill) list" where
  "qualified_techs db dealer service =
     [(t, sk). t \<leftarrow> technicians db, sk \<leftarrow> skills db,
        sk_technician_id sk = te_id t \<and> sk_service_type_id sk = service \<and>
        te_dealership_id t = dealer \<and> te_active t]"

text \<open>
  \<open>EXISTS (SELECT 1 FROM technician_shift \<dots>)\<close>: the weekday of the start, and the minute of the
  day of the start and of the end, all on the technician's wall clock.
\<close>

definition shift_covers :: "zone \<Rightarrow> technician_shift list \<Rightarrow> string \<Rightarrow> instant \<Rightarrow> instant \<Rightarrow> bool" where
  "shift_covers z rows t s e = (\<exists>sh \<in> set rows. sh_technician_id sh = t \<and>
     sh_weekday sh = pg_isodow (local_time z s) \<and>
     sh_start_minutes sh \<le> pg_hour (local_time z s) * 60 + pg_minute (local_time z s) \<and>
     pg_hour (local_time z e) * 60 + pg_minute (local_time z e) \<le> sh_end_minutes sh)"

definition absent :: "technician_absence list \<Rightarrow> string \<Rightarrow> instant \<Rightarrow> instant \<Rightarrow> bool" where
  "absent rows t s e = (\<exists>a \<in> set rows. ab_technician_id a = t \<and>
     range_overlap (ab_start_at a) (ab_end_at a) s e)"

text \<open>The remaining \<open>WHERE\<close> conjuncts for one joined row.\<close>

definition fits :: "tech_db \<Rightarrow> zone \<Rightarrow> technician \<Rightarrow> instant \<Rightarrow> instant \<Rightarrow> instant \<Rightarrow> bool" where
  "fits db z t s e latest \<longleftrightarrow> e \<le> latest \<and>
     shift_covers z (shifts db) (te_id t) s e \<and>
     \<not> absent (absences db) (te_id t) s e \<and>
     free (tech_occs db) (te_id t) s e"

definition skill_end :: "instant \<Rightarrow> technician_skill \<Rightarrow> instant" where
  "skill_end s sk = s + pg_minutes (sk_duration_minutes sk)"

text \<open>
  The candidates of the claim; \<open>AT TIME ZONE\<close> of an unknown zone name is an error of the whole
  statement.  Malformed \<open>uuid\<close> parameters fail before any row is read.
\<close>

definition tech_candidates ::
  "pg_ext \<Rightarrow> tech_reserveParams \<Rightarrow> tech_db \<Rightarrow> string \<Rightarrow> string \<Rightarrow> (technician \<times> technician_skill) list" where
  "tech_candidates ext p db dealer service =
     filter (\<lambda>(t, sk). case pg_zone ext (te_timezone t) of
         None \<Rightarrow> False
       | Some z \<Rightarrow> fits db z t (tp_start p) (skill_end (tp_start p) sk) (tp_latestEnd p))
       (qualified_techs db dealer service)"

definition tech_pick ::
  "pg_ext \<Rightarrow> tech_reserveParams \<Rightarrow> tech_db \<Rightarrow> pg_error + (string \<times> instant \<times> instant) option" where
  "tech_pick ext p db =
     (case (uuid_in ext (tp_dealershipID p), uuid_in ext (tp_serviceTypeID p)) of
        (Some dealer, Some service) \<Rightarrow>
          if \<exists>(t, sk) \<in> set (qualified_techs db dealer service). pg_zone ext (te_timezone t) = None
          then Inl (PgError ''22023'')
          else Inr (map_option (\<lambda>(t, sk). (te_id t, tp_start p, skill_end (tp_start p) sk))
                 (first_least (\<lambda>(t, sk). hashtext ext (te_id t @ tp_requestID p))
                    (tech_candidates ext p db dealer service)))
      | _ \<Rightarrow> Inl OtherError)"

definition tech_claim :: "pg_ext \<Rightarrow> tech_reserveParams \<Rightarrow> (tech_db, pg_error + Occupation) prog" where
  "tech_claim ext p =
     claim_stmt (tech_pick ext p) (\<lambda>db. map te_id (technicians db)) tech_occs set_tech_occs"

definition tech_reserve :: "pg_ext \<Rightarrow> tech_reserveParams \<Rightarrow> (tech_db, reserve_error + Occupation) prog" where
  "tech_reserve ext p =
     claim_loop maxReserveAttempts (tech_claim ext p) (zoom reap_stmt tech_occs set_tech_occs)"

section \<open>The RPC handlers\<close>

text \<open>Every unavailable claim is \<open>FailedPrecondition\<close>, any other error \<open>Internal\<close>.\<close>

definition tech_reply :: "reserve_error + Occupation \<Rightarrow> grpc_error + TechReserveResponse" where
  "tech_reply r =
     (case r of
        Inl NoFreeResource \<Rightarrow> Inl (FailedPrecondition, ''no free qualified technician for the interval'')
      | Inl (ClaimFailed e) \<Rightarrow> Inl (Internal, ''reserve failed'')
      | Inr occ \<Rightarrow> Inr \<lparr>trs_occupation_id = OccupationID occ,
          trs_technician_id = ResourceID occ, trs_end = Some (OccupationEnd occ)\<rparr>)"

definition tech_Reserve ::
  "pg_ext \<Rightarrow> TechReserveRequest \<Rightarrow> (tech_db, grpc_error + TechReserveResponse) prog" where
  "tech_Reserve ext req =
     (case (trq_start req, trq_latest_end req) of
        (Some start, Some latest) \<Rightarrow>
          if trq_dealership_id req = '''' \<or> trq_service_type_id req = ''''
          then Ret (Inl (InvalidArgument, ''dealership_id, service_type_id, start, latest_end are required''))
          else andthen time_now (\<lambda>now.
            if \<not> now < start
            then Ret (Inl (InvalidArgument, ''start must be strictly in the future''))
            else andthen (tech_reserve ext \<lparr>tp_dealershipID = trq_dealership_id req,
                    tp_serviceTypeID = trq_service_type_id req, tp_start = start,
                    tp_latestEnd = latest, tp_requestID = trq_request_id req\<rparr>)
              (\<lambda>r. Ret (tech_reply r)))
      | _ \<Rightarrow> Ret (Inl (InvalidArgument, ''dealership_id, service_type_id, start, latest_end are required'')))"

definition tech_Confirm :: "pg_ext \<Rightarrow> string \<Rightarrow> (tech_db, grpc_error + unit) prog" where
  "tech_Confirm ext i =
     (if i = '''' then Ret (Inl (InvalidArgument, ''occupation_id is required''))
      else andthen (zoom (confirm_stmt ext i) tech_occs set_tech_occs) (\<lambda>tag.
        case tag of
          Inl e \<Rightarrow> Ret (Inl (Internal, ''confirm failed''))
        | Inr n \<Rightarrow>
            if n = 0 then Ret (Inl (FailedPrecondition, ''occupation not held or hold expired''))
            else Ret (Inr ())))"

definition tech_Release :: "pg_ext \<Rightarrow> string \<Rightarrow> (tech_db, grpc_error + unit) prog" where
  "tech_Release ext i =
     (if i = '''' then Ret (Inl (InvalidArgument, ''occupation_id is required''))
      else andthen (zoom (release_stmt ext i) tech_occs set_tech_occs) (\<lambda>tag.
        case tag of
          Inl e \<Rightarrow> Ret (Inl (Internal, ''release failed''))
        | Inr n \<Rightarrow> Ret (Inr ())))"

text \<open>The server: any number of requests and reaper ticks in flight at once.\<close>

datatype tech_request =
    TechReserve TechReserveRequest
  | TechConfirm string
  | TechRelease string
  | TechReap

fun tech_serve :: "pg_ext \<Rightarrow> tech_request \<Rightarrow> (tech_db, unit) prog" where
  "tech_serve ext (TechReserve req) = andthen (tech_Reserve ext req) (\<lambda>_. Ret ())"
| "tech_serve ext (TechConfirm i) = andthen (tech_Confirm ext i) (\<lambda>_. Ret ())"
| "tech_serve ext (TechRelease i) = andthen (tech_Release ext i) (\<lambda>_. Ret ())"
| "tech_serve ext TechReap = zoom reaper_tick tech_occs set_tech_occs"

section \<open>Selection\<close>

text \<open>What a successful pick guarantees about the technician and the interval.\<close>

lemma tech_pick_Some:
  assumes "tech_pick ext p db = Inr (Some (r, s, e))"
  shows "s = tp_start p \<and> (\<exists>t sk z dealer service.
     t \<in> set (technicians db) \<and> sk \<in> set (skills db) \<and> te_id t = r \<and> te_active t \<and>
     uuid_in ext (tp_dealershipID p) = Some dealer \<and> te_dealership_id t = dealer \<and>
     uuid_in ext (tp_serviceTypeID p) = Some service \<and>
     sk_technician_id sk = r \<and> sk_service_type_id sk = service \<and>
     e = skill_end s sk \<and> pg_zone ext (te_timezone t) = Some z \<and> fits db z t s e (tp_latestEnd p))"
proof -
  from assms obtain dealer service t sk where
    u: "uuid_in ext (tp_dealershipID p) = Some dealer" "uuid_in ext (tp_serviceTypeID p) = Some service"
    and fl: "first_least (\<lambda>(t, sk). hashtext ext (te_id t @ tp_requestID p))
        (tech_candidates ext p db dealer service) = Some (t, sk)"
    and eqs: "r = te_id t" "s = tp_start p" "e = skill_end (tp_start p) sk"
    by (auto simp: tech_pick_def split: option.splits if_splits)
  from first_least_in [OF fl] obtain z where z: "pg_zone ext (te_timezone t) = Some z"
      "fits db z t s e (tp_latestEnd p)"
    and q: "(t, sk) \<in> set (qualified_techs db dealer service)"
    by (auto simp: tech_candidates_def eqs split: option.splits)
  show ?thesis
    using u z q eqs by (intro conjI exI [of _ t] exI [of _ sk] exI [of _ z]) (auto simp: qualified_techs_def)
qed

lemma tech_pick_known_zones:
  assumes "uuid_in ext (tp_dealershipID p) = Some dealer" "uuid_in ext (tp_serviceTypeID p) = Some service"
    and "\<forall>(t, sk) \<in> set (qualified_techs db dealer service). pg_zone ext (te_timezone t) \<noteq> None"
  shows "tech_pick ext p db =
    Inr (map_option (\<lambda>(t, sk). (te_id t, tp_start p, skill_end (tp_start p) sk))
           (first_least (\<lambda>(t, sk). hashtext ext (te_id t @ tp_requestID p))
              (tech_candidates ext p db dealer service)))"
  using assms by (fastforce simp: tech_pick_def)

section \<open>The allocator meets its contract\<close>

interpretation tech_store: occ_store tech_occs set_tech_occs
  by unfold_locales (simp_all add: set_tech_occs_def)

lemma tech_Confirm_law:
  "wp (tech_Confirm ext i) C (\<lambda>r db'. \<exists>rows'. db' = set_tech_occs rows' db \<and>
     confirm_post ext i (tech_occs db) r rows') db"
  unfolding tech_Confirm_def by (simp add: tech_store.Confirm_body_law tech_store.no_row_post del: wp_andthen)

lemma tech_Release_law:
  "wp (tech_Release ext i) C (\<lambda>r db'. \<exists>rows'. db' = set_tech_occs rows' db \<and>
     release_post ext i (tech_occs db) r rows') db"
  unfolding tech_Release_def by (simp add: tech_store.Release_body_law tech_store.no_row_post del: wp_andthen)

interpretation tech_alloc: allocator tech_occs set_tech_occs ext "tech_Confirm ext" "tech_Release ext" for ext
proof (unfold_locales, goal_cases)
  case (1 i C db)
  show ?case by (rule tech_Confirm_law)
next
  case (2 i C db)
  show ?case by (rule tech_Release_law)
next
  case (3 C i u db)
  then show ?case
    unfolding tech_Release_def by (simp add: tech_store.Release_body_delivered del: wp_andthen)
qed

section \<open>Concurrent requests\<close>

text \<open>A relation every statement on the table respects is respected by every handler.\<close>

lemma keeps_tech_handlers:
  assumes "\<And>p. keeps (tech_claim ext p) R" and reap: "keeps (zoom reap_stmt tech_occs set_tech_occs) R"
    and "\<And>i. keeps (zoom (confirm_stmt ext i) tech_occs set_tech_occs) R"
    and "\<And>i. keeps (zoom (release_stmt ext i) tech_occs set_tech_occs) R" and "\<And>w. R w w"
  shows "keeps (tech_Reserve ext req) R \<and> keeps (tech_Confirm ext i) R \<and> keeps (tech_Release ext i) R \<and>
    keeps (tech_serve ext q) R"
proof -
  have r: "keeps (tech_Reserve ext req) R" for req
    unfolding tech_Reserve_def tech_reserve_def
    by (auto split: option.splits intro!: keeps_andthen keeps_time_now keeps_claim_loop assms)
  have c: "keeps (tech_Confirm ext i) R" and l: "keeps (tech_Release ext i) R" for i
    unfolding tech_Confirm_def tech_Release_def by (auto split: sum.splits intro!: keeps_andthen assms)
  have "keeps (tech_serve ext q) R"
    by (cases q) (auto intro!: keeps_andthen r c l tech_store.keeps_reaper reap)
  with r c l show ?thesis by blast
qed

lemma keeps_tech_no_overlap:
  "keeps (tech_Reserve ext req) (stable (\<lambda>db. no_overlap (tech_occs db))) \<and>
   keeps (tech_Confirm ext i) (stable (\<lambda>db. no_overlap (tech_occs db))) \<and>
   keeps (tech_Release ext i) (stable (\<lambda>db. no_overlap (tech_occs db))) \<and>
   keeps (tech_serve ext q) (stable (\<lambda>db. no_overlap (tech_occs db)))"
  by (rule keeps_tech_handlers, unfold tech_claim_def,
      auto intro: tech_store.keeps_claim_stmt tech_store.keeps_on_occs preserve simp: stable_def)

lemma keeps_tech_evolves:
  "keeps (tech_Reserve ext req) (\<lambda>db db'. occ_evolves (tech_occs db) (tech_occs db')) \<and>
   keeps (tech_Confirm ext i) (\<lambda>db db'. occ_evolves (tech_occs db) (tech_occs db')) \<and>
   keeps (tech_Release ext i) (\<lambda>db db'. occ_evolves (tech_occs db) (tech_occs db')) \<and>
   keeps (tech_serve ext q) (\<lambda>db db'. occ_evolves (tech_occs db) (tech_occs db'))"
  by (rule keeps_tech_handlers, unfold tech_claim_def,
      auto intro: tech_store.keeps_evolves_claim tech_store.keeps_evolves_stmts evolving.refl)

text \<open>
  C1: However many Reserve, Confirm, Release requests and reaper ticks are in flight on the
  Technician database, under every interleaving of their statements and every fault, no
  technician ever holds two live occupations whose intervals overlap.
\<close>

theorem tech_never_double_booked:
  assumes "no_overlap (tech_occs db)"
  shows "no_overlap (tech_occs (snd (interleave sch (map (tech_serve ext) reqs, db))))"
  using inv.interleave_keeps [of "map (tech_serve ext) reqs" "\<lambda>db. no_overlap (tech_occs db)" db sch]
    assms keeps_tech_no_overlap by (auto simp: stable_def)


section \<open>One Reserve\<close>

lemma set_tech_occs_simps [simp]:
  "tech_occs (set_tech_occs rows db) = rows"
  "technicians (set_tech_occs rows db) = technicians db"
  "skills (set_tech_occs rows db) = skills db" "shifts (set_tech_occs rows db) = shifts db"
  "absences (set_tech_occs rows db) = absences db"
  "set_tech_occs rows (set_tech_occs rows2 db) = set_tech_occs rows db"
  by (simp_all add: set_tech_occs_def)

lemma qualified_set_occs [simp]:
  "qualified_techs (set_tech_occs rows db) dealer service = qualified_techs db dealer service"
  by (simp add: qualified_techs_def)

definition tech_params :: "TechReserveRequest \<Rightarrow> instant \<Rightarrow> instant \<Rightarrow> tech_reserveParams" where
  "tech_params req start latest = \<lparr>tp_dealershipID = trq_dealership_id req,
     tp_serviceTypeID = trq_service_type_id req, tp_start = start,
     tp_latestEnd = latest, tp_requestID = trq_request_id req\<rparr>"

lemma tech_params_simps [simp]:
  "tp_dealershipID (tech_params req s l) = trq_dealership_id req"
  "tp_serviceTypeID (tech_params req s l) = trq_service_type_id req"
  "tp_start (tech_params req s l) = s" "tp_latestEnd (tech_params req s l) = l"
  "tp_requestID (tech_params req s l) = trq_request_id req"
  by (simp_all add: tech_params_def)

lemma wp_tech_reserve:
  "wp (tech_reserve ext p) C (\<lambda>r db'. \<exists>rows'. db' = set_tech_occs rows' db \<and>
     (case r of
        Inl e \<Rightarrow> failed_claim (tech_occs db) rows'
      | Inr occ \<Rightarrow> \<exists>mid s now. only_reaped (tech_occs db) mid \<and>
          tech_pick ext p (set_tech_occs mid db) = Inr (Some (ResourceID occ, s, OccupationEnd occ)) \<and>
          claimed mid (held_row (OccupationID occ) (ResourceID occ) s (OccupationEnd occ) now) rows')) db"
  unfolding tech_reserve_def tech_claim_def
  by (rule tech_store.wp_claim_loop [OF tech_store.reap_law])

lemma wp_tech_Reserve:
  "wp (tech_Reserve ext req) C (\<lambda>r db'. \<exists>rows'. db' = set_tech_occs rows' db \<and>
     (case r of
        Inl e \<Rightarrow> failed_claim (tech_occs db) rows'
      | Inr resp \<Rightarrow> \<exists>start latest e mid now.
          trq_start req = Some start \<and> trq_latest_end req = Some latest \<and> trs_end resp = Some e \<and>
          only_reaped (tech_occs db) mid \<and>
          tech_pick ext (tech_params req start latest) (set_tech_occs mid db) =
            Inr (Some (trs_technician_id resp, start, e)) \<and>
          claimed mid (held_row (trs_occupation_id resp) (trs_technician_id resp) start e now) rows')) db"
proof -
  have fail: "\<exists>rows'. db = set_tech_occs rows' db \<and> failed_claim (tech_occs db) rows'"
    by (rule tech_store.no_row_post(3))
  show ?thesis
  proof (cases "trq_start req"; cases "trq_latest_end req")
    fix start latest
    assume t: "trq_start req = Some start" "trq_latest_end req = Some latest"
    show ?thesis
    proof (cases "trq_dealership_id req = '''' \<or> trq_service_type_id req = ''''")
      case True
      then show ?thesis unfolding tech_Reserve_def t using fail by simp
    next
      case False
      show ?thesis
        unfolding tech_Reserve_def t option.case prod.case if_not_P [OF False] wp_andthen time_now_def wp_atomic
          tech_params_def [symmetric]
      proof (intro allI impI, unfold fst_conv snd_conv, goal_cases)
        case (1 c)
        show ?case
        proof (cases "\<not> go_now c < start")
          case True
          then show ?thesis using fail by simp
        next
          case False
          show ?thesis
            unfolding if_not_P [OF False] wp_andthen
          proof (rule wp_mono [OF wp_tech_reserve], elim exE conjE, goal_cases)
            case (1 r db' rows')
            show ?case
            proof (cases r)
              case (Inl e)
              then show ?thesis using 1 by (cases e) (auto simp: tech_reply_def)
            next
              case (Inr occ)
              then obtain mid s now where m: "only_reaped (tech_occs db) mid"
                "tech_pick ext (tech_params req start latest) (set_tech_occs mid db) =
                   Inr (Some (ResourceID occ, s, OccupationEnd occ))"
                "claimed mid (held_row (OccupationID occ) (ResourceID occ) s (OccupationEnd occ) now) rows'"
                using 1(2) by auto
              from tech_pick_Some [OF m(2)] have "s = start" by simp
              with m 1(1) Inr t show ?thesis by (auto simp: tech_reply_def)
            qed
          qed
        qed
      qed
    qed
  qed (use fail in \<open>simp_all add: tech_Reserve_def\<close>)
qed

interpretation tech_reserving: reserving tech_occs set_tech_occs ext "tech_Confirm ext" "tech_Release ext"
  "tech_Reserve ext" trs_occupation_id for ext
proof (unfold_locales, goal_cases)
  case (1 req C db)
  show ?case
    by (rule wp_mono [OF wp_tech_Reserve]) (force split: sum.splits)
next
  case (2 req C db)
  have "wp (tech_reserve ext p) C (\<lambda>r db'. wp (Ret (tech_reply r)) C
      (\<lambda>r db'. \<forall>resp. r = Inr resp \<longrightarrow> (\<exists>c. C c \<and> trs_occupation_id resp = fresh_id c)) db') d" for p d
    unfolding tech_reserve_def tech_claim_def
    by (rule wp_mono [OF tech_store.wp_claim_loop_fresh])
      (auto simp: tech_reply_def split: sum.splits reserve_error.splits)
  then show ?case by (auto simp: tech_Reserve_def time_now_def tech_params_def split: option.splits)
next
  case (3 C req db)
  have "wp (tech_reserve ext p) C (\<lambda>r db'. wp (Ret (tech_reply r)) C
      (\<lambda>r db'. \<forall>e. r = Inl e \<longrightarrow> only_reaped (tech_occs db) (tech_occs db')) db') db" for p
    unfolding tech_reserve_def tech_claim_def
    by (rule wp_mono [OF tech_store.wp_claim_loop_clean [OF 3]])
      (auto simp: tech_reply_def split: sum.splits reserve_error.splits)
  then show ?case by (auto simp: tech_Reserve_def time_now_def tech_params_def split: option.splits)
qed


section \<open>An expired hold is no obstacle\<close>

lemma tech_pick_hit:
  assumes "uuid_in ext (tp_dealershipID p) = Some dealer" "uuid_in ext (tp_serviceTypeID p) = Some service"
    and "\<forall>(t, sk) \<in> set (qualified_techs db dealer service). pg_zone ext (te_timezone t) \<noteq> None"
    and "tech_candidates ext p db dealer service \<noteq> []"
  obtains r e where "tech_pick ext p db = Inr (Some (r, tp_start p, e))"
  using tech_pick_known_zones [OF assms(1-3)] assms(4)
  by (cases "first_least (\<lambda>(t, sk). hashtext ext (te_id t @ tp_requestID p))
        (tech_candidates ext p db dealer service)") (auto simp: first_least_None_iff)

lemma tech_pick_finds:
  assumes "uuid_in ext (tp_dealershipID p) = Some dealer" "uuid_in ext (tp_serviceTypeID p) = Some service"
    and "\<forall>(t, sk) \<in> set (qualified_techs db dealer service). pg_zone ext (te_timezone t) \<noteq> None"
    and "\<forall>sk \<in> set (skills db). 1 \<le> sk_duration_minutes sk"
  shows "if tech_candidates ext p db dealer service = [] then tech_pick ext p db = Inr None
    else finds (tech_pick ext p) (\<lambda>db. map te_id (technicians db)) tech_occs db"
proof (cases "tech_candidates ext p db dealer service = []")
  case True
  then show ?thesis using tech_pick_known_zones [OF assms(1-3)] by simp
next
  case False
  then obtain r e where pk: "tech_pick ext p db = Inr (Some (r, tp_start p, e))" by (rule tech_pick_hit [OF assms(1-3)])
  from tech_pick_Some [OF this] have "tp_start p < e" "r \<in> set (map te_id (technicians db))" "free (tech_occs db) r (tp_start p) e"
    using assms(4) by (auto simp: skill_end_def pg_minutes_def fits_def)
  with False pk show ?thesis by (auto simp: finds_def)
qed

text \<open>
  C27: When nothing fails, a Reserve for which some qualified technician fits once the expired
  holds are gone always succeeds: if the busy rows hide every candidate, the handler reaps and
  its second attempt claims one.
\<close>

theorem tech_Reserve_reclaims_expired:
  assumes "trq_start req = Some start" and "trq_latest_end req = Some latest"
    and "trq_dealership_id req \<noteq> ''''" and "trq_service_type_id req \<noteq> ''''"
    and "uuid_in ext (trq_dealership_id req) = Some dealer"
    and "uuid_in ext (trq_service_type_id req) = Some service"
    and "\<forall>(t, sk) \<in> set (qualified_techs db dealer service). pg_zone ext (te_timezone t) \<noteq> None"
    and "\<forall>sk \<in> set (skills db). 1 \<le> sk_duration_minutes sk"
    and "go_now (cs 0) < start"
    and "\<forall>n. faults (cs n) = (\<lambda>_. Deliver)"
    and "\<forall>n. fresh_id (cs n) \<notin> occ_id ` set (tech_occs db)"
    and "tech_candidates ext (tech_params req start latest)
           (set_tech_occs (reap (db_now (cs 2)) (tech_occs db)) db) dealer service \<noteq> []"
  shows "\<exists>resp. fst (run (tech_Reserve ext req) cs db) = Inr resp"
proof -
  let ?p = "tech_params req start latest"
  let ?db' = "set_tech_occs (reap (db_now (cs 2)) (tech_occs db)) db"
  let ?h = "\<lambda>r. Ret (tech_reply r) :: (tech_db, grpc_error + TechReserveResponse) prog"
  have handler: "run (tech_Reserve ext req) cs db =
      run (andthen (claim_loop (Suc (Suc 1)) (tech_claim ext ?p) (zoom reap_stmt tech_occs set_tech_occs)) ?h) (\<lambda>n. cs (Suc n)) db"
    using assms(1-4,9)
    by (simp add: tech_Reserve_def time_now_def tech_params_def tech_reserve_def numeral_3_eq_3 del: claim_loop.simps)
  have u: "uuid_in ext (tp_dealershipID ?p) = Some dealer" "uuid_in ext (tp_serviceTypeID ?p) = Some service"
    using assms(5,6) by simp_all
  have "\<exists>occ cs' db'. run (andthen (claim_loop (Suc (Suc 1)) (tech_claim ext ?p) (zoom reap_stmt tech_occs set_tech_occs)) ?h)
      (\<lambda>n. cs (Suc n)) db = run (?h (Inr occ)) cs' db'"
    unfolding tech_claim_def
    by (rule tech_store.run_loop_free)
      (use tech_pick_finds [OF u, of db] tech_pick_finds [OF u, of ?db'] assms(7,8,10-12)
        in \<open>auto simp: numeral_2_eq_2 split: if_splits\<close>)
  then show ?thesis unfolding handler by (auto simp: tech_reply_def simp del: claim_loop.simps)
qed

section \<open>Confirm and Release, answered\<close>

lemma run_tech_Confirm:
  assumes "i \<noteq> ''''" and "uuid_in ext i = Some u" and "faults (cs 0) ConfirmSQL = Deliver"
  shows "run (tech_Confirm ext i) cs db =
    (if \<exists>o1 \<in> set (tech_occs db). occ_id o1 = u \<and> confirmable (db_now (cs 0)) o1
     then (Inr (), set_tech_occs (confirm_occ (db_now (cs 0)) u (tech_occs db)) db)
     else (Inl (FailedPrecondition, ''occupation not held or hold expired''), db))"
proof -
  let ?P = "\<lambda>o1. occ_id o1 = u \<and> confirmable (db_now (cs 0)) o1"
  have "rows_affected ?P (tech_occs db) = 0 \<longleftrightarrow> \<not> (\<exists>o1 \<in> set (tech_occs db). ?P o1)"
    by (simp add: rows_affected_zero_iff)
  then show ?thesis
    using assms update_where_none [of ?P "tech_occs db" confirm_row]
    by (auto simp: tech_Confirm_def confirm_stmt_def sql_def atomic_def confirm_occ_def
        tech_store.set_get)
qed

text \<open>
  C28: Confirming the hold a Reserve returned: while its TTL (the expiry stored on the row) has not
  been reached the confirmation succeeds and the row is CONFIRMED for good, with no expiry;
  from that instant on it is refused and nothing changes, so an expired hold is never confirmed
  as a side effect.
\<close>

theorem tech_hold_confirmable_until_expiry:
  assumes "run (tech_Reserve ext req) cs db = (Inr resp, db1)"
    and "uuid_in ext (trs_occupation_id resp) = Some (trs_occupation_id resp)"
    and "trs_occupation_id resp \<noteq> ''''"
    and "faults (ds 0) ConfirmSQL = Deliver"
  shows "\<exists>held expiry. held \<in> set (tech_occs db1) \<and> occ_id held = trs_occupation_id resp \<and>
     occ_hold_expires_at held = Some expiry \<and>
     run (tech_Confirm ext (trs_occupation_id resp)) ds db1 =
       (if db_now (ds 0) < expiry
        then (Inr (), set_tech_occs (map (\<lambda>o1. if o1 = held then confirm_row held else o1) (tech_occs db1)) db1)
        else (Inl (FailedPrecondition, ''occupation not held or hold expired''), db1))"
proof -
  let ?i = "trs_occupation_id resp"
  from wp_run [OF wp_tech_Reserve [where C = "\<lambda>_. True" and ext = ext and req = req and db = db], of cs] assms(1)
  obtain mid s e now rows' where
    cl: "claimed mid (held_row ?i (trs_technician_id resp) s e now) rows'" and db1: "db1 = set_tech_occs rows' db"
    by auto
  let ?h = "held_row ?i (trs_technician_id resp) s e now"
  have rows: "tech_occs db1 = mid @ [?h]" and fresh: "?i \<notin> occ_id ` set mid"
    using cl db1 by (auto simp: claimed_def)
  have one: "occ_id o1 = ?i \<longleftrightarrow> o1 = ?h" if "o1 \<in> set (tech_occs db1)" for o1
    using that fresh by (auto simp: rows image_iff)
  have hin: "?h \<in> set (tech_occs db1)" by (simp add: rows)
  have upd: "confirm_occ t ?i (tech_occs db1) = map (\<lambda>o1. if o1 = ?h then confirm_row ?h else o1) (tech_occs db1)"
    if "confirmable t ?h" for t
    using one that by (auto simp: confirm_occ_def update_where_def)
  have ex: "(\<exists>o1 \<in> set (tech_occs db1). occ_id o1 = ?i \<and> confirmable t o1) \<longleftrightarrow> confirmable t ?h" for t
    using one hin by blast
  note run = run_tech_Confirm [where cs = ds and db = db1, OF assms(3,2,4), unfolded ex]
  have alive: "confirmable (db_now (ds 0)) ?h \<longleftrightarrow> db_now (ds 0) < now + 120 * microseconds_per_second"
    by (simp add: confirmable_def)
  show ?thesis
  proof (intro exI conjI)
    show "?h \<in> set (tech_occs db1)" by (rule hin)
    show "occ_id ?h = ?i" "occ_hold_expires_at ?h = Some (now + 120 * microseconds_per_second)"
      by (simp_all only: held_row_simps)
    show "run (tech_Confirm ext ?i) ds db1 = (if db_now (ds 0) < now + 120 * microseconds_per_second
        then (Inr (), set_tech_occs (map (\<lambda>o1. if o1 = ?h then confirm_row ?h else o1) (tech_occs db1)) db1)
        else (Inl (FailedPrecondition, ''occupation not held or hold expired''), db1))"
      unfolding run alive using upd [of "db_now (ds 0)", unfolded alive] by (cases "db_now (ds 0) < now + 120 * microseconds_per_second") (simp_all only: if_True if_False)
  qed
qed

text \<open>
  A repeated Confirm is a no-op success at any later time, the TTL long over or not: the
  second delivery of a request that was answered changes no row and is answered the same.
\<close>

theorem tech_Confirm_idempotent:
  assumes "distinct (map occ_id (tech_occs db))"
    and "run (tech_Confirm ext i) cs db = (Inr (), db1)"
    and "faults (ds 0) ConfirmSQL = Deliver"
  shows "run (tech_Confirm ext i) ds db1 = (Inr (), db1)"
proof -
  have ne: "i \<noteq> ''''" using assms(2) by (auto simp: tech_Confirm_def)
  from wp_run [OF tech_Confirm_law [where C = "\<lambda>_. True" and ext = ext and i = i and db = db], of cs] assms(2)
  obtain now u o1 where u: "uuid_in ext i = Some u" and rows: "tech_occs db1 = confirm_occ now u (tech_occs db)"
    and o1: "o1 \<in> set (tech_occs db)" "occ_id o1 = u" "confirmable now o1"
    by (auto simp: confirm_post_def)
  have same: "confirm_occ later u (tech_occs db1) = tech_occs db1"
    and hit: "rows_affected (\<lambda>s. occ_id s = u \<and> confirmable later s) (tech_occs db1) > 0" for later
    using confirming.repeat_same_row [OF assms(1) o1(1)] o1(2,3)
    unfolding rows confirm_occ_def by auto
  have ex: "\<exists>o1 \<in> set (tech_occs db1). occ_id o1 = u \<and> confirmable (db_now (ds 0)) o1"
    using hit [of "db_now (ds 0)"] rows_affected_zero_iff [of "\<lambda>s. occ_id s = u \<and> confirmable (db_now (ds 0)) s" "tech_occs db1"]
    by auto
  show ?thesis
    unfolding run_tech_Confirm [where cs = ds, OF ne u assms(3)] if_P [OF ex] same by (simp add: tech_store.set_get)
qed

section \<open>Shifts\<close>

text \<open>The predicate in the terms of one wall clock: a weekday and minutes of the day.\<close>

lemma shift_covers_minutes:
  "shift_covers z rows t s e \<longleftrightarrow> (\<exists>sh \<in> set rows. sh_technician_id sh = t \<and>
     sh_weekday sh = pg_isodow (local_time z s) \<and>
     sh_start_minutes sh \<le> minute_of_day (local_time z s) \<and>
     minute_of_day (local_time z e) \<le> sh_end_minutes sh)"
  by (simp add: shift_covers_def pg_hour_minute)

lemma minute_of_day_le: "m \<le> minute_of_day l \<longleftrightarrow> m * microseconds_per_minute \<le> l - civil_day l * day"
proof -
  have "l - l div day * day = l mod day" by (simp add: minus_div_mult_eq_mod)
  moreover have "m \<le> x div microseconds_per_minute \<longleftrightarrow> m * microseconds_per_minute \<le> x" for x
    using zdiv_mono1 [of "m * 60000000" x 60000000] minus_mod_eq_div_mult [of x 60000000]
      pos_mod_sign [of "60000000 :: int" x] by auto
  ultimately show ?thesis by (simp add: minute_of_day_def civil_day_def)
qed

lemma minute_of_day_less: "minute_of_day l \<le> m \<longleftrightarrow> l - civil_day l * day < (m + 1) * microseconds_per_minute"
proof -
  have "minute_of_day l \<le> m \<longleftrightarrow> \<not> m + 1 \<le> minute_of_day l" by linarith
  then show ?thesis by (simp add: minute_of_day_le not_le)
qed

text \<open>
  For an interval within one local day the shift predicate is exact to the minute: some shift
  row of that weekday starts at or before the local start, and the local end is before the
  minute after the shift's last (a shift until 17:00 admits an end up to 17:00:59).
\<close>

theorem shift_covers_same_day:
  assumes "civil_day (local_time z e) = civil_day (local_time z s)"
  shows "shift_covers z rows t s e \<longleftrightarrow> (\<exists>sh \<in> set rows. sh_technician_id sh = t \<and>
     sh_weekday sh = (if go_weekday (local_time z s) = 0 then 7 else go_weekday (local_time z s)) \<and>
     (let midnight = civil_day (local_time z s) * day in
        midnight + sh_start_minutes sh * microseconds_per_minute \<le> local_time z s \<and>
        local_time z e < midnight + (sh_end_minutes sh + 1) * microseconds_per_minute))"
  unfolding shift_covers_minutes minute_of_day_le minute_of_day_less isodow_go_weekday assms Let_def
  by (simp add: algebra_simps)

text \<open>
  C32: An interval that ends at local midnight is covered by every shift of the weekday begun by
  its start, whenever that shift ends: the minute of the day of the end wraps to 0, so the end of
  the shift is not checked and a technician off duty since 17:00 can be claimed until 24:00.
\<close>

theorem shift_ending_at_midnight_unchecked:
  assumes "local_time z e mod day = 0" and "\<forall>sh \<in> set rows. 0 < sh_end_minutes sh"
  shows "shift_covers z rows t s e \<longleftrightarrow> (\<exists>sh \<in> set rows. sh_technician_id sh = t \<and>
     sh_weekday sh = pg_isodow (local_time z s) \<and> sh_start_minutes sh \<le> minute_of_day (local_time z s))"
proof -
  have "minute_of_day (local_time z e) = 0" using assms(1) by (simp add: minute_of_day_def)
  then show ?thesis unfolding shift_covers_minutes using assms(2) by force
qed

section \<open>A concrete instance\<close>

text \<open>
  One technician of dealership \<open>D\<close>, skilled for service \<open>S\<close> in 30 minutes, on shift on Monday
  from 08:00 to 17:00 UTC; Monday 7 September 2026 is civil day 20703.
\<close>

definition demo_tech_db :: "occ_row list \<Rightarrow> tech_db" where
  "demo_tech_db rows = \<lparr>
     technicians = [\<lparr>te_id = ''T'', te_dealership_id = ''D'', te_active = True, te_timezone = ''UTC''\<rparr>],
     skills = [\<lparr>sk_technician_id = ''T'', sk_service_type_id = ''S'', sk_duration_minutes = 30\<rparr>],
     shifts = [\<lparr>sh_technician_id = ''T'', sh_weekday = 1, sh_start_minutes = 480, sh_end_minutes = 1020\<rparr>],
     absences = [], tech_occs = rows\<rparr>"

definition demo_tech_req :: TechReserveRequest where
  "demo_tech_req = \<lparr>trq_dealership_id = ''D'', trq_service_type_id = ''S'',
     trq_start = Some (monday + 540 * microseconds_per_minute),
     trq_latest_end = Some (monday + 1080 * microseconds_per_minute), trq_request_id = ''r''\<rparr>"

definition demo_tech_resp :: TechReserveResponse where
  "demo_tech_resp = \<lparr>trs_occupation_id = ''O'', trs_technician_id = ''T'',
     trs_end = Some (monday + 570 * microseconds_per_minute)\<rparr>"

definition demo_tech_held :: occ_row where
  "demo_tech_held = held_row ''O'' ''T'' (monday + 540 * microseconds_per_minute)
     (monday + 570 * microseconds_per_minute) (monday + 1)"

lemma demo_tech_Reserve:
  "run (tech_Reserve demo_ext demo_tech_req) demo_cs (demo_tech_db []) =
     (Inr demo_tech_resp, demo_tech_db [demo_tech_held])"
  by code_simp

lemma tech_never_double_booked_witness:
  "no_overlap (tech_occs (snd (interleave [(0, demo_cs 0), (1, demo_cs 1), (0, demo_cs 2), (1, demo_cs 3), (2, demo_cs 4)]
     (map (tech_serve demo_ext) [TechReserve demo_tech_req, TechReserve demo_tech_req, TechReap],
      demo_tech_db [demo_tech_held]))))"
proof -
  have "no_overlap (tech_occs (demo_tech_db [demo_tech_held]))" by code_simp
  from tech_never_double_booked [OF this] show ?thesis .
qed


text \<open>A hold that ran out before Monday blocks the only technician.\<close>

definition demo_stale :: occ_row where
  "demo_stale = (demo_tech_held)\<lparr>occ_id := ''old'', occ_hold_expires_at := Some 0\<rparr>"

lemma tech_Reserve_reclaims_expired_witness:
  "tech_candidates demo_ext (tech_params demo_tech_req (monday + 540 * microseconds_per_minute)
      (monday + 1080 * microseconds_per_minute)) (demo_tech_db [demo_stale]) ''D'' ''S'' = [] \<and>
   (\<exists>resp. fst (run (tech_Reserve demo_ext demo_tech_req) demo_cs (demo_tech_db [demo_stale])) = Inr resp)"
proof
  show "tech_candidates demo_ext (tech_params demo_tech_req (monday + 540 * microseconds_per_minute)
      (monday + 1080 * microseconds_per_minute)) (demo_tech_db [demo_stale]) ''D'' ''S'' = []"
    by code_simp
  show "\<exists>resp. fst (run (tech_Reserve demo_ext demo_tech_req) demo_cs (demo_tech_db [demo_stale])) = Inr resp"
  proof (rule tech_Reserve_reclaims_expired [where dealer = "''D''" and service = "''S''"])
    show "trq_start demo_tech_req = Some (monday + 540 * microseconds_per_minute)"
      "trq_latest_end demo_tech_req = Some (monday + 1080 * microseconds_per_minute)"
      "trq_dealership_id demo_tech_req \<noteq> ''''" "trq_service_type_id demo_tech_req \<noteq> ''''"
      "uuid_in demo_ext (trq_dealership_id demo_tech_req) = Some ''D''"
      "uuid_in demo_ext (trq_service_type_id demo_tech_req) = Some ''S''"
      by (simp_all add: demo_tech_req_def demo_ext_def)
    show "\<forall>(t, sk) \<in> set (qualified_techs (demo_tech_db [demo_stale]) ''D'' ''S'').
        pg_zone demo_ext (te_timezone t) \<noteq> None" by (simp add: demo_ext_def)
    show "\<forall>sk \<in> set (skills (demo_tech_db [demo_stale])). 1 \<le> sk_duration_minutes sk" by code_simp
    show "go_now (demo_cs 0) < monday + 540 * microseconds_per_minute" by code_simp
    show "\<forall>n. faults (demo_cs n) = (\<lambda>_. Deliver)" by (simp add: demo_cs_def demo_choice_def)
    show "\<forall>n. fresh_id (demo_cs n) \<notin> occ_id ` set (tech_occs (demo_tech_db [demo_stale]))"
      by (simp add: demo_cs_def demo_choice_def demo_tech_db_def demo_stale_def)
    show "tech_candidates demo_ext (tech_params demo_tech_req (monday + 540 * microseconds_per_minute)
        (monday + 1080 * microseconds_per_minute))
        (set_tech_occs (reap (db_now (demo_cs 2)) (tech_occs (demo_tech_db [demo_stale]))) (demo_tech_db [demo_stale]))
        ''D'' ''S'' \<noteq> []" by code_simp
  qed
qed

lemma tech_hold_confirmable_until_expiry_witness:
  "\<exists>held expiry. held \<in> set (tech_occs (demo_tech_db [demo_tech_held])) \<and>
     occ_id held = trs_occupation_id demo_tech_resp \<and> occ_hold_expires_at held = Some expiry \<and>
     run (tech_Confirm demo_ext (trs_occupation_id demo_tech_resp)) demo_cs (demo_tech_db [demo_tech_held]) =
       (if db_now (demo_cs 0) < expiry
        then (Inr (), set_tech_occs (map (\<lambda>o1. if o1 = held then confirm_row held else o1)
               (tech_occs (demo_tech_db [demo_tech_held]))) (demo_tech_db [demo_tech_held]))
        else (Inl (FailedPrecondition, ''occupation not held or hold expired''), demo_tech_db [demo_tech_held]))"
  by (rule tech_hold_confirmable_until_expiry [OF demo_tech_Reserve])
    (simp_all add: demo_ext_def demo_tech_resp_def demo_cs_def demo_choice_def)

lemma tech_Confirm_idempotent_witness:
  "run (tech_Confirm demo_ext ''O'') (\<lambda>n. demo_choice (monday + 10000000000) ''x'') (demo_tech_db [confirm_row demo_tech_held]) =
     (Inr (), demo_tech_db [confirm_row demo_tech_held])"
proof (rule tech_Confirm_idempotent)
  show "distinct (map occ_id (tech_occs (demo_tech_db [demo_tech_held])))" by code_simp
  show "run (tech_Confirm demo_ext ''O'') demo_cs (demo_tech_db [demo_tech_held]) =
    (Inr (), demo_tech_db [confirm_row demo_tech_held])" by code_simp
  show "faults (demo_choice (monday + 10000000000) ''x'') ConfirmSQL = Deliver" by (simp add: demo_choice_def)
qed

lemma shift_covers_same_day_witness:
  "shift_covers utc (shifts (demo_tech_db [])) ''T'' (monday + 990 * microseconds_per_minute)
      (monday + 1020 * microseconds_per_minute + 59999999) \<and>
   (\<exists>sh \<in> set (shifts (demo_tech_db [])). sh_technician_id sh = ''T'' \<and>
     sh_weekday sh = (if go_weekday (local_time utc (monday + 990 * microseconds_per_minute)) = 0 then 7
        else go_weekday (local_time utc (monday + 990 * microseconds_per_minute))) \<and>
     (let midnight = civil_day (local_time utc (monday + 990 * microseconds_per_minute)) * day in
        midnight + sh_start_minutes sh * microseconds_per_minute \<le> local_time utc (monday + 990 * microseconds_per_minute) \<and>
        local_time utc (monday + 1020 * microseconds_per_minute + 59999999) < midnight + (sh_end_minutes sh + 1) * microseconds_per_minute))"
proof -
  have d: "civil_day (local_time utc (monday + 1020 * microseconds_per_minute + 59999999)) =
      civil_day (local_time utc (monday + 990 * microseconds_per_minute))" by code_simp
  have c: "shift_covers utc (shifts (demo_tech_db [])) ''T'' (monday + 990 * microseconds_per_minute)
      (monday + 1020 * microseconds_per_minute + 59999999)" by code_simp
  from c c [unfolded shift_covers_same_day [OF d]] show ?thesis by (rule conjI)
qed

lemma shift_ending_at_midnight_unchecked_witness:
  "shift_covers utc (shifts (demo_tech_db [])) ''T'' (monday + 1410 * microseconds_per_minute) (monday + day)"
proof -
  have m: "local_time utc (monday + day) mod day = 0"
    and p: "\<forall>sh \<in> set (shifts (demo_tech_db [])). 0 < sh_end_minutes sh"
    and w: "\<exists>sh \<in> set (shifts (demo_tech_db [])). sh_technician_id sh = ''T'' \<and>
      sh_weekday sh = pg_isodow (local_time utc (monday + 1410 * microseconds_per_minute)) \<and>
      sh_start_minutes sh \<le> minute_of_day (local_time utc (monday + 1410 * microseconds_per_minute))"
    by code_simp+
  show ?thesis unfolding shift_ending_at_midnight_unchecked [OF m p] by (rule w)
qed

end
