(* ===== verification/Bay.thy ===== *)
theory Bay
  imports Allocator
begin

text \<open>
  The Bay allocator (\<open>services/bay/reserve.go\<close>): its database, the claiming \<open>SELECT\<close> over the
  homogeneous bays of a dealership, the RPC handlers Reserve, Confirm and Release, and the server
  as a set of concurrent requests.  The interval is the caller's, taken verbatim.
\<close>

section \<open>The bay database and the messages\<close>

record service_bay =
  ba_id :: string
  ba_dealership_id :: string
  ba_active :: bool

record bay_db =
  service_bays :: "service_bay list"
  bay_occs :: "occ_row list"

definition set_bay_occs :: "occ_row list \<Rightarrow> bay_db \<Rightarrow> bay_db" where
  "set_bay_occs rows db = db\<lparr>bay_occs := rows\<rparr>"

record BayReserveRequest =
  brq_dealership_id :: string
  brq_start :: "instant option"
  brq_end :: "instant option"
  brq_request_id :: string

record BayReserveResponse =
  brs_occupation_id :: string
  brs_service_bay_id :: string

record bay_reserveParams =
  bp_dealershipID :: string
  bp_start :: instant
  bp_end :: instant
  bp_requestID :: string

section \<open>The claim\<close>

definition bay_candidates :: "bay_reserveParams \<Rightarrow> bay_db \<Rightarrow> string \<Rightarrow> service_bay list" where
  "bay_candidates p db dealer =
     filter (\<lambda>b. ba_dealership_id b = dealer \<and> ba_active b \<and>
       free (bay_occs db) (ba_id b) (bp_start p) (bp_end p)) (service_bays db)"

definition bay_pick ::
  "pg_ext \<Rightarrow> bay_reserveParams \<Rightarrow> bay_db \<Rightarrow> pg_error + (string \<times> instant \<times> instant) option" where
  "bay_pick ext p db =
     (case uuid_in ext (bp_dealershipID p) of
        None \<Rightarrow> Inl OtherError
      | Some dealer \<Rightarrow> Inr (map_option (\<lambda>b. (ba_id b, bp_start p, bp_end p))
          (first_least (\<lambda>b. hashtext ext (ba_id b @ bp_requestID p)) (bay_candidates p db dealer))))"

definition bay_claim :: "pg_ext \<Rightarrow> bay_reserveParams \<Rightarrow> (bay_db, pg_error + Occupation) prog" where
  "bay_claim ext p = claim_stmt (bay_pick ext p) (\<lambda>db. map ba_id (service_bays db)) bay_occs set_bay_occs"

definition bay_reserve :: "pg_ext \<Rightarrow> bay_reserveParams \<Rightarrow> (bay_db, reserve_error + Occupation) prog" where
  "bay_reserve ext p = claim_loop maxReserveAttempts (bay_claim ext p) (zoom reap_stmt bay_occs set_bay_occs)"

section \<open>The RPC handlers\<close>

definition bay_reply :: "reserve_error + Occupation \<Rightarrow> grpc_error + BayReserveResponse" where
  "bay_reply r =
     (case r of
        Inl NoFreeResource \<Rightarrow> Inl (FailedPrecondition, ''no free bay for the interval'')
      | Inl (ClaimFailed e) \<Rightarrow> Inl (Internal, ''reserve failed'')
      | Inr occ \<Rightarrow> Inr \<lparr>brs_occupation_id = OccupationID occ, brs_service_bay_id = ResourceID occ\<rparr>)"

definition bay_params :: "BayReserveRequest \<Rightarrow> instant \<Rightarrow> instant \<Rightarrow> bay_reserveParams" where
  "bay_params req s e = \<lparr>bp_dealershipID = brq_dealership_id req, bp_start = s, bp_end = e,
     bp_requestID = brq_request_id req\<rparr>"

definition bay_Reserve ::
  "pg_ext \<Rightarrow> BayReserveRequest \<Rightarrow> (bay_db, grpc_error + BayReserveResponse) prog" where
  "bay_Reserve ext req =
     (case (brq_start req, brq_end req) of
        (Some s, Some e) \<Rightarrow>
          if brq_dealership_id req = ''''
          then Ret (Inl (InvalidArgument, ''dealership_id, start, end are required''))
          else if \<not> s < e then Ret (Inl (InvalidArgument, ''end must be after start''))
          else andthen time_now (\<lambda>now.
            if \<not> now < s
            then Ret (Inl (InvalidArgument, ''start must be strictly in the future''))
            else andthen (bay_reserve ext (bay_params req s e)) (\<lambda>r. Ret (bay_reply r)))
      | _ \<Rightarrow> Ret (Inl (InvalidArgument, ''dealership_id, start, end are required'')))"

definition bay_Confirm :: "pg_ext \<Rightarrow> string \<Rightarrow> (bay_db, grpc_error + unit) prog" where
  "bay_Confirm ext i =
     (if i = '''' then Ret (Inl (InvalidArgument, ''occupation_id is required''))
      else andthen (zoom (confirm_stmt ext i) bay_occs set_bay_occs) (\<lambda>tag.
        case tag of
          Inl e \<Rightarrow> Ret (Inl (Internal, ''confirm requires an unexpired HELD occupation''))
        | Inr n \<Rightarrow>
            if n = 0 then Ret (Inl (FailedPrecondition, ''occupation not held or hold expired''))
            else Ret (Inr ())))"

definition bay_Release :: "pg_ext \<Rightarrow> string \<Rightarrow> (bay_db, grpc_error + unit) prog" where
  "bay_Release ext i =
     (if i = '''' then Ret (Inl (InvalidArgument, ''occupation_id is required''))
      else andthen (zoom (release_stmt ext i) bay_occs set_bay_occs) (\<lambda>tag.
        case tag of
          Inl e \<Rightarrow> Ret (Inl (Internal, ''release failed''))
        | Inr n \<Rightarrow> Ret (Inr ())))"

datatype bay_request =
    BayReserve BayReserveRequest
  | BayConfirm string
  | BayRelease string
  | BayReap

fun bay_serve :: "pg_ext \<Rightarrow> bay_request \<Rightarrow> (bay_db, unit) prog" where
  "bay_serve ext (BayReserve req) = andthen (bay_Reserve ext req) (\<lambda>_. Ret ())"
| "bay_serve ext (BayConfirm i) = andthen (bay_Confirm ext i) (\<lambda>_. Ret ())"
| "bay_serve ext (BayRelease i) = andthen (bay_Release ext i) (\<lambda>_. Ret ())"
| "bay_serve ext BayReap = zoom reaper_tick bay_occs set_bay_occs"

section \<open>The allocator meets its contract\<close>

lemma set_bay_occs_simps [simp]:
  "bay_occs (set_bay_occs rows db) = rows"
  "service_bays (set_bay_occs rows db) = service_bays db"
  "set_bay_occs rows (set_bay_occs rows2 db) = set_bay_occs rows db"
  by (simp_all add: set_bay_occs_def)

lemma bay_params_simps [simp]:
  "bp_dealershipID (bay_params req s e) = brq_dealership_id req"
  "bp_start (bay_params req s e) = s" "bp_end (bay_params req s e) = e"
  "bp_requestID (bay_params req s e) = brq_request_id req"
  by (simp_all add: bay_params_def)

interpretation bay_store: occ_store bay_occs set_bay_occs
  by unfold_locales (simp_all add: set_bay_occs_def)

interpretation bay_alloc: allocator bay_occs set_bay_occs ext "bay_Confirm ext" "bay_Release ext" for ext
proof (unfold_locales, goal_cases)
  case (1 i C db)
  show ?case
    unfolding bay_Confirm_def by (simp add: bay_store.Confirm_body_law bay_store.no_row_post del: wp_andthen)
next
  case (2 i C db)
  show ?case
    unfolding bay_Release_def by (simp add: bay_store.Release_body_law bay_store.no_row_post del: wp_andthen)
next
  case (3 C i u db)
  then show ?case
    unfolding bay_Release_def by (simp add: bay_store.Release_body_delivered del: wp_andthen)
qed

section \<open>Concurrent requests\<close>

text \<open>A relation every statement on the table respects is respected by every handler.\<close>

lemma keeps_bay_handlers:
  assumes "\<And>p. keeps (bay_claim ext p) R" and reap: "keeps (zoom reap_stmt bay_occs set_bay_occs) R"
    and "\<And>i. keeps (zoom (confirm_stmt ext i) bay_occs set_bay_occs) R"
    and "\<And>i. keeps (zoom (release_stmt ext i) bay_occs set_bay_occs) R" and "\<And>w. R w w"
  shows "keeps (bay_Reserve ext req) R \<and> keeps (bay_Confirm ext i) R \<and> keeps (bay_Release ext i) R \<and>
    keeps (bay_serve ext q) R"
proof -
  have r: "keeps (bay_Reserve ext req) R" for req
    unfolding bay_Reserve_def bay_reserve_def
    by (auto split: option.splits intro!: keeps_andthen keeps_time_now keeps_claim_loop assms)
  have c: "keeps (bay_Confirm ext i) R" and l: "keeps (bay_Release ext i) R" for i
    unfolding bay_Confirm_def bay_Release_def by (auto split: sum.splits intro!: keeps_andthen assms)
  have "keeps (bay_serve ext q) R"
    by (cases q) (auto intro!: keeps_andthen r c l bay_store.keeps_reaper reap)
  with r c l show ?thesis by blast
qed

lemma keeps_bay_no_overlap:
  "keeps (bay_Reserve ext req) (stable (\<lambda>db. no_overlap (bay_occs db))) \<and>
   keeps (bay_Confirm ext i) (stable (\<lambda>db. no_overlap (bay_occs db))) \<and>
   keeps (bay_Release ext i) (stable (\<lambda>db. no_overlap (bay_occs db))) \<and>
   keeps (bay_serve ext q) (stable (\<lambda>db. no_overlap (bay_occs db)))"
  by (rule keeps_bay_handlers, unfold bay_claim_def,
      auto intro: bay_store.keeps_claim_stmt bay_store.keeps_on_occs preserve simp: stable_def)

lemma keeps_bay_evolves:
  "keeps (bay_Reserve ext req) (\<lambda>db db'. occ_evolves (bay_occs db) (bay_occs db')) \<and>
   keeps (bay_Confirm ext i) (\<lambda>db db'. occ_evolves (bay_occs db) (bay_occs db')) \<and>
   keeps (bay_Release ext i) (\<lambda>db db'. occ_evolves (bay_occs db) (bay_occs db')) \<and>
   keeps (bay_serve ext q) (\<lambda>db db'. occ_evolves (bay_occs db) (bay_occs db'))"
  by (rule keeps_bay_handlers, unfold bay_claim_def,
      auto intro: bay_store.keeps_evolves_claim bay_store.keeps_evolves_stmts evolving.refl)

text \<open>
  C8: However many Reserve, Confirm, Release requests and reaper ticks are in flight on the Bay
  database, under every interleaving of their statements and every fault, no bay ever has two
  live occupations whose intervals overlap.
\<close>

theorem bay_never_double_booked:
  assumes "no_overlap (bay_occs db)"
  shows "no_overlap (bay_occs (snd (interleave sch (map (bay_serve ext) reqs, db))))"
  using inv.interleave_keeps [of "map (bay_serve ext) reqs" "\<lambda>db. no_overlap (bay_occs db)" db sch]
    assms keeps_bay_no_overlap by (auto simp: stable_def)

text \<open>
  Under every interleaving of requests on the Bay database, an occupation's bay and interval
  never change, its status only moves from HELD to CONFIRMED to RELEASED, and it is deleted only
  as an expired hold.
\<close>

theorem bay_occupation_lifecycle:
  "occ_evolves (bay_occs db) (bay_occs (snd (interleave sch (map (bay_serve ext) reqs, db))))"
  by (rule evolving.interleave_keeps [where f = bay_occs]) (auto simp: keeps_bay_evolves)

section \<open>One Reserve\<close>

lemma bay_pick_Some:
  assumes "bay_pick ext p db = Inr (Some (r, s, e))"
  shows "s = bp_start p \<and> e = bp_end p \<and> (\<exists>b dealer. b \<in> set (service_bays db) \<and> ba_id b = r \<and> ba_active b \<and>
     uuid_in ext (bp_dealershipID p) = Some dealer \<and> ba_dealership_id b = dealer \<and> free (bay_occs db) r s e \<and>
     (\<forall>b2 \<in> set (service_bays db). ba_dealership_id b2 = dealer \<and> ba_active b2 \<and> free (bay_occs db) (ba_id b2) s e \<longrightarrow>
        hashtext ext (r @ bp_requestID p) \<le> hashtext ext (ba_id b2 @ bp_requestID p)))"
proof -
  from assms obtain dealer b where u: "uuid_in ext (bp_dealershipID p) = Some dealer"
    and fl: "first_least (\<lambda>b. hashtext ext (ba_id b @ bp_requestID p)) (bay_candidates p db dealer) = Some b"
    and eqs: "r = ba_id b" "s = bp_start p" "e = bp_end p"
    by (auto simp: bay_pick_def split: option.splits)
  show ?thesis
    using u first_least_in [OF fl] first_least_min [OF fl] eqs
    by (auto simp: bay_candidates_def intro!: exI [of _ b])
qed

lemma wp_bay_Reserve:
  "wp (bay_Reserve ext req) C (\<lambda>r db'. \<exists>rows'. db' = set_bay_occs rows' db \<and>
     (case r of
        Inl e \<Rightarrow> failed_claim (bay_occs db) rows'
      | Inr resp \<Rightarrow> \<exists>s e mid now.
          brq_start req = Some s \<and> brq_end req = Some e \<and> only_reaped (bay_occs db) mid \<and>
          bay_pick ext (bay_params req s e) (set_bay_occs mid db) = Inr (Some (brs_service_bay_id resp, s, e)) \<and>
          claimed mid (held_row (brs_occupation_id resp) (brs_service_bay_id resp) s e now) rows')) db"
proof -
  have fail: "\<exists>rows'. db = set_bay_occs rows' db \<and> failed_claim (bay_occs db) rows'"
    by (rule bay_store.no_row_post(3))
  have claim: "wp (bay_reserve ext p) C (\<lambda>r db'. \<exists>rows'. db' = set_bay_occs rows' db \<and>
     (case r of
        Inl e \<Rightarrow> failed_claim (bay_occs db) rows'
      | Inr occ \<Rightarrow> \<exists>mid s now. only_reaped (bay_occs db) mid \<and>
          bay_pick ext p (set_bay_occs mid db) = Inr (Some (ResourceID occ, s, OccupationEnd occ)) \<and>
          claimed mid (held_row (OccupationID occ) (ResourceID occ) s (OccupationEnd occ) now) rows')) db" for p
    unfolding bay_reserve_def bay_claim_def by (rule bay_store.wp_claim_loop [OF bay_store.reap_law])
  show ?thesis
  proof (cases "brq_start req"; cases "brq_end req")
    fix s e
    assume t: "brq_start req = Some s" "brq_end req = Some e"
    have body: "wp (andthen (bay_reserve ext (bay_params req s e)) (\<lambda>r. Ret (bay_reply r))) C
      (\<lambda>r db'. \<exists>rows'. db' = set_bay_occs rows' db \<and>
     (case r of
        Inl e \<Rightarrow> failed_claim (bay_occs db) rows'
      | Inr resp \<Rightarrow> \<exists>s e mid now.
          brq_start req = Some s \<and> brq_end req = Some e \<and> only_reaped (bay_occs db) mid \<and>
          bay_pick ext (bay_params req s e) (set_bay_occs mid db) = Inr (Some (brs_service_bay_id resp, s, e)) \<and>
          claimed mid (held_row (brs_occupation_id resp) (brs_service_bay_id resp) s e now) rows')) db"
      unfolding wp_andthen
    proof (rule wp_mono [OF claim], elim exE conjE, goal_cases)
      case (1 r db' rows')
      show ?case
      proof (cases r)
        case (Inl e)
        then show ?thesis using 1 by (cases e) (auto simp: bay_reply_def)
      next
        case (Inr occ)
        then obtain mid s2 now where m: "only_reaped (bay_occs db) mid"
          "bay_pick ext (bay_params req s e) (set_bay_occs mid db) = Inr (Some (ResourceID occ, s2, OccupationEnd occ))"
          "claimed mid (held_row (OccupationID occ) (ResourceID occ) s2 (OccupationEnd occ) now) rows'"
          using 1(2) by auto
        from bay_pick_Some [OF m(2)] have "s2 = s" "OccupationEnd occ = e" by simp_all
        with m 1(1) Inr t show ?thesis by (auto simp: bay_reply_def)
      qed
    qed
    show ?thesis
      unfolding bay_Reserve_def t using fail body [unfolded t] by (simp add: time_now_def)
  qed (use fail in \<open>simp_all add: bay_Reserve_def\<close>)
qed

interpretation bay_reserving: reserving bay_occs set_bay_occs ext "bay_Confirm ext" "bay_Release ext"
  "bay_Reserve ext" brs_occupation_id for ext
proof (unfold_locales, goal_cases)
  case (1 req C db)
  show ?case
    by (rule wp_mono [OF wp_bay_Reserve]) (force split: sum.splits)
next
  case (2 req C db)
  have "wp (bay_reserve ext p) C (\<lambda>r db'. wp (Ret (bay_reply r)) C
      (\<lambda>r db'. \<forall>resp. r = Inr resp \<longrightarrow> (\<exists>c. C c \<and> brs_occupation_id resp = fresh_id c)) db') d" for p d
    unfolding bay_reserve_def bay_claim_def
    by (rule wp_mono [OF bay_store.wp_claim_loop_fresh])
      (auto simp: bay_reply_def split: sum.splits reserve_error.splits)
  then show ?case by (auto simp: bay_Reserve_def time_now_def split: option.splits)
next
  case (3 C req db)
  have "wp (bay_reserve ext p) C (\<lambda>r db'. wp (Ret (bay_reply r)) C
      (\<lambda>r db'. \<forall>e. r = Inl e \<longrightarrow> only_reaped (bay_occs db) (bay_occs db')) db') db" for p
    unfolding bay_reserve_def bay_claim_def
    by (rule wp_mono [OF bay_store.wp_claim_loop_clean [OF 3]])
      (auto simp: bay_reply_def split: sum.splits reserve_error.splits)
  then show ?case by (auto simp: bay_Reserve_def time_now_def split: option.splits)
qed

text \<open>
  A successful Reserve took, among the active bays of the dealership free over the requested
  interval, the one with the least hash of its id and the request id; the interval is the
  request's, verbatim, and the table gained exactly the held row of the response, which no live
  row of that bay overlaps.
\<close>

theorem bay_Reserve_claims:
  assumes "run (bay_Reserve ext req) cs db = (Inr resp, db')"
  shows "\<exists>s e b dealer mid now.
    brq_start req = Some s \<and> brq_end req = Some e \<and> s < e \<and>
    b \<in> set (service_bays db) \<and> ba_id b = brs_service_bay_id resp \<and> ba_active b \<and>
    uuid_in ext (brq_dealership_id req) = Some dealer \<and> ba_dealership_id b = dealer \<and>
    only_reaped (bay_occs db) mid \<and> free mid (ba_id b) s e \<and>
    (\<forall>b2 \<in> set (service_bays db). ba_dealership_id b2 = dealer \<and> ba_active b2 \<and> free mid (ba_id b2) s e \<longrightarrow>
       hashtext ext (ba_id b @ brq_request_id req) \<le> hashtext ext (ba_id b2 @ brq_request_id req)) \<and>
    db' = set_bay_occs (mid @ [held_row (brs_occupation_id resp) (ba_id b) s e now]) db"
proof -
  from wp_run [OF wp_bay_Reserve [where C = "\<lambda>_. True" and ext = ext and req = req and db = db], of cs] assms
  obtain s e mid now rows' where
    q: "brq_start req = Some s" "brq_end req = Some e" "only_reaped (bay_occs db) mid" "db' = set_bay_occs rows' db"
    and pk: "bay_pick ext (bay_params req s e) (set_bay_occs mid db) = Inr (Some (brs_service_bay_id resp, s, e))"
    and cl: "claimed mid (held_row (brs_occupation_id resp) (brs_service_bay_id resp) s e now) rows'"
    by auto
  from bay_pick_Some [OF pk] obtain b dealer where b: "b \<in> set (service_bays db)" "ba_id b = brs_service_bay_id resp"
      "ba_active b" "uuid_in ext (brq_dealership_id req) = Some dealer" "ba_dealership_id b = dealer"
      "free mid (ba_id b) s e" "\<forall>b2 \<in> set (service_bays db). ba_dealership_id b2 = dealer \<and> ba_active b2 \<and>
         free mid (ba_id b2) s e \<longrightarrow>
       hashtext ext (ba_id b @ brq_request_id req) \<le> hashtext ext (ba_id b2 @ brq_request_id req)"
    by auto
  show ?thesis
    by (intro exI [of _ s] exI [of _ e] exI [of _ b] exI [of _ dealer] exI [of _ mid] exI [of _ now])
      (use q b cl in \<open>simp add: claimed_def\<close>)
qed

section \<open>Availability\<close>

lemma bay_pick_known:
  "uuid_in ext (bp_dealershipID p) = Some dealer \<Longrightarrow>
   (\<exists>r. bay_pick ext p db = Inr (Some (r, bp_start p, bp_end p)) \<and> bay_candidates p db dealer \<noteq> []) \<or>
   bay_pick ext p db = Inr None \<and> bay_candidates p db dealer = []"
  by (cases "first_least (\<lambda>b. hashtext ext (ba_id b @ bp_requestID p)) (bay_candidates p db dealer)")
    (auto simp: bay_pick_def first_least_None_iff)

lemma bay_pick_finds:
  assumes "uuid_in ext (bp_dealershipID p) = Some dealer" and "bp_start p < bp_end p"
  shows "if bay_candidates p db dealer = [] then bay_pick ext p db = Inr None
    else finds (bay_pick ext p) (\<lambda>db. map ba_id (service_bays db)) bay_occs db"
  using bay_pick_known [OF assms(1), of db] assms(2) by (fastforce simp: finds_def dest: bay_pick_Some)

lemma free_reap: "free rows r s e \<Longrightarrow> free (reap now rows) r s e"
  by (auto simp: free_def reap_def)

lemma bay_candidates_reap:
  "bay_candidates p db dealer \<noteq> [] \<Longrightarrow> bay_candidates p (set_bay_occs (reap now (bay_occs db)) db) dealer \<noteq> []"
  by (auto simp: bay_candidates_def filter_empty_conv intro: free_reap)

abbreviation bay_loop :: "pg_ext \<Rightarrow> bay_reserveParams \<Rightarrow> nat \<Rightarrow> (reserve_error + Occupation \<Rightarrow> (bay_db, 'a) prog) \<Rightarrow> (bay_db, 'a) prog" where
  "bay_loop ext p n h \<equiv> andthen (claim_loop n (bay_claim ext p) (zoom reap_stmt bay_occs set_bay_occs)) h"

abbreviation bay_reaped :: "instant \<Rightarrow> bay_db \<Rightarrow> bay_db" where
  "bay_reaped t db \<equiv> set_bay_occs (reap t (bay_occs db)) db"

lemma bay_reaped_twice [simp]: "bay_reaped t (bay_reaped t db) = bay_reaped t db"
  by (simp add: reap_def)

lemma bay_loop_miss:
  assumes "bay_pick ext p db = Inr None" and "faults (cs 1) ReapSQL = Deliver"
  shows "run (bay_loop ext p (Suc n) h) cs db = run (bay_loop ext p n h) (\<lambda>n. cs (Suc (Suc n))) (bay_reaped (db_now (cs 1)) db)"
  unfolding bay_claim_def by (rule bay_store.run_loop_miss [where pick = "bay_pick ext p" and cs = cs, OF assms])

text \<open>No bay is free once the expired holds are gone: every attempt misses.\<close>

lemma bay_loop_full:
  assumes "uuid_in ext (bp_dealershipID p) = Some dealer"
    and "\<forall>n. faults (cs n) = (\<lambda>_. Deliver)" and "\<forall>n. db_now (cs n) = t"
    and "bay_candidates p (bay_reaped t db) dealer = []"
  shows "\<exists>cs' db'. run (bay_loop ext p n h) cs db = run (h (Inl NoFreeResource)) cs' db'"
  using assms(2-4)
proof (induction n arbitrary: cs db)
  case (Suc n)
  have "bay_candidates p db dealer = []" using Suc.prems(3) bay_candidates_reap by blast
  with bay_pick_known [OF assms(1), of db] have "bay_pick ext p db = Inr None" by auto
  from bay_loop_miss [OF this, of cs] Suc.prems
  have "run (bay_loop ext p (Suc n) h) cs db = run (bay_loop ext p n h) (\<lambda>n. cs (Suc (Suc n))) (bay_reaped t db)" by simp
  then show ?case using Suc.IH [of "\<lambda>n. cs (Suc (Suc n))" "bay_reaped t db"] Suc.prems by (simp add: reap_def)
qed auto

text \<open>Some bay is free once the expired holds are gone: the first or the second attempt takes one.\<close>

lemma bay_loop_free:
  assumes "uuid_in ext (bp_dealershipID p) = Some dealer" and "bp_start p < bp_end p"
    and "\<forall>n. faults (cs n) = (\<lambda>_. Deliver)" and "\<forall>n. db_now (cs n) = t"
    and "\<forall>n. fresh_id (cs n) \<notin> occ_id ` set (bay_occs db)"
    and "bay_candidates p (bay_reaped t db) dealer \<noteq> []"
  shows "\<exists>occ cs' db'. run (bay_loop ext p (Suc (Suc n)) h) cs db = run (h (Inr occ)) cs' db'"
  unfolding bay_claim_def
  by (rule bay_store.run_loop_free)
    (use bay_pick_finds [OF assms(1,2), of db] bay_pick_finds [OF assms(1,2), of "bay_reaped t db"] assms(3-6)
      in \<open>auto split: if_splits\<close>)

text \<open>
  C26: When the request is well-formed and nothing fails or interferes, Reserve succeeds exactly
  when some active bay of the dealership is free over the interval once the expired holds are
  gone; otherwise the answer is FailedPrecondition, never a wait or an internal error.
\<close>

theorem bay_Reserve_iff_free:
  assumes "brq_start req = Some s" and "brq_end req = Some e" and "s < e"
    and "brq_dealership_id req \<noteq> ''''" and "uuid_in ext (brq_dealership_id req) = Some dealer"
    and "go_now (cs 0) < s"
    and "\<forall>n. faults (cs n) = (\<lambda>_. Deliver)" and "\<forall>n. db_now (cs n) = t"
    and "\<forall>n. fresh_id (cs n) \<notin> occ_id ` set (bay_occs db)"
  shows "if \<exists>b \<in> set (service_bays db). ba_dealership_id b = dealer \<and> ba_active b \<and>
            free (reap t (bay_occs db)) (ba_id b) s e
         then \<exists>resp. fst (run (bay_Reserve ext req) cs db) = Inr resp
         else fst (run (bay_Reserve ext req) cs db) = Inl (FailedPrecondition, ''no free bay for the interval'')"
proof -
  let ?p = "bay_params req s e"
  let ?h = "\<lambda>r. Ret (bay_reply r) :: (bay_db, grpc_error + BayReserveResponse) prog"
  have handler: "run (bay_Reserve ext req) cs db = run (bay_loop ext ?p (Suc (Suc (Suc 0))) ?h) (\<lambda>n. cs (Suc n)) db"
    using assms(1-4,6)
    by (simp add: bay_Reserve_def time_now_def bay_reserve_def numeral_3_eq_3 del: claim_loop.simps)
  have u: "uuid_in ext (bp_dealershipID ?p) = Some dealer" using assms(5) by simp
  have cand: "bay_candidates ?p (bay_reaped t db) dealer \<noteq> [] \<longleftrightarrow> (\<exists>b \<in> set (service_bays db).
      ba_dealership_id b = dealer \<and> ba_active b \<and> free (reap t (bay_occs db)) (ba_id b) s e)"
    by (auto simp: bay_candidates_def filter_empty_conv)
  show ?thesis
    unfolding cand [symmetric] handler
    using bay_loop_full [OF u, of "\<lambda>n. cs (Suc n)" t db "Suc (Suc (Suc 0))" ?h]
      bay_loop_free [OF u, of "\<lambda>n. cs (Suc n)" t db "Suc 0" ?h] assms(3,7-9)
    by (auto simp: bay_reply_def simp del: claim_loop.simps)
qed

section \<open>A concrete instance\<close>

text \<open>Two bays at dealership \<open>D\<close>; the first has the lesser hash.\<close>

definition demo_bay_db :: "occ_row list \<Rightarrow> bay_db" where
  "demo_bay_db rows = \<lparr>service_bays =
     [\<lparr>ba_id = ''B'', ba_dealership_id = ''D'', ba_active = True\<rparr>,
      \<lparr>ba_id = ''B2'', ba_dealership_id = ''D'', ba_active = True\<rparr>], bay_occs = rows\<rparr>"

definition demo_bay_req :: BayReserveRequest where
  "demo_bay_req = \<lparr>brq_dealership_id = ''D'', brq_start = Some (monday + 540 * microseconds_per_minute),
     brq_end = Some (monday + 570 * microseconds_per_minute), brq_request_id = ''r''\<rparr>"

definition demo_bay_resp :: BayReserveResponse where
  "demo_bay_resp = \<lparr>brs_occupation_id = ''O'', brs_service_bay_id = ''B''\<rparr>"

definition demo_bay_held :: occ_row where
  "demo_bay_held = held_row ''O'' ''B'' (monday + 540 * microseconds_per_minute)
     (monday + 570 * microseconds_per_minute) (monday + 1)"

lemma demo_bay_Reserve:
  "run (bay_Reserve demo_ext demo_bay_req) demo_cs (demo_bay_db []) =
     (Inr demo_bay_resp, demo_bay_db [demo_bay_held])"
  by code_simp

lemma bay_never_double_booked_witness:
  "no_overlap (bay_occs (snd (interleave [(0, demo_cs 0), (1, demo_cs 1), (0, demo_cs 2), (1, demo_cs 3), (2, demo_cs 4)]
     (map (bay_serve demo_ext) [BayReserve demo_bay_req, BayReserve demo_bay_req, BayReap],
      demo_bay_db [demo_bay_held]))))"
proof -
  have "no_overlap (bay_occs (demo_bay_db [demo_bay_held]))" by code_simp
  from bay_never_double_booked [OF this] show ?thesis .
qed

lemma bay_Reserve_claims_witness:
  "\<exists>s e b dealer mid now.
    brq_start demo_bay_req = Some s \<and> brq_end demo_bay_req = Some e \<and> s < e \<and>
    b \<in> set (service_bays (demo_bay_db [])) \<and> ba_id b = brs_service_bay_id demo_bay_resp \<and> ba_active b \<and>
    uuid_in demo_ext (brq_dealership_id demo_bay_req) = Some dealer \<and> ba_dealership_id b = dealer \<and>
    only_reaped (bay_occs (demo_bay_db [])) mid \<and> free mid (ba_id b) s e \<and>
    (\<forall>b2 \<in> set (service_bays (demo_bay_db [])). ba_dealership_id b2 = dealer \<and> ba_active b2 \<and> free mid (ba_id b2) s e \<longrightarrow>
       hashtext demo_ext (ba_id b @ brq_request_id demo_bay_req) \<le> hashtext demo_ext (ba_id b2 @ brq_request_id demo_bay_req)) \<and>
    demo_bay_db [demo_bay_held] =
      set_bay_occs (mid @ [held_row (brs_occupation_id demo_bay_resp) (ba_id b) s e now]) (demo_bay_db [])"
  by (rule bay_Reserve_claims [OF demo_bay_Reserve])

lemma bay_Reserve_iff_free_witness:
  "\<exists>resp. fst (run (bay_Reserve demo_ext demo_bay_req) (\<lambda>n. demo_choice monday ''x'') (demo_bay_db [demo_bay_held])) = Inr resp"
proof -
  have f: "\<exists>b \<in> set (service_bays (demo_bay_db [demo_bay_held])). ba_dealership_id b = ''D'' \<and> ba_active b \<and>
     free (reap monday (bay_occs (demo_bay_db [demo_bay_held]))) (ba_id b)
       (monday + 540 * microseconds_per_minute) (monday + 570 * microseconds_per_minute)" by code_simp
  have "if \<exists>b \<in> set (service_bays (demo_bay_db [demo_bay_held])). ba_dealership_id b = ''D'' \<and> ba_active b \<and>
            free (reap monday (bay_occs (demo_bay_db [demo_bay_held]))) (ba_id b)
              (monday + 540 * microseconds_per_minute) (monday + 570 * microseconds_per_minute)
        then \<exists>resp. fst (run (bay_Reserve demo_ext demo_bay_req) (\<lambda>n. demo_choice monday ''x'') (demo_bay_db [demo_bay_held])) = Inr resp
        else fst (run (bay_Reserve demo_ext demo_bay_req) (\<lambda>n. demo_choice monday ''x'') (demo_bay_db [demo_bay_held])) =
          Inl (FailedPrecondition, ''no free bay for the interval'')"
    by (rule bay_Reserve_iff_free)
      (simp_all add: demo_bay_req_def demo_ext_def demo_choice_def monday_def demo_bay_db_def demo_bay_held_def)
  with f show ?thesis by (simp only: if_True)
qed

end
