(* ===== verification/Booking.thy ===== *)
theory Booking
  imports Allocator "HOL-Library.Char_ord"
begin

text \<open>
  The vocabulary of Booking (\<open>services/booking/booking.go\<close>): its errors, statuses, requests and
  public record, the confirm fingerprint, and the identifiers it mints (\<open>NewUUID\<close> of
  \<open>store.go\<close>).  What Booking takes from Go's standard library and from the host is the record
  \<open>go_ext\<close>: the time zone database, SHA-256, RFC 3339 parsing and printing, and the JSON syntax
  of a text.
\<close>

section \<open>Standard library\<close>

text \<open>
  A JSON value as \<open>encoding/json\<close> sees it; \<open>JNumber\<close> stands for a number with a fraction or an
  exponent, which no \<open>int\<close> field accepts.
\<close>

datatype json =
    JNull
  | JBool bool
  | JInt int
  | JNumber string
  | JString string
  | JArray "json list"
  | JObject "(string \<times> json) list"

text \<open>
  \<open>json_text\<close> is the value a whole text denotes (\<open>Unmarshal\<close>), \<open>json_prefix\<close> the first value of
  a stream (\<open>Decoder.Decode\<close>); \<open>sha256\<close> maps a byte string to the 32 digest bytes.
\<close>

record go_ext =
  load_location :: "string \<Rightarrow> zone option"
  sha256 :: "string \<Rightarrow> string"
  time_parse :: "string \<Rightarrow> instant option"
  time_format :: "instant \<Rightarrow> string"
  json_text :: "string \<Rightarrow> json option"
  json_prefix :: "string \<Rightarrow> json option"

section \<open>Errors and statuses\<close>

text \<open>
  The sentinel errors, with the whole message for the wrapped \<open>ErrInvalid\<close>, and any other error
  a store method returns.
\<close>

datatype booking_error =
    ErrUnavailable
  | ErrInvalid string
  | ErrIdempotencyConflict
  | ErrNotFound
  | ErrStore pg_error

datatype appt_status = StatusHeld | StatusConfirmed | StatusCancelled

fun status_text :: "appt_status \<Rightarrow> string" where
  "status_text StatusHeld = ''HELD''"
| "status_text StatusConfirmed = ''CONFIRMED''"
| "status_text StatusCancelled = ''CANCELLED''"

abbreviation (input) sweepLimit :: nat where "sweepLimit \<equiv> 50"

section \<open>Requests and the public record\<close>

record HoldRequest =
  hq_DealershipID :: string
  hq_CustomerID :: string
  hq_VehicleID :: string
  hq_ServiceTypeID :: string
  hq_Start :: string

record ConfirmRequest =
  cq_HoldID :: string
  cq_DealershipID :: string
  cq_CustomerID :: string
  cq_VehicleID :: string
  cq_ServiceTypeID :: string
  cq_Start :: string

record Appointment =
  ap_ID :: string
  ap_DealershipID :: string
  ap_CustomerID :: string
  ap_VehicleID :: string
  ap_ServiceTypeID :: string
  ap_StartAt :: string
  ap_EndAt :: string
  ap_Status :: string
  ap_HoldExpiresAt :: "string option"
  ap_TechnicianID :: string
  ap_ServiceBayID :: string
  ap_TechOccupation :: string
  ap_BayOccupationID :: string

definition parseStart :: "go_ext \<Rightarrow> string \<Rightarrow> instant option" where
  "parseStart go s = time_parse go s"

section \<open>Hexadecimal text\<close>

definition hex_digit :: "nat \<Rightarrow> char" where
  "hex_digit n = (if n < 10 then char_of (48 + n) else char_of (87 + n))"

definition hex_encode :: "string \<Rightarrow> string" where
  "hex_encode bs = concat (map (\<lambda>b. [hex_digit (of_char b div 16), hex_digit (of_char b mod 16)]) bs)"

lemma hex_digit_inj: "m < 16 \<Longrightarrow> n < 16 \<Longrightarrow> hex_digit m = hex_digit n \<longleftrightarrow> m = n"
proof -
  have "inj_on hex_digit (set [0..<16])"
    by (simp add: upt_rec hex_digit_def inj_on_def)
  then show "m < 16 \<Longrightarrow> n < 16 \<Longrightarrow> hex_digit m = hex_digit n \<longleftrightarrow> m = n"
    by (auto simp: inj_on_def)
qed

lemma of_char_lt_256: "(of_char c :: nat) < 256"
  using nat_of_char_less_256 by simp

lemma hex_encode_inj: "hex_encode xs = hex_encode ys \<longleftrightarrow> xs = ys"
proof (induction xs arbitrary: ys)
  case Nil
  then show ?case by (cases ys) (simp_all add: hex_encode_def)
next
  case (Cons x xs)
  show ?case
  proof (cases ys)
    case Nil
    then show ?thesis by (simp add: hex_encode_def)
  next
    case (Cons y ys')
    have "(of_char x :: nat) div 16 < 16" "(of_char y :: nat) div 16 < 16"
      using of_char_lt_256 [of x] of_char_lt_256 [of y] by (simp_all add: less_mult_imp_div_less)
    then have "hex_encode (x # xs) = hex_encode (y # ys') \<longleftrightarrow>
        (of_char x :: nat) div 16 = of_char y div 16 \<and> (of_char x :: nat) mod 16 = of_char y mod 16 \<and>
        hex_encode xs = hex_encode ys'"
      by (simp add: hex_encode_def hex_digit_inj)
    also have "\<dots> \<longleftrightarrow> (of_char x :: nat) = of_char y \<and> hex_encode xs = hex_encode ys'"
      by (metis div_mult_mod_eq)
    finally show ?thesis using Cons.IH by (simp add: \<open>ys = y # ys'\<close>)
  qed
qed

section \<open>The fingerprint\<close>

text \<open>The bytes written to the hash: each part followed by a zero byte.\<close>

definition fingerprint_input :: "string list \<Rightarrow> string" where
  "fingerprint_input parts = concat (map (\<lambda>part. part @ [CHR 0x00]) parts)"

definition fingerprint ::
  "go_ext \<Rightarrow> string \<Rightarrow> string \<Rightarrow> string \<Rightarrow> string \<Rightarrow> string \<Rightarrow> string \<Rightarrow> string" where
  "fingerprint go holdID dealershipID customerID vehicleID serviceTypeID start =
     hex_encode (sha256 go (fingerprint_input [holdID, dealershipID, customerID, vehicleID, serviceTypeID, start]))"

lemma zero_terminated_inj:
  assumes "CHR 0x00 \<notin> set p" and "CHR 0x00 \<notin> set q"
  shows "p @ CHR 0x00 # s = q @ CHR 0x00 # t \<longleftrightarrow> p = q \<and> s = t"
proof
  assume eq: "p @ CHR 0x00 # s = q @ CHR 0x00 # t"
  have tw: "takeWhile (\<lambda>c. c \<noteq> CHR 0x00) (r @ CHR 0x00 # u) = r" if "CHR 0x00 \<notin> set r" for r u
    using that by (induction r) auto
  from eq have "p = q"
    using tw [OF assms(1), of s] tw [OF assms(2), of t] by (simp only:)
  with eq show "p = q \<and> s = t" by simp
qed simp

lemma fingerprint_input_inj:
  assumes "length ps = length qs" and "\<forall>p \<in> set ps \<union> set qs. CHR 0x00 \<notin> set p"
  shows "fingerprint_input ps = fingerprint_input qs \<longleftrightarrow> ps = qs"
  using assms
  by (induction ps qs rule: list_induct2) (auto simp: fingerprint_input_def zero_terminated_inj)

section \<open>Identifiers\<close>

text \<open>\<open>NewUUID\<close>: 16 random bytes with the version and variant bits set, in the 8-4-4-4-12 form.\<close>

definition uuid_bytes :: "(nat \<Rightarrow> 8 word) \<Rightarrow> 8 word list" where
  "uuid_bytes b = map (\<lambda>i.
     if i = 6 then or (and (b i) 0x0f) 0x40
     else if i = 8 then or (and (b i) 0x3f) 0x80
     else b i) [0..<16]"

definition byte_char :: "8 word \<Rightarrow> char" where
  "byte_char w = char_of (unat w)"

definition NewUUID :: "(nat \<Rightarrow> 8 word) \<Rightarrow> string" where
  "NewUUID b = (let s = hex_encode (map byte_char (uuid_bytes b)) in
     take 8 s @ ''-'' @ take 4 (drop 8 s) @ ''-'' @ take 4 (drop 12 s) @ ''-'' @ take 4 (drop 16 s) @
     ''-'' @ take 12 (drop 20 s))"

definition mint_uuid :: "('w, string) prog" where
  "mint_uuid = atomic (\<lambda>c w. (NewUUID (entropy c), w))"

lemma length_hex_encode [simp]: "length (hex_encode bs) = 2 * length bs"
  by (induction bs) (simp_all add: hex_encode_def)

lemma of_char_byte_char: "(of_char (byte_char w) :: nat) = unat w"
  using unsigned_less [of w, where ?'a = nat] by (simp add: byte_char_def)

lemma uuid_bits:
  "unat (or (and w 0x0f) 0x40 :: 8 word) div 16 = 4"
  "unat (or (and w 0x3f) 0x80 :: 8 word) div 16 \<in> {8, 9, 10, 11}"
proof -
  have "drop_bit 4 (or (and w 0x0f) 0x40 :: 8 word) = 4"
    by (rule bit_word_eqI) (auto simp: bit_simps)
  then show "unat (or (and w 0x0f) 0x40 :: 8 word) div 16 = 4"
    by (simp add: unat_drop_bit_eq [of 4, symmetric] drop_bit_eq_div [where n = 4 and 'a = nat, simplified, symmetric])
  have "drop_bit 4 (or (and w 0x3f) 0x80 :: 8 word) =
      (if bit w 4 then if bit w 5 then 11 else 9 else if bit w 5 then 10 else 8)"
  proof (rule bit_word_eqI)
    fix n assume "n < LENGTH(8)"
    then have "n \<in> {0, 1, 2, 3, 4, 5, 6, 7}" by auto
    then show "bit (drop_bit 4 (or (and w 0x3f) 0x80)) n =
        bit (if bit w 4 then if bit w 5 then 11 else 9 else if bit w 5 then 10 else 8 :: 8 word) n"
      by (auto simp: bit_simps)
  qed
  then show "unat (or (and w 0x3f) 0x80 :: 8 word) div 16 \<in> {8, 9, 10, 11}"
    by (simp add: unat_drop_bit_eq [of 4, symmetric] drop_bit_eq_div [where n = 4 and 'a = nat, simplified, symmetric])
qed

text \<open>
  C40: Whatever bytes the generator returns, \<open>NewUUID\<close> is a version 4 UUID in canonical text:
  lower-case hexadecimal digits in the 8-4-4-4-12 form, the version digit \<open>4\<close> and a variant
  digit among \<open>8\<close>, \<open>9\<close>, \<open>a\<close>, \<open>b\<close>.
\<close>

theorem NewUUID_version4:
  "\<exists>h1 h2 h3 v h4 h5. NewUUID b = h1 @ ''-'' @ h2 @ ''-4'' @ h3 @ ''-'' @ [v] @ h4 @ ''-'' @ h5 \<and>
     map length [h1, h2, h3, h4, h5] = [8, 4, 3, 3, 12] \<and>
     set (h1 @ h2 @ h3 @ h4 @ h5) \<subseteq> set ''0123456789abcdef'' \<and> v \<in> set ''89ab''"
proof -
  let ?d = "\<lambda>i. [hex_digit (unat (uuid_bytes b ! i) div 16), hex_digit (unat (uuid_bytes b ! i) mod 16)]"
  let ?bs = "map (?d) [0..<16]"
  have u16: "[0..<16] = [0, 1, 2, 3, 4, 5, 6, 7, 8, 9, 10, 11, 12, 13, 14, 15 :: nat]" by code_simp
  have len: "length (uuid_bytes b) = 16" by (simp add: uuid_bytes_def)
  have nth: "map (\<lambda>i. uuid_bytes b ! i) [0..<16] = uuid_bytes b"
    using map_nth [of "uuid_bytes b"] len by simp
  have "hex_encode (map byte_char ws) = concat (map (\<lambda>w. [hex_digit (unat w div 16), hex_digit (unat w mod 16)]) ws)" for ws
    by (simp add: hex_encode_def comp_def of_char_byte_char)
  from this [of "uuid_bytes b"]
  have s: "hex_encode (map byte_char (uuid_bytes b)) = concat ?bs"
    by (subst (asm) (2) nth [symmetric]) (simp only: map_map comp_def)
  have hx: "hex_digit n \<in> set ''0123456789abcdef''" if "n < 16" for n
  proof -
    have "list_all (\<lambda>n. hex_digit n \<in> set ''0123456789abcdef'') [0..<16]" by code_simp
    with that show ?thesis by (simp add: list_all_iff)
  qed
  have lt: "unat (uuid_bytes b ! i) div 16 < 16" for i
    using unsigned_less [of "uuid_bytes b ! i", where ?'a = nat] by (simp add: less_mult_imp_div_less)
  have u: "NewUUID b = ?d 0 @ ?d 1 @ ?d 2 @ ?d 3 @ ''-'' @ ?d 4 @ ?d 5 @ ''-'' @ ?d 6 @ ?d 7 @ ''-'' @
      ?d 8 @ ?d 9 @ ''-'' @ ?d 10 @ ?d 11 @ ?d 12 @ ?d 13 @ ?d 14 @ ?d 15"
    unfolding NewUUID_def s u16 by simp
  have d: "hex_digit 4 = CHR ''4''" "hex_digit 8 = CHR ''8''" "hex_digit 9 = CHR ''9''"
    "hex_digit 10 = CHR ''a''" "hex_digit 11 = CHR ''b''" by code_simp+
  have v: "hex_digit (unat (uuid_bytes b ! 6) div 16) = CHR ''4''"
    "hex_digit (unat (uuid_bytes b ! 8) div 16) \<in> set ''89ab''"
    using uuid_bits(1) [of "b 6"] uuid_bits(2) [of "b 8"] by (auto simp: uuid_bytes_def d)
  define H where "H = set ''0123456789abcdef''"
  have "hex_digit (unat (uuid_bytes b ! i) div 16) \<in> H" "hex_digit (unat (uuid_bytes b ! i) mod 16) \<in> H" for i
    using hx lt by (simp_all add: H_def)
  then show ?thesis
    unfolding u H_def [symmetric] using v
    by (intro exI [of _ "?d 0 @ ?d 1 @ ?d 2 @ ?d 3"] exI [of _ "?d 4 @ ?d 5"]
        exI [of _ "tl (?d 6 @ ?d 7)"] exI [of _ "hex_digit (unat (uuid_bytes b ! 8) div 16)"]
        exI [of _ "tl (?d 8 @ ?d 9)"] exI [of _ "?d 10 @ ?d 11 @ ?d 12 @ ?d 13 @ ?d 14 @ ?d 15"]) simp
qed

text \<open>
  Two confirm requests with the same fingerprint are the same request: for parts without a
  zero byte the hashed bytes determine all six parts, so different requests share a fingerprint
  only by a SHA-256 collision on the two inputs.
\<close>

theorem fingerprint_identifies_request:
  assumes "\<forall>p \<in> {h, d, c, v, s, t, h', d', c', v', s', t'}. CHR 0x00 \<notin> set p"
    and "fingerprint go h d c v s t = fingerprint go h' d' c' v' s' t'"
  shows "(h, d, c, v, s, t) = (h', d', c', v', s', t') \<or>
    fingerprint_input [h, d, c, v, s, t] \<noteq> fingerprint_input [h', d', c', v', s', t'] \<and>
    sha256 go (fingerprint_input [h, d, c, v, s, t]) = sha256 go (fingerprint_input [h', d', c', v', s', t'])"
  using fingerprint_input_inj [of "[h, d, c, v, s, t]" "[h', d', c', v', s', t']"] assms
  by (auto simp: fingerprint_def hex_encode_inj)

section \<open>A concrete instance\<close>

definition demo_go :: go_ext where
  "demo_go = \<lparr>load_location = (\<lambda>_. Some utc), sha256 = (\<lambda>x. CHR ''d'' # x),
     time_parse = (\<lambda>x. if x = ''9am'' then Some (monday + 540 * microseconds_per_minute) else None),
     time_format = (\<lambda>t. ''t''),
     json_text = (\<lambda>x. if x = ''D'' then Some (JArray [JObject [(''id'', JString ''D''), (''timezone'', JString ''UTC''),
          (''openingHours'', JArray [JObject [(''weekday'', JInt 1), (''openMinutes'', JInt 480), (''closeMinutes'', JInt 1080)]])]])
        else if x = ''S'' then Some (JArray [JObject [(''id'', JString ''S'')]]) else None),
     json_prefix = (\<lambda>x. if x = ''V'' then Some (JArray [JObject [(''id'', JString ''V''), (''customerId'', JString ''C'')]]) else None)\<rparr>"

lemma fingerprint_identifies_request_witness:
  "(''h'', ''D'', ''C'', ''V'', ''S'', ''t'') = (''h'', ''D'', ''C'', ''V'', ''S'', ''t'') \<or>
    fingerprint_input [''h'', ''D'', ''C'', ''V'', ''S'', ''t''] \<noteq> fingerprint_input [''h'', ''D'', ''C'', ''V'', ''S'', ''t''] \<and>
    sha256 demo_go (fingerprint_input [''h'', ''D'', ''C'', ''V'', ''S'', ''t'']) =
      sha256 demo_go (fingerprint_input [''h'', ''D'', ''C'', ''V'', ''S'', ''t''])"
  by (rule fingerprint_identifies_request) simp_all

end
