(* ===== verification/AppointmentStore.thy ===== *)
theory AppointmentStore
  imports Booking
begin

text \<open>
  The appointment table and the statements Booking issues on it (\<open>services/booking/store.go\<close>,
  \<open>migrations/001_init.sql\<close>).  Every statement is one atomic action on the table; the three
  guarded updates (Promote, Cancel, ClearOccupationIDs) are interpretations of the compare-and-set
  contracts, and \<open>appts_evolve\<close> says how rows may change under any interleaving of statements.
\<close>

section \<open>Rows\<close>

record AppointmentRow =
  ar_ID :: string
  ar_DealershipID :: string
  ar_CustomerID :: string
  ar_VehicleID :: string
  ar_ServiceTypeID :: string
  ar_TechnicianID :: "string option"
  ar_ServiceBayID :: "string option"
  ar_TechOccupationID :: "string option"
  ar_BayOccupationID :: "string option"
  ar_StartAt :: instant
  ar_EndAt :: instant
  ar_Status :: appt_status
  ar_HoldExpiresAt :: "instant option"
  ar_IdempotencyKey :: "string option"
  ar_RequestFingerprint :: "string option"

text \<open>A nullable \<open>uuid\<close> parameter: \<open>NULL\<close>, canonical text, or an encoding error.\<close>

definition uuid_null :: "pg_ext \<Rightarrow> string option \<Rightarrow> string option option" where
  "uuid_null ext x = (case x of None \<Rightarrow> Some None | Some s \<Rightarrow> map_option Some (uuid_in ext s))"

text \<open>The row an \<open>INSERT\<close> stores for the parameters \<open>r\<close>, unless some parameter is not a \<open>uuid\<close>.\<close>

definition stored_row :: "pg_ext \<Rightarrow> AppointmentRow \<Rightarrow> instant \<Rightarrow> AppointmentRow option" where
  "stored_row ext r now =
     (case (uuid_in ext (ar_ID r), uuid_in ext (ar_DealershipID r), uuid_in ext (ar_CustomerID r),
            uuid_in ext (ar_VehicleID r), uuid_in ext (ar_ServiceTypeID r)) of
        (Some i, Some d, Some c, Some v, Some s) \<Rightarrow>
          (case (uuid_null ext (ar_TechnicianID r), uuid_null ext (ar_ServiceBayID r),
                 uuid_null ext (ar_TechOccupationID r), uuid_null ext (ar_BayOccupationID r)) of
             (Some t, Some b, Some ot, Some ob) \<Rightarrow>
               Some \<lparr>ar_ID = i, ar_DealershipID = d, ar_CustomerID = c, ar_VehicleID = v, ar_ServiceTypeID = s,
                 ar_TechnicianID = t, ar_ServiceBayID = b, ar_TechOccupationID = ot, ar_BayOccupationID = ob,
                 ar_StartAt = ar_StartAt r, ar_EndAt = ar_EndAt r, ar_Status = ar_Status r,
                 ar_HoldExpiresAt = Some (now + 120 * microseconds_per_second),
                 ar_IdempotencyKey = None, ar_RequestFingerprint = None\<rparr>
           | _ \<Rightarrow> None)
      | _ \<Rightarrow> None)"

section \<open>Statements\<close>

definition insert_appt :: "pg_ext \<Rightarrow> AppointmentRow \<Rightarrow> instant \<Rightarrow> AppointmentRow list \<Rightarrow> pg_error + AppointmentRow list" where
  "insert_appt ext r now rows =
     (case stored_row ext r now of
        None \<Rightarrow> Inl OtherError
      | Some n \<Rightarrow>
          if \<not> ar_StartAt n < ar_EndAt n then Inl (PgError check_violation)
          else if ar_ID n \<in> set (map ar_ID rows) then Inl (PgError unique_violation)
          else Inr (rows @ [n]))"

text \<open>
  \<open>InsertHeld\<close>: mint an id when the caller gave none, insert with status \<open>HELD\<close>, and return the
  caller's row with the id, the status and an expiry read from the process clock.
\<close>

definition InsertHeld :: "pg_ext \<Rightarrow> AppointmentRow \<Rightarrow> (AppointmentRow list, booking_error + AppointmentRow) prog" where
  "InsertHeld ext r =
     andthen (if ar_ID r = '''' then mint_uuid else Ret (ar_ID r)) (\<lambda>i.
       let r = r\<lparr>ar_ID := i, ar_Status := StatusHeld\<rparr> in
       andthen (sql InsertHeldSQL (\<lambda>c rows.
           case insert_appt ext r (db_now c) rows of
             Inl e \<Rightarrow> (Inl e, rows)
           | Inr rows' \<Rightarrow> (Inr (), rows')))
         (\<lambda>res. case res of
            Inl e \<Rightarrow> Ret (Inl (ErrStore e))
          | Inr x \<Rightarrow> andthen time_now (\<lambda>now.
              Ret (Inr (r\<lparr>ar_HoldExpiresAt := Some (now + 120 * microseconds_per_second)\<rparr>)))))"

definition get_stmt :: "pg_ext \<Rightarrow> string \<Rightarrow> (AppointmentRow list, pg_error + AppointmentRow) prog" where
  "get_stmt ext i = sql GetSQL (\<lambda>c rows.
     case uuid_in ext i of
       None \<Rightarrow> (Inl OtherError, rows)
     | Some u \<Rightarrow>
         (case select_one (\<lambda>r. ar_ID r = u) rows of
            None \<Rightarrow> (Inl ErrNoRows, rows)
          | Some r \<Rightarrow> (Inr r, rows)))"

definition has_key :: "string \<Rightarrow> AppointmentRow \<Rightarrow> bool" where
  "has_key key r \<longleftrightarrow> ar_IdempotencyKey r = Some key \<and> ar_Status r = StatusConfirmed"

text \<open>\<open>Inr None\<close> is the Go result \<open>(_, false, nil)\<close>.\<close>

definition GetConfirmedByIdempotencyKey ::
  "string \<Rightarrow> (AppointmentRow list, pg_error + AppointmentRow option) prog" where
  "GetConfirmedByIdempotencyKey key = sql GetByKeySQL (\<lambda>c rows. (Inr (select_one (has_key key) rows), rows))"

text \<open>\<open>NULLIF(x, '')\<close>.\<close>

definition nullif_empty :: "string \<Rightarrow> string option" where
  "nullif_empty x = (if x = '''' then None else Some x)"

definition promote_row :: "string \<Rightarrow> string \<Rightarrow> AppointmentRow \<Rightarrow> AppointmentRow" where
  "promote_row key fp r = r\<lparr>ar_Status := StatusConfirmed, ar_HoldExpiresAt := None,
     ar_IdempotencyKey := nullif_empty key, ar_RequestFingerprint := nullif_empty fp\<rparr>"

definition held :: "AppointmentRow \<Rightarrow> bool" where
  "held r \<longleftrightarrow> ar_Status r = StatusHeld"

text \<open>
  The promoting \<open>UPDATE\<close>; the partial unique index on the keys of CONFIRMED rows refuses a key
  that another appointment already holds.
\<close>

definition promote_appts ::
  "string \<Rightarrow> string \<Rightarrow> string \<Rightarrow> AppointmentRow list \<Rightarrow> pg_error + (AppointmentRow \<times> AppointmentRow list)" where
  "promote_appts u key fp rows =
     (case select_one (\<lambda>r. ar_ID r = u \<and> held r) rows of
        None \<Rightarrow> Inl ErrNoRows
      | Some r \<Rightarrow>
          if key \<noteq> '''' \<and> (\<exists>r2 \<in> set rows. has_key key r2) then Inl (PgError unique_violation)
          else Inr (promote_row key fp r, update_where (\<lambda>r. ar_ID r = u \<and> held r) (promote_row key fp) rows))"

definition promote_stmt ::
  "pg_ext \<Rightarrow> string \<Rightarrow> string \<Rightarrow> string \<Rightarrow> (AppointmentRow list, pg_error + AppointmentRow) prog" where
  "promote_stmt ext i key fp = sql PromoteSQL (\<lambda>c rows.
     case uuid_in ext i of
       None \<Rightarrow> (Inl OtherError, rows)
     | Some u \<Rightarrow>
         (case promote_appts u key fp rows of
            Inl e \<Rightarrow> (Inl e, rows)
          | Inr (r, rows') \<Rightarrow> (Inr r, rows')))"

definition Promote ::
  "pg_ext \<Rightarrow> string \<Rightarrow> string \<Rightarrow> string \<Rightarrow> (AppointmentRow list, booking_error + AppointmentRow) prog" where
  "Promote ext i key fp = andthen (promote_stmt ext i key fp) (\<lambda>r.
     case r of
       Inl e \<Rightarrow> if e = ErrNoRows then Ret (Inl ErrNotFound) else Ret (Inl (ErrStore e))
     | Inr row \<Rightarrow> Ret (Inr row))"

definition isUniqueViolation :: "booking_error \<Rightarrow> bool" where
  "isUniqueViolation e \<longleftrightarrow> e = ErrStore (PgError unique_violation)"

definition cancel_row :: "AppointmentRow \<Rightarrow> AppointmentRow" where
  "cancel_row r = r\<lparr>ar_Status := StatusCancelled, ar_HoldExpiresAt := None\<rparr>"

definition live_appt :: "AppointmentRow \<Rightarrow> bool" where
  "live_appt r \<longleftrightarrow> ar_Status r = StatusHeld \<or> ar_Status r = StatusConfirmed"

definition cancel_stmt :: "pg_ext \<Rightarrow> string \<Rightarrow> (AppointmentRow list, pg_error + bool) prog" where
  "cancel_stmt ext i = sql CancelSQL (\<lambda>c rows.
     case uuid_in ext i of
       None \<Rightarrow> (Inl OtherError, rows)
     | Some u \<Rightarrow>
         (Inr (0 < rows_affected (\<lambda>r. ar_ID r = u \<and> live_appt r) rows),
          update_where (\<lambda>r. ar_ID r = u \<and> live_appt r) cancel_row rows))"

text \<open>
  The sweep: the expired holds no other transaction has locked, earliest expiry first, at most
  \<open>limit\<close> of them, become CANCELLED; the updated rows are returned.
\<close>

definition sweepable :: "instant \<Rightarrow> string list \<Rightarrow> AppointmentRow \<Rightarrow> bool" where
  "sweepable now busy r \<longleftrightarrow> held r \<and> null_le (ar_HoldExpiresAt r) now \<and> ar_ID r \<notin> set busy"

definition sweep_ids :: "instant \<Rightarrow> string list \<Rightarrow> nat \<Rightarrow> AppointmentRow list \<Rightarrow> string list" where
  "sweep_ids now busy limit rows =
     map ar_ID (take limit (sort_key (\<lambda>r. case ar_HoldExpiresAt r of None \<Rightarrow> 0 | Some t \<Rightarrow> t)
       (filter (sweepable now busy) rows)))"

definition SweepBatch :: "nat \<Rightarrow> (AppointmentRow list, pg_error + AppointmentRow list) prog" where
  "SweepBatch limit = sql SweepSQL (\<lambda>c rows.
     let ids = sweep_ids (db_now c) (locked c) limit rows in
       (Inr (map cancel_row (filter (\<lambda>r. ar_ID r \<in> set ids) rows)),
        update_where (\<lambda>r. ar_ID r \<in> set ids) cancel_row rows))"

definition needs_release :: "AppointmentRow \<Rightarrow> bool" where
  "needs_release r \<longleftrightarrow> ar_Status r = StatusCancelled \<and>
     (ar_TechOccupationID r \<noteq> None \<or> ar_BayOccupationID r \<noteq> None)"

definition ListCancelledNeedingRelease :: "nat \<Rightarrow> (AppointmentRow list, pg_error + AppointmentRow list) prog" where
  "ListCancelledNeedingRelease limit = sql ListCancelledSQL (\<lambda>c rows.
     (Inr (take limit (filter needs_release rows)), rows))"

definition clear_row :: "AppointmentRow \<Rightarrow> AppointmentRow" where
  "clear_row r = r\<lparr>ar_TechOccupationID := None, ar_BayOccupationID := None\<rparr>"

definition cancelled :: "AppointmentRow \<Rightarrow> bool" where
  "cancelled r \<longleftrightarrow> ar_Status r = StatusCancelled"

definition ClearOccupationIDs :: "pg_ext \<Rightarrow> string \<Rightarrow> (AppointmentRow list, pg_error + unit) prog" where
  "ClearOccupationIDs ext i = sql ClearSQL (\<lambda>c rows.
     case uuid_in ext i of
       None \<Rightarrow> (Inl OtherError, rows)
     | Some u \<Rightarrow> (Inr (), update_where (\<lambda>r. ar_ID r = u \<and> cancelled r) clear_row rows))"

section \<open>The guarded updates meet their contracts\<close>

interpretation promoting: cas_once ar_ID held "promote_row key fp" for key fp
  by unfold_locales (simp_all add: promote_row_def held_def)

interpretation cancelling: cas_once ar_ID live_appt cancel_row
  by unfold_locales (simp_all add: cancel_row_def live_appt_def)

interpretation clearing: cas_update ar_ID cancelled clear_row
  by unfold_locales (simp add: clear_row_def)

section \<open>How appointments evolve\<close>

text \<open>
  The record of a booking is frozen when it is inserted: only status, expiry, key and fingerprint
  change, the status only from HELD to CONFIRMED or CANCELLED and from CONFIRMED to CANCELLED;
  key and fingerprint are bound at the promotion and kept; occupation ids are dropped only
  together and only on a CANCELLED row.  Rows are never deleted and keep their place.
\<close>

fun appt_rank :: "appt_status \<Rightarrow> nat" where
  "appt_rank StatusHeld = 0"
| "appt_rank StatusConfirmed = 1"
| "appt_rank StatusCancelled = 2"

definition appt_evolves :: "AppointmentRow \<Rightarrow> AppointmentRow \<Rightarrow> bool" where
  "appt_evolves r r' \<longleftrightarrow> ar_ID r' = ar_ID r \<and> ar_DealershipID r' = ar_DealershipID r \<and>
     ar_CustomerID r' = ar_CustomerID r \<and> ar_VehicleID r' = ar_VehicleID r \<and>
     ar_ServiceTypeID r' = ar_ServiceTypeID r \<and> ar_TechnicianID r' = ar_TechnicianID r \<and>
     ar_ServiceBayID r' = ar_ServiceBayID r \<and> ar_StartAt r' = ar_StartAt r \<and> ar_EndAt r' = ar_EndAt r \<and>
     appt_rank (ar_Status r) \<le> appt_rank (ar_Status r') \<and>
     (ar_Status r \<noteq> StatusHeld \<or> ar_Status r' = StatusHeld \<longrightarrow>
        ar_IdempotencyKey r' = ar_IdempotencyKey r \<and> ar_RequestFingerprint r' = ar_RequestFingerprint r) \<and>
     (ar_Status r' = StatusHeld \<longrightarrow> ar_HoldExpiresAt r' = ar_HoldExpiresAt r) \<and>
     (ar_TechOccupationID r' = ar_TechOccupationID r \<and> ar_BayOccupationID r' = ar_BayOccupationID r \<or>
      ar_Status r' = StatusCancelled \<and> ar_TechOccupationID r' = None \<and> ar_BayOccupationID r' = None)"

definition appts_evolve :: "AppointmentRow list \<Rightarrow> AppointmentRow list \<Rightarrow> bool" where
  "appts_evolve rows rows' \<longleftrightarrow> length rows \<le> length rows' \<and>
     (\<forall>i < length rows. appt_evolves (rows ! i) (rows' ! i))"

lemma appt_evolves_refl [simp]: "appt_evolves r r"
  by (simp add: appt_evolves_def)

lemma appt_evolves_trans: "appt_evolves a b \<Longrightarrow> appt_evolves b c \<Longrightarrow> appt_evolves a c"
  by (cases "ar_Status a"; cases "ar_Status b"; cases "ar_Status c") (auto simp: appt_evolves_def)

interpretation appts: guarantee "\<lambda>w w'. appts_evolve (f w) (f w')" for f
proof (unfold_locales, goal_cases)
  case (1 w)
  show ?case by (simp add: appts_evolve_def)
next
  case (2 u v w)
  then show ?case by (auto simp: appts_evolve_def intro: appt_evolves_trans order_trans)
qed

lemma appts_evolve_refl [simp]: "appts_evolve rows rows"
  by (simp add: appts_evolve_def)

lemma appts_evolve_update:
  "(\<And>r. P r \<Longrightarrow> appt_evolves r (f r)) \<Longrightarrow> appts_evolve rows (update_where P f rows)"
  by (auto simp: appts_evolve_def update_where_def)

lemma appts_evolve_append: "appts_evolve rows (rows @ new)"
  by (auto simp: appts_evolve_def nth_append)

section \<open>What is true of the table\<close>

text \<open>
  Primary key and \<open>CHECK\<close>, the partial unique index on confirmed keys, and two facts no
  constraint states: an expiry is present exactly while the row is HELD, and a HELD row has no
  key.
\<close>

definition row_ok :: "AppointmentRow \<Rightarrow> bool" where
  "row_ok r \<longleftrightarrow> ar_StartAt r < ar_EndAt r \<and> (ar_HoldExpiresAt r \<noteq> None \<longleftrightarrow> held r) \<and>
     (held r \<longrightarrow> ar_IdempotencyKey r = None \<and> ar_RequestFingerprint r = None) \<and>
     ar_IdempotencyKey r \<noteq> Some ''''"

definition keys_unique :: "AppointmentRow list \<Rightarrow> bool" where
  "keys_unique rows \<longleftrightarrow> (\<forall>r \<in> set rows. \<forall>r2 \<in> set rows. \<forall>key. has_key key r \<and> has_key key r2 \<longrightarrow> r = r2)"

definition appts_ok :: "AppointmentRow list \<Rightarrow> bool" where
  "appts_ok rows \<longleftrightarrow> distinct (map ar_ID rows) \<and> list_all row_ok rows \<and> keys_unique rows"

lemma appts_okI:
  "distinct (map ar_ID rows) \<Longrightarrow> (\<And>r. r \<in> set rows \<Longrightarrow> row_ok r) \<Longrightarrow> keys_unique rows \<Longrightarrow> appts_ok rows"
  by (simp add: appts_ok_def list_all_iff)

lemma appts_ok_distinct: "appts_ok rows \<Longrightarrow> distinct (map ar_ID rows)"
  by (simp add: appts_ok_def)

text \<open>An update that keeps ids, keeps rows well-formed and gives no row a key preserves all of it.\<close>

lemma appts_ok_update:
  assumes "appts_ok rows" and "\<And>r. ar_ID (f r) = ar_ID r"
    and "\<And>r. r \<in> set rows \<Longrightarrow> P r \<Longrightarrow> row_ok (f r)"
    and "\<And>r key. P r \<Longrightarrow> \<not> has_key key (f r)"
  shows "appts_ok (update_where P f rows)"
proof (rule appts_okI)
  show "distinct (map ar_ID (update_where P f rows))"
    using assms(1) map_update_where [of ar_ID f P rows] by (simp add: assms(2) appts_ok_def)
  show "row_ok r" if "r \<in> set (update_where P f rows)" for r
    using that assms(1,3) by (auto simp: appts_ok_def list_all_iff elim!: in_update_whereE)
  show "keys_unique (update_where P f rows)"
    using assms(1,4) unfolding appts_ok_def keys_unique_def
    by (metis (mono_tags, lifting) in_update_whereE)
qed

lemma appts_ok_insert:
  assumes "appts_ok rows" and "insert_appt ext r now rows = Inr rows'" and "ar_Status r = StatusHeld"
  shows "appts_ok rows'"
proof -
  from assms(2) obtain n where n: "stored_row ext r now = Some n" "ar_StartAt n < ar_EndAt n"
      "ar_ID n \<notin> set (map ar_ID rows)" "rows' = rows @ [n]"
    by (auto simp: insert_appt_def split: option.splits if_splits)
  have "row_ok n" "\<not> has_key key n" for key
    using n(1,2) assms(3)
    by (auto simp: stored_row_def row_ok_def held_def has_key_def split: option.splits)
  then show ?thesis
    using assms(1) n(3,4) by (auto simp: appts_ok_def keys_unique_def list_all_iff)
qed

lemma row_ok_promote: "row_ok r \<Longrightarrow> held r \<Longrightarrow> row_ok (promote_row key fp r)"
  by (auto simp: row_ok_def promote_row_def held_def nullif_empty_def)

lemma appts_ok_promote:
  assumes "appts_ok rows" and "promote_appts u key fp rows = Inr (r, rows')"
  shows "appts_ok rows'"
proof (rule appts_okI)
  have rows': "rows' = update_where (\<lambda>r. ar_ID r = u \<and> held r) (promote_row key fp) rows"
    and fresh: "key \<noteq> '''' \<longrightarrow> \<not> (\<exists>r2 \<in> set rows. has_key key r2)"
    using assms(2) by (auto simp: promote_appts_def split: option.splits if_splits)
  show "distinct (map ar_ID rows')"
    using assms(1) by (simp add: rows' promoting.keys_kept appts_ok_def)
  show "row_ok x" if "x \<in> set rows'" for x
    using that assms(1) by (auto simp: rows' appts_ok_def list_all_iff row_ok_promote elim!: in_update_whereE)
  have hk: "has_key k (promote_row key fp x) \<longleftrightarrow> key \<noteq> '''' \<and> k = key" for k x
    by (auto simp: has_key_def promote_row_def nullif_empty_def)
  have one: "x = y" if "x \<in> set rows" "y \<in> set rows" "ar_ID x = u" "ar_ID y = u" for x y
    using distinct_key_eq [OF appts_ok_distinct [OF assms(1)] that(1,2)] that by simp
  show "keys_unique rows'"
    unfolding keys_unique_def rows'
  proof (intro ballI allI impI, elim conjE in_update_whereE)
    fix r1 r2 k x y
    assume k: "has_key k r1" "has_key k r2" and xy: "x \<in> set rows" "y \<in> set rows"
      and r1: "r1 = (if ar_ID x = u \<and> held x then promote_row key fp x else x)"
      and r2: "r2 = (if ar_ID y = u \<and> held y then promote_row key fp y else y)"
    show "r1 = r2"
      using k fresh one [OF xy] assms(1) xy unfolding r1 r2
      by (auto simp: hk appts_ok_def keys_unique_def split: if_splits)
  qed
qed

lemma row_ok_cancel: "row_ok r \<Longrightarrow> row_ok (cancel_row r)"
  by (auto simp: row_ok_def cancel_row_def held_def)

lemma appts_ok_row: "appts_ok rows \<Longrightarrow> r \<in> set rows \<Longrightarrow> row_ok r"
  by (simp add: appts_ok_def list_all_iff)

lemma appts_ok_cancel:
  assumes "appts_ok rows" shows "appts_ok (update_where P cancel_row rows)"
  by (rule appts_ok_update [OF assms])
    (auto simp: row_ok_cancel appts_ok_row [OF assms], simp_all add: cancel_row_def has_key_def)

lemma appts_ok_clear:
  assumes "appts_ok rows" shows "appts_ok (update_where (\<lambda>r. ar_ID r = u \<and> cancelled r) clear_row rows)"
  by (rule appts_ok_update [OF assms], use appts_ok_row [OF assms] in
    \<open>auto simp: row_ok_def clear_row_def cancelled_def held_def has_key_def\<close>)

section \<open>Every statement respects both\<close>

definition appts_rel :: "AppointmentRow list \<Rightarrow> AppointmentRow list \<Rightarrow> bool" where
  "appts_rel rows rows' \<longleftrightarrow> (appts_ok rows \<longrightarrow> appts_ok rows' \<and> appts_evolve rows rows')"

interpretation appts_rel: guarantee "\<lambda>w w'. appts_rel (f w) (f w')" for f
  by unfold_locales (auto simp: appts_rel_def intro: appts.trans [where f = "\<lambda>x. x"])

lemma appts_rel_refl [simp]: "appts_rel rows rows"
  by (simp add: appts_rel_def)

lemma appts_rel_insert:
  "insert_appt ext r now rows = Inr rows' \<Longrightarrow> ar_Status r = StatusHeld \<Longrightarrow> appts_rel rows rows'"
  unfolding appts_rel_def using appts_ok_insert [of rows ext r now rows']
  by (auto simp: insert_appt_def appts_evolve_append split: option.splits if_splits)

lemma appts_rel_promote: "promote_appts u key fp rows = Inr (r, rows') \<Longrightarrow> appts_rel rows rows'"
  unfolding appts_rel_def using appts_ok_promote [of rows u key fp r rows']
  by (auto simp: promote_appts_def appt_evolves_def promote_row_def held_def
      split: option.splits if_splits intro!: appts_evolve_update)

lemma appt_rank_le: "appt_rank s \<le> 2"
  by (cases s) simp_all

lemma appts_rel_cancel:
  "(\<And>r. P r \<Longrightarrow> live_appt r) \<Longrightarrow> appts_rel rows (update_where P cancel_row rows)"
  unfolding appts_rel_def
  by (intro conjI impI appts_ok_cancel appts_evolve_update)
    (auto simp: appt_evolves_def cancel_row_def live_appt_def appt_rank_le)

text \<open>The sweep updates by id; the ids it picked are those of held rows.\<close>

lemma sweep_ids_held:
  "i \<in> set (sweep_ids now busy limit rows) \<Longrightarrow> \<exists>r \<in> set rows. ar_ID r = i \<and> sweepable now busy r"
  by (auto simp: sweep_ids_def dest!: in_set_takeD)

lemma sweep_ids_only_held:
  assumes "appts_ok rows"
  shows "update_where (\<lambda>r. ar_ID r \<in> set (sweep_ids now busy limit rows)) cancel_row rows =
     update_where (\<lambda>r. ar_ID r \<in> set (sweep_ids now busy limit rows) \<and> held r) cancel_row rows"
proof (rule update_where_cong)
  fix r assume r: "r \<in> set rows"
  show "(ar_ID r \<in> set (sweep_ids now busy limit rows)) = (ar_ID r \<in> set (sweep_ids now busy limit rows) \<and> held r)"
    using sweep_ids_held [of "ar_ID r" now busy limit rows]
      distinct_key_eq [OF appts_ok_distinct [OF assms] _ r] by (fastforce simp: sweepable_def)
qed simp

lemma appts_rel_sweep:
  "appts_rel rows (update_where (\<lambda>r. ar_ID r \<in> set (sweep_ids now busy limit rows)) cancel_row rows)"
proof (cases "appts_ok rows")
  case True
  have "appts_rel rows (update_where (\<lambda>r. ar_ID r \<in> set (sweep_ids now busy limit rows) \<and> held r) cancel_row rows)"
    by (rule appts_rel_cancel) (simp add: held_def live_appt_def)
  then show ?thesis by (simp only: sweep_ids_only_held [OF True])
qed (simp add: appts_rel_def)

lemma appts_rel_clear: "appts_rel rows (update_where (\<lambda>r. ar_ID r = u \<and> cancelled r) clear_row rows)"
  unfolding appts_rel_def
  by (intro conjI impI appts_ok_clear appts_evolve_update)
    (auto simp: appt_evolves_def clear_row_def cancelled_def)

lemma keeps_stmts [preserve]:
  "keeps (InsertHeld ext r) appts_rel" "keeps (get_stmt ext i) appts_rel"
  "keeps (GetConfirmedByIdempotencyKey key) appts_rel" "keeps (Promote ext i key fp) appts_rel"
  "keeps (cancel_stmt ext i) appts_rel" "keeps (SweepBatch n) appts_rel"
  "keeps (ListCancelledNeedingRelease n) appts_rel" "keeps (ClearOccupationIDs ext i) appts_rel"
proof -
  note clear = appts_rel_clear appts_rel_cancel appts_rel_sweep
  show "keeps (InsertHeld ext r) appts_rel"
    unfolding InsertHeld_def mint_uuid_def
    by (auto simp: Let_def split: sum.splits
        intro!: keeps_andthen keeps_atomic keeps_sql keeps_time_now elim!: appts_rel_insert)
  show "keeps (Promote ext i key fp) appts_rel"
    unfolding Promote_def promote_stmt_def
    by (auto split: sum.splits option.splits intro!: keeps_andthen keeps_sql intro: appts_rel_promote)
  show "keeps (cancel_stmt ext i) appts_rel" "keeps (ClearOccupationIDs ext i) appts_rel"
    "keeps (get_stmt ext i) appts_rel"
    unfolding cancel_stmt_def ClearOccupationIDs_def get_stmt_def
    by (auto split: option.splits intro!: keeps_sql clear)
  show "keeps (GetConfirmedByIdempotencyKey key) appts_rel" "keeps (SweepBatch n) appts_rel"
    "keeps (ListCancelledNeedingRelease n) appts_rel"
    unfolding GetConfirmedByIdempotencyKey_def SweepBatch_def ListCancelledNeedingRelease_def
    by (auto simp: Let_def intro!: keeps_sql clear)
qed

section \<open>The sweep\<close>

definition expiry :: "AppointmentRow \<Rightarrow> int" where
  "expiry r = (case ar_HoldExpiresAt r of None \<Rightarrow> 0 | Some t \<Rightarrow> t)"

lemma take_sort_key_least:
  assumes "x \<in> set (take n (sort_key k xs))" and "y \<in> set (drop n (sort_key k xs))"
  shows "k x \<le> k y"
proof -
  have "sorted (map k (take n (sort_key k xs) @ drop n (sort_key k xs)))" by simp
  with assms show ?thesis by (auto simp only: map_append sorted_append set_map)
qed

lemma sweep_ids_pick:
  assumes "distinct (map ar_ID rows)"
  shows "set (filter (\<lambda>r. ar_ID r \<in> set (sweep_ids now busy n rows)) rows) =
    set (take n (sort_key expiry (filter (sweepable now busy) rows)))" (is "?chosen = set ?taken")
proof (intro equalityI subsetI)
  fix r assume "r \<in> ?chosen"
  then obtain r2 where r2: "r \<in> set rows" "r2 \<in> set ?taken" "ar_ID r2 = ar_ID r"
    by (auto simp: sweep_ids_def expiry_def [abs_def])
  then have "r2 \<in> set rows" by (auto dest: in_set_takeD)
  with r2 show "r \<in> set ?taken" using distinct_key_eq [OF assms r2(1)] by metis
qed (auto simp: sweep_ids_def expiry_def [abs_def] dest: in_set_takeD)

lemma sweep_ids_count:
  assumes "distinct (map ar_ID rows)"
  shows "length (filter (\<lambda>r. ar_ID r \<in> set (sweep_ids now busy n rows)) rows) =
    min n (length (filter (sweepable now busy) rows))"
proof -
  have dr: "distinct rows" using assms by (simp add: distinct_map)
  have "length (filter (\<lambda>r. ar_ID r \<in> set (sweep_ids now busy n rows)) rows) =
      card (set (take n (sort_key expiry (filter (sweepable now busy) rows))))"
    unfolding sweep_ids_pick [OF assms, symmetric] by (rule distinct_card [symmetric]) (simp add: dr)
  then show ?thesis by (subst (asm) distinct_card) (simp_all add: dr)
qed

lemma sweep_ids_least:
  assumes "distinct (map ar_ID rows)" and "c \<in> set rows" "ar_ID c \<in> set (sweep_ids now busy n rows)"
    and "r \<in> set rows" "ar_ID r \<notin> set (sweep_ids now busy n rows)" "sweepable now busy r"
  shows "expiry c \<le> expiry r"
proof (rule take_sort_key_least [where k = expiry])
  let ?sorted = "sort_key expiry (filter (sweepable now busy) rows)"
  note pick = sweep_ids_pick [OF assms(1), of now busy n]
  show "c \<in> set (take n ?sorted)" unfolding pick [symmetric] using assms(2,3) by simp
  have "r \<notin> set (take n ?sorted)" unfolding pick [symmetric] using assms(5) by simp
  moreover have "r \<in> set (take n ?sorted @ drop n ?sorted)" using assms(4,6) by simp
  ultimately show "r \<in> set (drop n ?sorted)" by (simp del: append_take_drop_id)
qed

text \<open>
  C34: A sweep cancels expired holds and nothing else, at most \<open>limit\<close> of them, earliest expiry
  first (no hold left behind expired earlier than one it took), skips rows locked by another
  transaction, takes all that qualify when there are fewer than \<open>limit\<close>, and returns exactly the
  rows it cancelled.
\<close>

theorem SweepBatch_earliest_first:
  assumes "appts_ok rows" and "faults (cs 0) SweepSQL = Deliver"
  shows "\<exists>chosen. run (SweepBatch limit) cs rows =
      (Inr (map cancel_row chosen), map (\<lambda>r. if r \<in> set chosen then cancel_row r else r) rows) \<and>
    set chosen \<subseteq> set rows \<and> list_all (sweepable (db_now (cs 0)) (locked (cs 0))) chosen \<and>
    length chosen = min limit (length (filter (sweepable (db_now (cs 0)) (locked (cs 0))) rows)) \<and>
    (\<forall>r \<in> set rows - set chosen. sweepable (db_now (cs 0)) (locked (cs 0)) r \<longrightarrow>
       (\<forall>c \<in> set chosen. expiry c \<le> expiry r))"
proof -
  let ?P = "sweepable (db_now (cs 0)) (locked (cs 0))"
  let ?ids = "sweep_ids (db_now (cs 0)) (locked (cs 0)) limit rows"
  let ?chosen = "filter (\<lambda>r. ar_ID r \<in> set ?ids) rows"
  have dist: "distinct (map ar_ID rows)" using assms(1) by (rule appts_ok_distinct)
  have "run (SweepBatch limit) cs rows =
      (Inr (map cancel_row ?chosen), update_where (\<lambda>r. ar_ID r \<in> set ?ids) cancel_row rows)"
    using assms(2) by (simp add: SweepBatch_def sql_def atomic_def Let_def)
  also have "update_where (\<lambda>r. ar_ID r \<in> set ?ids) cancel_row rows =
      map (\<lambda>r. if r \<in> set ?chosen then cancel_row r else r) rows"
    by (auto simp: update_where_def)
  finally have run: "run (SweepBatch limit) cs rows = (Inr (map cancel_row ?chosen), \<dots>)" .
  have all: "list_all ?P ?chosen"
    unfolding list_all_iff sweep_ids_pick [OF dist] by (auto dest: in_set_takeD)
  show ?thesis
    by (intro exI [of _ ?chosen] conjI run all sweep_ids_count [OF dist])
      (auto intro: sweep_ids_least [OF dist])
qed

section \<open>A concrete instance\<close>

definition demo_appt :: "string \<Rightarrow> instant \<Rightarrow> AppointmentRow" where
  "demo_appt i expires = \<lparr>ar_ID = i, ar_DealershipID = ''D'', ar_CustomerID = ''C'', ar_VehicleID = ''V'',
     ar_ServiceTypeID = ''S'', ar_TechnicianID = Some ''T'', ar_ServiceBayID = Some ''B'',
     ar_TechOccupationID = Some ''O'', ar_BayOccupationID = Some ''O'',
     ar_StartAt = monday + 540 * microseconds_per_minute, ar_EndAt = monday + 570 * microseconds_per_minute,
     ar_Status = StatusHeld, ar_HoldExpiresAt = Some expires,
     ar_IdempotencyKey = None, ar_RequestFingerprint = None\<rparr>"

lemma SweepBatch_earliest_first_witness:
  "\<exists>chosen. run (SweepBatch 1) demo_cs [demo_appt ''a'' (monday - 1), demo_appt ''b'' (monday - 2)] =
      (Inr (map cancel_row chosen),
       map (\<lambda>r. if r \<in> set chosen then cancel_row r else r) [demo_appt ''a'' (monday - 1), demo_appt ''b'' (monday - 2)]) \<and>
    set chosen \<subseteq> set [demo_appt ''a'' (monday - 1), demo_appt ''b'' (monday - 2)] \<and>
    list_all (sweepable (db_now (demo_cs 0)) (locked (demo_cs 0))) chosen \<and>
    length chosen = min 1 (length (filter (sweepable (db_now (demo_cs 0)) (locked (demo_cs 0)))
      [demo_appt ''a'' (monday - 1), demo_appt ''b'' (monday - 2)])) \<and>
    (\<forall>r \<in> set [demo_appt ''a'' (monday - 1), demo_appt ''b'' (monday - 2)] - set chosen.
       sweepable (db_now (demo_cs 0)) (locked (demo_cs 0)) r \<longrightarrow> (\<forall>c \<in> set chosen. expiry c \<le> expiry r))"
  by (rule SweepBatch_earliest_first)
    (auto simp: appts_ok_def demo_appt_def row_ok_def held_def keys_unique_def has_key_def demo_cs_def demo_choice_def)

end
