(* ===== verification/CatalogClient.thy ===== *)
theory CatalogClient
  imports Booking
begin

text \<open>
  Booking's fail-closed Catalog client (\<open>services/booking/catalog_client.go\<close>): three GETs, their
  JSON bodies decoded into the client's structures, and the snapshot the write path uses.  A
  response is whatever the environment's choice says; \<open>None\<close> is a request that could not be
  built or sent.
\<close>

section \<open>Structures\<close>

record OpeningHours =
  oh_Weekday :: int
  oh_OpenMinutes :: int
  oh_CloseMinutes :: int

record Snapshot =
  sn_DealershipID :: string
  sn_Timezone :: string
  sn_OpeningHours :: "int \<Rightarrow> OpeningHours option"
  sn_ServiceTypeOK :: bool
  sn_VehicleBelongs :: bool

record dealershipDTO =
  dd_ID :: string
  dd_Name :: string
  dd_Timezone :: string
  dd_OpeningHours :: "OpeningHours list"

record serviceTypeDTO =
  sd_ID :: string

record vehicleDTO =
  vd_ID :: string
  vd_CustomerID :: string

datatype catalog_error = errCatalogNotFound | errCatalogDown

fun catalog_text :: "catalog_error \<Rightarrow> string" where
  "catalog_text errCatalogNotFound = ''catalog resource not found''"
| "catalog_text errCatalogDown = ''catalog unavailable''"

section \<open>Decoding\<close>

text \<open>
  \<open>encoding/json\<close> into a struct: keys match field names without regard to case (ASCII letters,
  and the two other runes that fold onto them, U+017F and U+212A), unknown keys are skipped, the
  last matching key wins, \<open>null\<close> leaves the field alone, a value of another type is an error.
\<close>

definition ascii_lower :: "char \<Rightarrow> char" where
  "ascii_lower c = (if 65 \<le> (of_char c :: nat) \<and> (of_char c :: nat) \<le> 90 then char_of ((of_char c :: nat) + 32) else c)"

fun fold_name :: "string \<Rightarrow> string" where
  "fold_name [] = []"
| "fold_name (c # s) =
     (if c = CHR 0xC5 \<and> take 1 s = [CHR 0xBF] then CHR ''s'' # fold_name (drop 1 s)
      else if c = CHR 0xE2 \<and> take 2 s = [CHR 0x84, CHR 0xAA] then CHR ''k'' # fold_name (drop 2 s)
      else ascii_lower c # fold_name s)"

definition field_values :: "string \<Rightarrow> (string \<times> json) list \<Rightarrow> json list" where
  "field_values name fs = map snd (filter (\<lambda>(k, v). fold_name k = fold_name name) fs)"

fun decode_string :: "string \<Rightarrow> json \<Rightarrow> string option" where
  "decode_string old JNull = Some old"
| "decode_string old (JString s) = Some s"
| "decode_string old v = None"

fun decode_int :: "int \<Rightarrow> json \<Rightarrow> int option" where
  "decode_int old JNull = Some old"
| "decode_int old (JInt n) = (if - (2 ^ 63) \<le> n \<and> n < 2 ^ 63 then Some n else None)"
| "decode_int old v = None"

fun decode_field :: "('a \<Rightarrow> json \<Rightarrow> 'a option) \<Rightarrow> 'a \<Rightarrow> json list \<Rightarrow> 'a option" where
  "decode_field dec old [] = Some old"
| "decode_field dec old (v # vs) =
     (case dec old v of None \<Rightarrow> None | Some x \<Rightarrow> decode_field dec x vs)"

fun decode_all :: "(json \<Rightarrow> 'a option) \<Rightarrow> json list \<Rightarrow> 'a list option" where
  "decode_all dec [] = Some []"
| "decode_all dec (v # vs) =
     (case (dec v, decode_all dec vs) of (Some x, Some xs) \<Rightarrow> Some (x # xs) | _ \<Rightarrow> None)"

fun decode_slice :: "(json \<Rightarrow> 'a option) \<Rightarrow> 'a list \<Rightarrow> json \<Rightarrow> 'a list option" where
  "decode_slice dec old JNull = Some []"
| "decode_slice dec old (JArray vs) = decode_all dec vs"
| "decode_slice dec old v = None"

text \<open>The fields of a struct value: of an object its pairs, of \<open>null\<close> none.\<close>

fun struct_fields :: "json \<Rightarrow> (string \<times> json) list option" where
  "struct_fields JNull = Some []"
| "struct_fields (JObject fs) = Some fs"
| "struct_fields v = None"

definition decode_hours :: "json \<Rightarrow> OpeningHours option" where
  "decode_hours v =
     (case struct_fields v of
        None \<Rightarrow> None
      | Some fs \<Rightarrow>
          (case (decode_field decode_int 0 (field_values ''weekday'' fs),
                 decode_field decode_int 0 (field_values ''openMinutes'' fs),
                 decode_field decode_int 0 (field_values ''closeMinutes'' fs)) of
             (Some d, Some m, Some n) \<Rightarrow> Some \<lparr>oh_Weekday = d, oh_OpenMinutes = m, oh_CloseMinutes = n\<rparr>
           | _ \<Rightarrow> None))"

definition decode_dealership :: "json \<Rightarrow> dealershipDTO option" where
  "decode_dealership v =
     (case struct_fields v of
        None \<Rightarrow> None
      | Some fs \<Rightarrow>
          (case (decode_field decode_string '''' (field_values ''id'' fs),
                 decode_field decode_string '''' (field_values ''name'' fs),
                 decode_field decode_string '''' (field_values ''timezone'' fs),
                 decode_field (decode_slice decode_hours) [] (field_values ''openingHours'' fs)) of
             (Some i, Some n, Some z, Some hs) \<Rightarrow>
               Some \<lparr>dd_ID = i, dd_Name = n, dd_Timezone = z, dd_OpeningHours = hs\<rparr>
           | _ \<Rightarrow> None))"

definition decode_service_type :: "json \<Rightarrow> serviceTypeDTO option" where
  "decode_service_type v =
     (case struct_fields v of
        None \<Rightarrow> None
      | Some fs \<Rightarrow> map_option (\<lambda>i. \<lparr>sd_ID = i\<rparr>) (decode_field decode_string '''' (field_values ''id'' fs)))"

definition decode_vehicle :: "json \<Rightarrow> vehicleDTO option" where
  "decode_vehicle v =
     (case struct_fields v of
        None \<Rightarrow> None
      | Some fs \<Rightarrow>
          (case (decode_field decode_string '''' (field_values ''id'' fs),
                 decode_field decode_string '''' (field_values ''customerId'' fs)) of
             (Some i, Some c) \<Rightarrow> Some \<lparr>vd_ID = i, vd_CustomerID = c\<rparr>
           | _ \<Rightarrow> None))"

section \<open>GET\<close>

text \<open>The read loop of \<open>get\<close>: it stops at the first read of nothing or with an error.\<close>

fun read_body :: "(string \<times> bool) list \<Rightarrow> string" where
  "read_body [] = []"
| "read_body ((chunk, err) # reads) = chunk @ (if chunk = [] \<or> err then [] else read_body reads)"

text \<open>What a \<open>json.Decoder\<close> reads of a body: everything up to the first error.\<close>

fun stream_text :: "(string \<times> bool) list \<Rightarrow> string" where
  "stream_text [] = []"
| "stream_text ((chunk, err) # reads) = chunk @ (if err then [] else stream_text reads)"

definition catalog_get :: "string \<Rightarrow> ('w, string option) prog" where
  "catalog_get path = atomic (\<lambda>c w.
     (case catalog_reply c path of
        None \<Rightarrow> None
      | Some resp \<Rightarrow> if hr_status resp \<noteq> 200 then None else Some (read_body (hr_reads resp)), w))"

definition catalog_do :: "string \<Rightarrow> ('w, http_resp option) prog" where
  "catalog_do path = atomic (\<lambda>c w. (catalog_reply c path, w))"

section \<open>The snapshot\<close>

text \<open>\<open>snap.OpeningHours[h.Weekday] = h\<close> in order: the last entry of a weekday stays.\<close>

definition hours_map :: "OpeningHours list \<Rightarrow> int \<Rightarrow> OpeningHours option" where
  "hours_map hs = foldl (\<lambda>m h. m(oh_Weekday h := Some h)) (\<lambda>_. None) hs"

definition dealer_snapshot :: "string \<Rightarrow> dealershipDTO list \<Rightarrow> Snapshot option" where
  "dealer_snapshot dealershipID dealers =
     map_option (\<lambda>d. \<lparr>sn_DealershipID = dd_ID d, sn_Timezone = dd_Timezone d,
         sn_OpeningHours = hours_map (dd_OpeningHours d), sn_ServiceTypeOK = False, sn_VehicleBelongs = False\<rparr>)
       (select_one (\<lambda>d. dd_ID d = dealershipID) dealers)"

definition decode_body :: "(string \<Rightarrow> json option) \<Rightarrow> (json \<Rightarrow> 'a option) \<Rightarrow> string \<Rightarrow> 'a list option" where
  "decode_body syntax1 dec body =
     (case syntax1 body of None \<Rightarrow> None | Some v \<Rightarrow> decode_slice dec [] v)"

definition vehicles_path :: "string \<Rightarrow> string" where
  "vehicles_path customerID = ''/customers/'' @ customerID @ ''/vehicles''"

definition snapshot_vehicle ::
  "go_ext \<Rightarrow> Snapshot \<Rightarrow> string \<Rightarrow> http_resp option \<Rightarrow> catalog_error + Snapshot" where
  "snapshot_vehicle go snap vehicleID res =
     (case res of
        None \<Rightarrow> Inl errCatalogDown
      | Some hres \<Rightarrow>
          if hr_status hres = 404 then Inl errCatalogNotFound
          else if hr_status hres \<noteq> 200 then Inl errCatalogDown
          else (case decode_body (json_prefix go) decode_vehicle (stream_text (hr_reads hres)) of
                  None \<Rightarrow> Inl errCatalogDown
                | Some vehicles \<Rightarrow>
                    if \<exists>v \<in> set vehicles. vd_ID v = vehicleID
                    then Inr (snap\<lparr>sn_VehicleBelongs := True\<rparr>)
                    else Inl errCatalogNotFound))"

definition take_snapshot ::
  "go_ext \<Rightarrow> string \<Rightarrow> string \<Rightarrow> string \<Rightarrow> string \<Rightarrow> ('w, catalog_error + Snapshot) prog" where
  "take_snapshot go dealershipID serviceTypeID customerID vehicleID =
     andthen (catalog_get ''/dealerships'') (\<lambda>resp.
       case resp of
         None \<Rightarrow> Ret (Inl errCatalogDown)
       | Some body \<Rightarrow>
           (case decode_body (json_text go) decode_dealership body of
              None \<Rightarrow> Ret (Inl errCatalogDown)
            | Some dealers \<Rightarrow>
                (case dealer_snapshot dealershipID dealers of
                   None \<Rightarrow> Ret (Inl errCatalogNotFound)
                 | Some snap \<Rightarrow>
                     andthen (catalog_get ''/service-types'') (\<lambda>resp.
                       case resp of
                         None \<Rightarrow> Ret (Inl errCatalogDown)
                       | Some body \<Rightarrow>
                           (case decode_body (json_text go) decode_service_type body of
                              None \<Rightarrow> Ret (Inl errCatalogDown)
                            | Some types \<Rightarrow>
                                if \<exists>st \<in> set types. sd_ID st = serviceTypeID
                                then andthen (catalog_do (vehicles_path customerID)) (\<lambda>res.
                                       Ret (snapshot_vehicle go (snap\<lparr>sn_ServiceTypeOK := True\<rparr>) vehicleID res))
                                else Ret (Inl errCatalogNotFound))))))"

section \<open>Fail closed\<close>

lemma run_catalog_get [simp]:
  "run (andthen (catalog_get path) h) cs w =
     run (h (case catalog_reply (cs 0) path of
        None \<Rightarrow> None
      | Some resp \<Rightarrow> if hr_status resp \<noteq> 200 then None else Some (read_body (hr_reads resp)))) (\<lambda>n. cs (Suc n)) w"
  by (simp add: catalog_get_def)

lemma hours_map_last:
  "hours_map hs d = (case filter (\<lambda>h. oh_Weekday h = d) hs of [] \<Rightarrow> None | x # xs \<Rightarrow> Some (last (x # xs)))"
proof (induction hs rule: rev_induct)
  case (snoc h hs)
  then show ?case
    by (cases "filter (\<lambda>h. oh_Weekday h = d) hs") (auto simp: hours_map_def)
qed (simp add: hours_map_def)

text \<open>
  C29: The snapshot fails closed: it is returned only if all three GETs were answered 200 with
  bodies that decode, the dealership and the service type are listed and the vehicle is among
  the customer's; it then carries that dealership's zone and, for every weekday, the last hours
  entry of the list.  Any other answer, at any of the three steps, is an error.
\<close>

theorem snapshot_fails_closed:
  assumes "run (take_snapshot go dealershipID serviceTypeID customerID vehicleID) cs w = (Inr snap, w')"
  shows "w' = w \<and> (\<exists>r1 r2 r3 dealers types vehicles d.
    catalog_reply (cs 0) ''/dealerships'' = Some r1 \<and> hr_status r1 = 200 \<and>
    decode_body (json_text go) decode_dealership (read_body (hr_reads r1)) = Some dealers \<and>
    d \<in> set dealers \<and> dd_ID d = dealershipID \<and>
    catalog_reply (cs 1) ''/service-types'' = Some r2 \<and> hr_status r2 = 200 \<and>
    decode_body (json_text go) decode_service_type (read_body (hr_reads r2)) = Some types \<and>
    serviceTypeID \<in> set (map sd_ID types) \<and>
    catalog_reply (cs 2) (''/customers/'' @ customerID @ ''/vehicles'') = Some r3 \<and> hr_status r3 = 200 \<and>
    decode_body (json_prefix go) decode_vehicle (stream_text (hr_reads r3)) = Some vehicles \<and>
    vehicleID \<in> set (map vd_ID vehicles) \<and>
    snap = \<lparr>sn_DealershipID = dealershipID, sn_Timezone = dd_Timezone d,
      sn_OpeningHours = (\<lambda>weekday. case filter (\<lambda>h. oh_Weekday h = weekday) (dd_OpeningHours d) of
         [] \<Rightarrow> None | x # xs \<Rightarrow> Some (last (x # xs))),
      sn_ServiceTypeOK = True, sn_VehicleBelongs = True\<rparr>)"
proof -
  have hm: "hours_map hs = (\<lambda>weekday. case filter (\<lambda>h. oh_Weekday h = weekday) hs of
         [] \<Rightarrow> None | x # xs \<Rightarrow> Some (last (x # xs)))" for hs
    by (rule ext) (rule hours_map_last)
  from assms obtain r1 r2 r3 dealers types vehicles d where
    "w' = w" "catalog_reply (cs 0) ''/dealerships'' = Some r1" "hr_status r1 = 200"
    "decode_body (json_text go) decode_dealership (read_body (hr_reads r1)) = Some dealers"
    "d \<in> set dealers" "dd_ID d = dealershipID"
    "catalog_reply (cs 1) ''/service-types'' = Some r2" "hr_status r2 = 200"
    "decode_body (json_text go) decode_service_type (read_body (hr_reads r2)) = Some types"
    "serviceTypeID \<in> set (map sd_ID types)"
    "catalog_reply (cs 2) (vehicles_path customerID) = Some r3" "hr_status r3 = 200"
    "decode_body (json_prefix go) decode_vehicle (stream_text (hr_reads r3)) = Some vehicles"
    "vehicleID \<in> set (map vd_ID vehicles)"
    "snap = \<lparr>sn_DealershipID = dd_ID d, sn_Timezone = dd_Timezone d,
         sn_OpeningHours = hours_map (dd_OpeningHours d), sn_ServiceTypeOK = True, sn_VehicleBelongs = True\<rparr>"
    by (auto simp: take_snapshot_def catalog_do_def dealer_snapshot_def snapshot_vehicle_def numeral_2_eq_2
        split: option.splits if_splits dest!: select_one_Some)
  then show ?thesis
    unfolding vehicles_path_def hm
    by (intro conjI exI [of _ r1] exI [of _ r2] exI [of _ r3] exI [of _ dealers] exI [of _ types]
        exI [of _ vehicles] exI [of _ d]) simp_all
qed

section \<open>A concrete instance\<close>

text \<open>A Catalog that answers with the bodies \<open>D\<close>, \<open>S\<close> and \<open>V\<close>, whose syntax \<open>demo_go\<close> knows.\<close>

definition demo_catalog :: "string \<Rightarrow> http_resp option" where
  "demo_catalog path =
     (if path = ''/dealerships'' then Some \<lparr>hr_status = 200, hr_reads = [(''D'', False), ('''', True)]\<rparr>
      else if path = ''/service-types'' then Some \<lparr>hr_status = 200, hr_reads = [(''S'', True)]\<rparr>
      else if path = ''/customers/C/vehicles'' then Some \<lparr>hr_status = 200, hr_reads = [(''V'', False)]\<rparr>
      else None)"

definition demo_open :: "nat \<Rightarrow> choice" where
  "demo_open n = (demo_choice (monday + int n) ''O'')\<lparr>catalog_reply := demo_catalog,
     entropy := (\<lambda>_. of_nat n)\<rparr>"

definition demo_snap :: Snapshot where
  "demo_snap = \<lparr>sn_DealershipID = ''D'', sn_Timezone = ''UTC'',
     sn_OpeningHours = hours_map [\<lparr>oh_Weekday = 1, oh_OpenMinutes = 480, oh_CloseMinutes = 1080\<rparr>],
     sn_ServiceTypeOK = True, sn_VehicleBelongs = True\<rparr>"

lemma demo_snapshot: "run (take_snapshot demo_go ''D'' ''S'' ''C'' ''V'') demo_open w = (Inr demo_snap, w)"
proof -
  have "decode_body (json_text demo_go) decode_dealership ''D'' = Some [\<lparr>dd_ID = ''D'', dd_Name = '''',
      dd_Timezone = ''UTC'', dd_OpeningHours = [\<lparr>oh_Weekday = 1, oh_OpenMinutes = 480, oh_CloseMinutes = 1080\<rparr>]\<rparr>]"
    "decode_body (json_text demo_go) decode_service_type ''S'' = Some [\<lparr>sd_ID = ''S''\<rparr>]"
    "decode_body (json_prefix demo_go) decode_vehicle ''V'' = Some [\<lparr>vd_ID = ''V'', vd_CustomerID = ''C''\<rparr>]"
    by code_simp+
  then show ?thesis
    by (simp add: take_snapshot_def demo_open_def demo_catalog_def demo_choice_def dealer_snapshot_def
        catalog_do_def snapshot_vehicle_def vehicles_path_def demo_snap_def)
qed

lemma snapshot_fails_closed_witness:
  "\<exists>r1 r2 r3 dealers types vehicles d.
    catalog_reply (demo_open 0) ''/dealerships'' = Some r1 \<and> hr_status r1 = 200 \<and>
    decode_body (json_text demo_go) decode_dealership (read_body (hr_reads r1)) = Some dealers \<and>
    d \<in> set dealers \<and> dd_ID d = ''D'' \<and>
    catalog_reply (demo_open 1) ''/service-types'' = Some r2 \<and> hr_status r2 = 200 \<and>
    decode_body (json_text demo_go) decode_service_type (read_body (hr_reads r2)) = Some types \<and>
    ''S'' \<in> set (map sd_ID types) \<and>
    catalog_reply (demo_open 2) (''/customers/'' @ ''C'' @ ''/vehicles'') = Some r3 \<and> hr_status r3 = 200 \<and>
    decode_body (json_prefix demo_go) decode_vehicle (stream_text (hr_reads r3)) = Some vehicles \<and>
    ''V'' \<in> set (map vd_ID vehicles) \<and>
    demo_snap = \<lparr>sn_DealershipID = ''D'', sn_Timezone = dd_Timezone d,
      sn_OpeningHours = (\<lambda>weekday. case filter (\<lambda>h. oh_Weekday h = weekday) (dd_OpeningHours d) of
         [] \<Rightarrow> None | x # xs \<Rightarrow> Some (last (x # xs))),
      sn_ServiceTypeOK = True, sn_VehicleBelongs = True\<rparr>"
  using snapshot_fails_closed [OF demo_snapshot [where w = "()"]] by simp

end
