(* ===== verification/Saga.thy ===== *)
theory Saga
  imports Technician Bay AppointmentStore CatalogClient
begin

text \<open>
  The state of the whole system and the saga of Booking (\<open>services/booking/saga.go\<close>): opening
  hours, the reserve order Technician then Bay with compensation in reverse, and the two
  Confirms in place.  An RPC is a call on the allocator's database, through a network that may
  lose the request or the reply; \<open>w_log\<close> records every request Booking sends, with the
  \<open>X-Request-Id\<close> metadata \<open>grpcContext\<close> attaches.
\<close>

section \<open>The system\<close>

datatype rpc_msg =
    MTechReserve TechReserveRequest
  | MTechConfirm string
  | MTechRelease string
  | MBayReserve BayReserveRequest
  | MBayConfirm string
  | MBayRelease string

record world =
  w_tech :: tech_db
  w_bay :: bay_db
  w_appts :: "AppointmentRow list"
  w_log :: "(string \<times> rpc_msg) list"

definition set_w_tech :: "tech_db \<Rightarrow> world \<Rightarrow> world" where
  "set_w_tech db w = w\<lparr>w_tech := db\<rparr>"

definition set_w_bay :: "bay_db \<Rightarrow> world \<Rightarrow> world" where
  "set_w_bay db w = w\<lparr>w_bay := db\<rparr>"

definition set_w_appts :: "AppointmentRow list \<Rightarrow> world \<Rightarrow> world" where
  "set_w_appts rows w = w\<lparr>w_appts := rows\<rparr>"

abbreviation on_tech :: "(tech_db, 'a) prog \<Rightarrow> (world, 'a) prog" where
  "on_tech p \<equiv> zoom p w_tech set_w_tech"

abbreviation on_bay :: "(bay_db, 'a) prog \<Rightarrow> (world, 'a) prog" where
  "on_bay p \<equiv> zoom p w_bay set_w_bay"

abbreviation on_appts :: "(AppointmentRow list, 'a) prog \<Rightarrow> (world, 'a) prog" where
  "on_appts p \<equiv> zoom p w_appts set_w_appts"

definition logged :: "string \<Rightarrow> rpc_msg \<Rightarrow> world \<Rightarrow> world" where
  "logged rid m w = w\<lparr>w_log := w_log w @ [(rid, m)]\<rparr>"

definition send :: "call \<Rightarrow> string \<Rightarrow> rpc_msg \<Rightarrow> (world, fault) prog" where
  "send k rid m = atomic (\<lambda>c w. (faults c k, logged rid m w))"

abbreviation (input) transport_error :: grpc_error where
  "transport_error \<equiv> (Unavailable, ''transport'')"

definition rpc :: "call \<Rightarrow> string \<Rightarrow> rpc_msg \<Rightarrow> (world, grpc_error + 'a) prog \<Rightarrow> (world, grpc_error + 'a) prog" where
  "rpc k rid m server = andthen (send k rid m) (\<lambda>f.
     case f of
       Deliver \<Rightarrow> server
     | LoseRequest \<Rightarrow> Ret (Inl transport_error)
     | LoseReply \<Rightarrow> andthen server (\<lambda>_. Ret (Inl transport_error)))"

section \<open>Opening hours\<close>

definition isoWeekday :: "int \<Rightarrow> int" where
  "isoWeekday l = (if go_weekday l = 0 then 7 else go_weekday l)"

text \<open>Shop close on the weekday of \<open>start\<close>, in the dealership's zone; \<open>None\<close> is \<open>ok = false\<close>.\<close>

definition latestEnd :: "go_ext \<Rightarrow> Snapshot \<Rightarrow> instant \<Rightarrow> instant option" where
  "latestEnd go snap start =
     (case load_location go (sn_Timezone snap) of
        None \<Rightarrow> None
      | Some z \<Rightarrow>
          let l = local_time z start in
          (case sn_OpeningHours snap (isoWeekday l) of
             None \<Rightarrow> None
           | Some h \<Rightarrow> Some (go_midnight z (civil_day l) + go_minutes (oh_CloseMinutes h))))"

definition withinHours :: "go_ext \<Rightarrow> Snapshot \<Rightarrow> instant \<Rightarrow> bool" where
  "withinHours go snap start =
     (case load_location go (sn_Timezone snap) of
        None \<Rightarrow> False
      | Some z \<Rightarrow>
          let l = local_time z start in
          (case sn_OpeningHours snap (isoWeekday l) of
             None \<Rightarrow> False
           | Some h \<Rightarrow> \<not> start < go_midnight z (civil_day l) + go_minutes (oh_OpenMinutes h)))"

text \<open>
  Unused by the saga, which takes every failure for the same one; its premise that an allocator refuses
  a Reserve only with FailedPrecondition does not hold.
\<close>

definition grpcUnavailable :: "grpc_error option \<Rightarrow> bool" where
  "grpcUnavailable err = (case err of None \<Rightarrow> False | Some (code, msg) \<Rightarrow> code = FailedPrecondition)"

lemma Reserve_refused_otherwise:
  assumes "trq_dealership_id req = ''''"
  shows "\<exists>e. fst (run (tech_Reserve ext req) cs db) = Inl e \<and> \<not> grpcUnavailable (Some e)"
  using assms by (auto simp: tech_Reserve_def grpcUnavailable_def split: option.split)

section \<open>The saga\<close>

record sagaResult =
  sr_TechOccupationID :: string
  sr_BayOccupationID :: string
  sr_TechnicianID :: string
  sr_ServiceBayID :: string
  sr_End :: instant

definition releaseTech :: "pg_ext \<Rightarrow> string \<Rightarrow> string \<Rightarrow> (world, grpc_error + unit) prog" where
  "releaseTech ext occID requestID =
     (if occID = '''' then Ret (Inr ())
      else rpc TechReleaseRPC requestID (MTechRelease occID) (on_tech (tech_Release ext occID)))"

definition releaseBay :: "pg_ext \<Rightarrow> string \<Rightarrow> string \<Rightarrow> (world, grpc_error + unit) prog" where
  "releaseBay ext occID requestID =
     (if occID = '''' then Ret (Inr ())
      else rpc BayReleaseRPC requestID (MBayRelease occID) (on_bay (bay_Release ext occID)))"

definition releaseBoth :: "pg_ext \<Rightarrow> string \<Rightarrow> string \<Rightarrow> string \<Rightarrow> (world, unit) prog" where
  "releaseBoth ext bayOccID techOccID requestID =
     andthen (releaseBay ext bayOccID requestID) (\<lambda>_.
     andthen (releaseTech ext techOccID requestID) (\<lambda>_. Ret ()))"

definition techReserveMsg :: "string \<Rightarrow> string \<Rightarrow> Snapshot \<Rightarrow> instant \<Rightarrow> instant \<Rightarrow> TechReserveRequest" where
  "techReserveMsg requestID serviceTypeID snap start closeAt =
     \<lparr>trq_dealership_id = sn_DealershipID snap, trq_service_type_id = serviceTypeID,
      trq_start = Some start, trq_latest_end = Some closeAt, trq_request_id = requestID\<rparr>"

definition bayReserveMsg :: "string \<Rightarrow> Snapshot \<Rightarrow> instant \<Rightarrow> instant option \<Rightarrow> BayReserveRequest" where
  "bayReserveMsg requestID snap start end1 =
     \<lparr>brq_dealership_id = sn_DealershipID snap, brq_start = Some start, brq_end = end1,
      brq_request_id = requestID\<rparr>"

text \<open>\<open>GetEnd().AsTime()\<close>: an absent timestamp is the epoch.\<close>

definition as_time :: "instant option \<Rightarrow> instant" where
  "as_time t = (case t of None \<Rightarrow> 0 | Some x \<Rightarrow> x)"

definition reserveSaga ::
  "pg_ext \<Rightarrow> go_ext \<Rightarrow> string \<Rightarrow> string \<Rightarrow> Snapshot \<Rightarrow> instant \<Rightarrow> (world, booking_error + sagaResult) prog" where
  "reserveSaga ext go requestID serviceTypeID snap start =
     (case latestEnd go snap start of
        None \<Rightarrow> Ret (Inl (ErrInvalid ''invalid request''))
      | Some closeAt \<Rightarrow>
          andthen (rpc TechReserveRPC requestID (MTechReserve (techReserveMsg requestID serviceTypeID snap start closeAt))
              (on_tech (tech_Reserve ext (techReserveMsg requestID serviceTypeID snap start closeAt)))) (\<lambda>tech.
          case tech of
            Inl e \<Rightarrow> Ret (Inl ErrUnavailable)
          | Inr techRes \<Rightarrow>
              andthen (rpc BayReserveRPC requestID (MBayReserve (bayReserveMsg requestID snap start (trs_end techRes)))
                  (on_bay (bay_Reserve ext (bayReserveMsg requestID snap start (trs_end techRes))))) (\<lambda>bay.
              case bay of
                Inl e \<Rightarrow> andthen (releaseTech ext (trs_occupation_id techRes) requestID) (\<lambda>_. Ret (Inl ErrUnavailable))
              | Inr bayRes \<Rightarrow> Ret (Inr \<lparr>
                  sr_TechOccupationID = trs_occupation_id techRes,
                  sr_BayOccupationID = brs_occupation_id bayRes,
                  sr_TechnicianID = trs_technician_id techRes,
                  sr_ServiceBayID = brs_service_bay_id bayRes,
                  sr_End = as_time (trs_end techRes)\<rparr>))))"

definition confirmBoth :: "pg_ext \<Rightarrow> string \<Rightarrow> string \<Rightarrow> string \<Rightarrow> (world, grpc_error + unit) prog" where
  "confirmBoth ext techOccID bayOccID requestID =
     andthen (rpc TechConfirmRPC requestID (MTechConfirm techOccID) (on_tech (tech_Confirm ext techOccID))) (\<lambda>tech.
     case tech of
       Inl e \<Rightarrow> Ret (Inl e)
     | Inr x \<Rightarrow> rpc BayConfirmRPC requestID (MBayConfirm bayOccID) (on_bay (bay_Confirm ext bayOccID)))"

section \<open>Parts of the state\<close>

lemma w_simps [simp]:
  "w_tech (set_w_tech db w) = db" "w_bay (set_w_tech db w) = w_bay w"
  "w_appts (set_w_tech db w) = w_appts w" "w_log (set_w_tech db w) = w_log w"
  "w_tech (set_w_bay db2 w) = w_tech w" "w_bay (set_w_bay db2 w) = db2"
  "w_appts (set_w_bay db2 w) = w_appts w" "w_log (set_w_bay db2 w) = w_log w"
  "w_tech (set_w_appts rows w) = w_tech w" "w_bay (set_w_appts rows w) = w_bay w"
  "w_appts (set_w_appts rows w) = rows" "w_log (set_w_appts rows w) = w_log w"
  "w_tech (logged rid m w) = w_tech w" "w_bay (logged rid m w) = w_bay w"
  "w_appts (logged rid m w) = w_appts w" "w_log (logged rid m w) = w_log w @ [(rid, m)]"
  by (simp_all add: set_w_tech_def set_w_bay_def set_w_appts_def logged_def)

lemma wp_on_tech [simp]: "wp (on_tech p) C Q w = wp p C (\<lambda>x db. Q x (set_w_tech db w)) (w_tech w)"
  by (rule wp_zoom) (simp_all add: set_w_tech_def)

lemma wp_on_bay [simp]: "wp (on_bay p) C Q w = wp p C (\<lambda>x db. Q x (set_w_bay db w)) (w_bay w)"
  by (rule wp_zoom) (simp_all add: set_w_bay_def)

lemma wp_on_appts [simp]: "wp (on_appts p) C Q w = wp p C (\<lambda>x rows. Q x (set_w_appts rows w)) (w_appts w)"
  by (rule wp_zoom) (simp_all add: set_w_appts_def)

text \<open>
  A call: whatever the network does, one request is logged; a reply that arrives is the server's,
  otherwise the server has run or not.
\<close>

lemma wp_rpc:
  "wp (rpc k rid m server) C Q w \<longleftrightarrow> (\<forall>c. C c \<longrightarrow>
     (case faults c k of
        Deliver \<Rightarrow> wp server C Q (logged rid m w)
      | LoseRequest \<Rightarrow> Q (Inl transport_error) (logged rid m w)
      | LoseReply \<Rightarrow> wp server C (\<lambda>_. Q (Inl transport_error)) (logged rid m w)))"
  by (auto simp: rpc_def send_def split: fault.splits)

lemma wp_call_tech:
  assumes "wp p C P (w_tech w)"
    and "\<And>r db'. P r db' \<Longrightarrow> Q r (set_w_tech db' (logged rid m w))"
    and "\<And>r db' c. C c \<Longrightarrow> faults c k = LoseReply \<Longrightarrow> P r db' \<Longrightarrow> Q (Inl transport_error) (set_w_tech db' (logged rid m w))"
    and "\<And>c. C c \<Longrightarrow> faults c k = LoseRequest \<Longrightarrow> Q (Inl transport_error) (logged rid m w)"
  shows "wp (rpc k rid m (on_tech p)) C Q w"
  unfolding wp_rpc wp_on_tech w_simps using assms(2-4)
  by (auto split: fault.split intro: wp_mono [OF assms(1)])

lemma wp_call_bay:
  assumes "wp p C P (w_bay w)"
    and "\<And>r db'. P r db' \<Longrightarrow> Q r (set_w_bay db' (logged rid m w))"
    and "\<And>r db' c. C c \<Longrightarrow> faults c k = LoseReply \<Longrightarrow> P r db' \<Longrightarrow> Q (Inl transport_error) (set_w_bay db' (logged rid m w))"
    and "\<And>c. C c \<Longrightarrow> faults c k = LoseRequest \<Longrightarrow> Q (Inl transport_error) (logged rid m w)"
  shows "wp (rpc k rid m (on_bay p)) C Q w"
  unfolding wp_rpc wp_on_bay w_simps using assms(2-4)
  by (auto split: fault.split intro: wp_mono [OF assms(1)])

section \<open>Compensation\<close>

text \<open>
  The environment in which compensation is effective: the Releases get through, no Reserve is
  carried out unseen, and the identifiers the databases draw are UUIDs.
\<close>

definition compensating :: "pg_ext \<Rightarrow> choice \<Rightarrow> bool" where
  "compensating ext c \<longleftrightarrow>
     faults c TechReleaseRPC = Deliver \<and> faults c BayReleaseRPC = Deliver \<and> faults c ReleaseSQL = Deliver \<and>
     faults c TechReserveRPC \<noteq> LoseReply \<and> faults c BayReserveRPC \<noteq> LoseReply \<and> faults c ClaimSQL \<noteq> LoseReply \<and>
     fresh_id c \<noteq> '''' \<and> uuid_in ext (fresh_id c) = Some (fresh_id c)"

text \<open>No occupation is live that was not live before.\<close>

definition no_new_live :: "world \<Rightarrow> world \<Rightarrow> bool" where
  "no_new_live w w' \<longleftrightarrow>
     (\<forall>o1 \<in> set (tech_occs (w_tech w')). occ_live o1 \<longrightarrow> o1 \<in> set (tech_occs (w_tech w))) \<and>
     (\<forall>o1 \<in> set (bay_occs (w_bay w')). occ_live o1 \<longrightarrow> o1 \<in> set (bay_occs (w_bay w)))"

text \<open>The identifier of a claim that a Release can be addressed to.\<close>

definition releasable :: "pg_ext \<Rightarrow> string \<Rightarrow> bool" where
  "releasable ext i \<longleftrightarrow> i \<noteq> '''' \<and> uuid_in ext i = Some i"

lemma call_tech_Reserve:
  assumes "\<And>c. C c \<Longrightarrow> compensating ext c"
  shows "wp (rpc TechReserveRPC rid m (on_tech (tech_Reserve ext req))) C (\<lambda>r w'.
     w_appts w' = w_appts w \<and> w_bay w' = w_bay w \<and>
     (case r of
        Inl e \<Rightarrow> set (tech_occs (w_tech w')) \<subseteq> set (tech_occs (w_tech w))
      | Inr resp \<Rightarrow> only_new (tech_occs (w_tech w)) (trs_occupation_id resp) (tech_occs (w_tech w')) \<and>
          releasable ext (trs_occupation_id resp))) w"
  by (rule wp_call_tech [OF tech_reserving.Reserve_sound [where ext = ext]])
    (use assms in \<open>auto simp: compensating_def releasable_def split: sum.splits\<close>)

lemma call_bay_Reserve:
  assumes "\<And>c. C c \<Longrightarrow> compensating ext c"
  shows "wp (rpc BayReserveRPC rid m (on_bay (bay_Reserve ext req))) C (\<lambda>r w'.
     w_appts w' = w_appts w \<and> w_tech w' = w_tech w \<and>
     (case r of
        Inl e \<Rightarrow> set (bay_occs (w_bay w')) \<subseteq> set (bay_occs (w_bay w))
      | Inr resp \<Rightarrow> only_new (bay_occs (w_bay w)) (brs_occupation_id resp) (bay_occs (w_bay w')) \<and>
          releasable ext (brs_occupation_id resp))) w"
  by (rule wp_call_bay [OF bay_reserving.Reserve_sound [where ext = ext]])
    (use assms in \<open>auto simp: compensating_def releasable_def split: sum.splits\<close>)

lemma undo_tech_claim:
  assumes "\<And>c. C c \<Longrightarrow> compensating ext c" and "only_new rows i (tech_occs (w_tech w))" and "releasable ext i"
  shows "wp (releaseTech ext i rid) C (\<lambda>r w'. w_appts w' = w_appts w \<and> w_bay w' = w_bay w \<and>
     (\<forall>o1 \<in> set (tech_occs (w_tech w')). occ_live o1 \<longrightarrow> o1 \<in> set rows)) w"
proof -
  have i: "i \<noteq> ''''" "uuid_in ext i = Some i" using assms(3) by (simp_all add: releasable_def)
  have rel: "\<And>c. C c \<Longrightarrow> faults c ReleaseSQL = Deliver" using assms(1) by (simp add: compensating_def)
  show ?thesis
    unfolding releaseTech_def if_not_P [OF i(1)]
    by (rule wp_call_tech [OF tech_alloc.Release_undoes [OF rel i assms(2)]], assumption)
      (use assms(1) in \<open>auto simp: compensating_def\<close>)
qed

lemma undo_bay_claim:
  assumes "\<And>c. C c \<Longrightarrow> compensating ext c" and "only_new rows i (bay_occs (w_bay w))" and "releasable ext i"
  shows "wp (releaseBay ext i rid) C (\<lambda>r w'. w_appts w' = w_appts w \<and> w_tech w' = w_tech w \<and>
     (\<forall>o1 \<in> set (bay_occs (w_bay w')). occ_live o1 \<longrightarrow> o1 \<in> set rows)) w"
proof -
  have i: "i \<noteq> ''''" "uuid_in ext i = Some i" using assms(3) by (simp_all add: releasable_def)
  have rel: "\<And>c. C c \<Longrightarrow> faults c ReleaseSQL = Deliver" using assms(1) by (simp add: compensating_def)
  show ?thesis
    unfolding releaseBay_def if_not_P [OF i(1)]
    by (rule wp_call_bay [OF bay_alloc.Release_undoes [OF rel i assms(2)]], assumption)
      (use assms(1) in \<open>auto simp: compensating_def\<close>)
qed

text \<open>After a saga: on success each table has at most its own claim new; on failure none.\<close>

definition saga_pending :: "pg_ext \<Rightarrow> world \<Rightarrow> string \<Rightarrow> string \<Rightarrow> world \<Rightarrow> bool" where
  "saga_pending ext w techOcc bayOcc w' \<longleftrightarrow>
     only_new (tech_occs (w_tech w)) techOcc (tech_occs (w_tech w')) \<and> releasable ext techOcc \<and>
     only_new (bay_occs (w_bay w)) bayOcc (bay_occs (w_bay w')) \<and> releasable ext bayOcc"

lemma undo_saga:
  assumes C: "\<And>c. C c \<Longrightarrow> compensating ext c" and pend: "saga_pending ext w0 techOcc bayOcc w"
  shows "wp (releaseBoth ext bayOcc techOcc rid) C (\<lambda>_ w'. w_appts w' = w_appts w \<and> no_new_live w0 w') w"
proof -
  have "wp (releaseBay ext bayOcc rid) C (\<lambda>r w'. w_appts w' = w_appts w \<and> w_tech w' = w_tech w \<and>
     (\<forall>o1 \<in> set (bay_occs (w_bay w')). occ_live o1 \<longrightarrow> o1 \<in> set (bay_occs (w_bay w0)))) w"
    by (rule undo_bay_claim [OF C]) (use pend in \<open>auto simp: saga_pending_def\<close>)
  then show ?thesis
    unfolding releaseBoth_def wp_andthen
  proof (rule wp_mono, elim conjE, goal_cases)
    case (1 r w1)
    have "wp (releaseTech ext techOcc rid) C (\<lambda>r w'. w_appts w' = w_appts w1 \<and> w_bay w' = w_bay w1 \<and>
       (\<forall>o1 \<in> set (tech_occs (w_tech w')). occ_live o1 \<longrightarrow> o1 \<in> set (tech_occs (w_tech w0)))) w1"
      by (rule undo_tech_claim [OF C]) (use pend 1 in \<open>auto simp: saga_pending_def\<close>)
    then show ?case by (rule wp_mono) (use 1 in \<open>auto simp: no_new_live_def\<close>)
  qed
qed

lemma reserveSaga_law:
  assumes C: "\<And>c. C c \<Longrightarrow> compensating ext c"
  shows "wp (reserveSaga ext go rid st snap start) C (\<lambda>r w'. w_appts w' = w_appts w \<and>
     (case r of
        Inl e \<Rightarrow> no_new_live w w'
      | Inr res \<Rightarrow> saga_pending ext w (sr_TechOccupationID res) (sr_BayOccupationID res) w')) w"
proof (cases "latestEnd go snap start")
  case None
  then show ?thesis by (simp add: reserveSaga_def no_new_live_def)
next
  case (Some closeAt)
  have bay: "wp (rpc BayReserveRPC rid m (on_bay (bay_Reserve ext req))) C (\<lambda>bay. wp (case bay of
        Inl e \<Rightarrow> andthen (releaseTech ext (trs_occupation_id techRes) rid) (\<lambda>_. Ret (Inl ErrUnavailable))
      | Inr bayRes \<Rightarrow> Ret (Inr (mk bayRes))) C
     (\<lambda>r w'. w_appts w' = w_appts w \<and>
       (case r of
          Inl e \<Rightarrow> no_new_live w w'
        | Inr res \<Rightarrow> saga_pending ext w (sr_TechOccupationID res) (sr_BayOccupationID res) w'))) w1"
    if w1: "w_appts w1 = w_appts w" "w_bay w1 = w_bay w"
      "only_new (tech_occs (w_tech w)) (trs_occupation_id techRes) (tech_occs (w_tech w1))"
      "releasable ext (trs_occupation_id techRes)"
      and mk: "\<And>b. sr_TechOccupationID (mk b) = trs_occupation_id techRes"
        "\<And>b. sr_BayOccupationID (mk b) = brs_occupation_id b" for techRes m req mk w1
  proof (rule wp_mono [OF call_bay_Reserve [where C = C and ext = ext, OF C]], assumption, elim conjE, goal_cases)
    case (1 bay w2)
    show ?case
    proof (cases bay)
      case (Inl e)
      have "wp (releaseTech ext (trs_occupation_id techRes) rid) C (\<lambda>r w'. w_appts w' = w_appts w2 \<and> w_bay w' = w_bay w2 \<and>
          (\<forall>o1 \<in> set (tech_occs (w_tech w')). occ_live o1 \<longrightarrow> o1 \<in> set (tech_occs (w_tech w)))) w2"
        by (rule undo_tech_claim [OF C]) (use w1 1 in auto)
      then show ?thesis
        unfolding Inl sum.case wp_andthen
        by (rule wp_mono) (use w1 1 Inl in \<open>auto simp: no_new_live_def\<close>)
    qed (use w1 mk 1 in \<open>auto simp: saga_pending_def\<close>)
  qed
  show ?thesis
    unfolding reserveSaga_def Some option.case wp_andthen
  proof (rule wp_mono [OF call_tech_Reserve [where C = C and ext = ext, OF C]], assumption, elim conjE, goal_cases)
    case (1 tech w1)
    show ?case
    proof (cases tech)
      case (Inr techRes)
      show ?thesis
        unfolding Inr sum.case wp_andthen
        by (rule bay) (use 1 Inr in auto)
    qed (use 1 in \<open>auto simp: no_new_live_def\<close>)
  qed
qed

section \<open>Confirm and Release through the network\<close>

definition occ_confirmed :: "pg_ext \<Rightarrow> string \<Rightarrow> occ_row list \<Rightarrow> bool" where
  "occ_confirmed ext i rows \<longleftrightarrow>
     (\<exists>u. uuid_in ext i = Some u \<and> (\<exists>o1 \<in> set rows. occ_id o1 = u \<and> occ_status o1 = OccConfirmed))"

definition occ_freed :: "pg_ext \<Rightarrow> string \<Rightarrow> occ_row list \<Rightarrow> bool" where
  "occ_freed ext i rows \<longleftrightarrow>
     (\<exists>u. uuid_in ext i = Some u \<and> (\<forall>o1 \<in> set rows. occ_id o1 = u \<longrightarrow> \<not> occ_live o1))"

text \<open>Releases get through.\<close>

definition releases_delivered :: "choice \<Rightarrow> bool" where
  "releases_delivered c \<longleftrightarrow> faults c TechReleaseRPC = Deliver \<and> faults c BayReleaseRPC = Deliver \<and>
     faults c ReleaseSQL = Deliver"

lemma confirmBoth_confirms:
  "wp (confirmBoth ext t b rid) C (\<lambda>r w'. w_appts w' = w_appts w \<and>
     (r = Inr () \<longrightarrow> occ_confirmed ext t (tech_occs (w_tech w')) \<and> occ_confirmed ext b (bay_occs (w_bay w')))) w"
  unfolding confirmBoth_def wp_andthen
proof (rule wp_call_tech [OF tech_alloc.Confirm_confirms], goal_cases)
  case (1 r db')
  show ?case
  proof (cases r)
    case (Inr x)
    show ?thesis
      unfolding Inr sum.case
      by (rule wp_call_bay [OF bay_alloc.Confirm_confirms]) (use 1 Inr in \<open>auto simp: occ_confirmed_def\<close>)
  qed simp
qed simp_all

lemma confirmBoth_keeps_pending:
  assumes "saga_pending ext w0 t b w"
  shows "wp (confirmBoth ext t b rid) C (\<lambda>r w'. w_appts w' = w_appts w \<and> saga_pending ext w0 t b w') w"
proof -
  have id1: "uuid_in ext t = Some t" "uuid_in ext b = Some b"
    and new: "only_new (tech_occs (w_tech w0)) t (tech_occs (w_tech w))" "only_new (bay_occs (w_bay w0)) b (bay_occs (w_bay w))"
    using assms by (auto simp: saga_pending_def releasable_def)
  show ?thesis
    unfolding confirmBoth_def wp_andthen
  proof (rule wp_call_tech [OF tech_alloc.Confirm_keeps_new [OF new(1) id1(1)]], elim exE conjE, goal_cases)
    case (1 r db' rows')
    show ?case
    proof (cases r)
      case (Inr x)
      show ?thesis
        unfolding Inr sum.case
        by (rule wp_call_bay [OF bay_alloc.Confirm_keeps_new [OF _ id1(2), where rows = "bay_occs (w_bay w0)"]])
          (use 1 new assms in \<open>auto simp: saga_pending_def\<close>)
    qed (use 1 assms in \<open>auto simp: saga_pending_def\<close>)
  qed (use assms in \<open>auto simp: saga_pending_def\<close>)
qed

lemma releaseBoth_frees:
  assumes C: "\<And>c. C c \<Longrightarrow> releases_delivered c"
    and t: "t \<noteq> ''''" "uuid_in ext t = Some ut" and b: "b \<noteq> ''''" "uuid_in ext b = Some ub"
  shows "wp (releaseBoth ext b t rid) C (\<lambda>_ w'. w_appts w' = w_appts w \<and>
     occ_freed ext t (tech_occs (w_tech w')) \<and> occ_freed ext b (bay_occs (w_bay w'))) w"
proof -
  have rel: "\<And>c. C c \<Longrightarrow> faults c ReleaseSQL = Deliver" using C by (simp add: releases_delivered_def)
  have tech: "wp (releaseTech ext t rid) C (\<lambda>_ w'. w_appts w' = w_appts w \<and> w_bay w' = w_bay w \<and>
      occ_freed ext t (tech_occs (w_tech w'))) w" for w
    unfolding releaseTech_def if_not_P [OF t(1)]
    by (rule wp_call_tech [OF tech_alloc.Release_frees [OF rel t]], assumption)
      (use C t in \<open>auto simp: releases_delivered_def occ_freed_def\<close>)
  have bay: "wp (releaseBay ext b rid) C (\<lambda>_ w'. w_appts w' = w_appts w \<and>
      occ_freed ext b (bay_occs (w_bay w'))) w" for w
    unfolding releaseBay_def if_not_P [OF b(1)]
    by (rule wp_call_bay [OF bay_alloc.Release_frees [OF rel b]], assumption)
      (use C b in \<open>auto simp: releases_delivered_def occ_freed_def\<close>)
  show ?thesis
    unfolding releaseBoth_def wp_andthen
    by (rule wp_mono [OF bay], elim conjE, rule wp_mono [OF tech]) auto
qed

lemma releaseBoth_keeps_pending:
  assumes "saga_pending ext w0 t b w"
  shows "wp (releaseBoth ext j i rid) C (\<lambda>_ w'. saga_pending ext w0 t b w') w"
proof -
  have tech: "wp (releaseTech ext i rid) C (\<lambda>_ w'. saga_pending ext w0 t b w') w"
    if "saga_pending ext w0 t b w" for w
    using that unfolding releaseTech_def
    by (auto intro!: wp_call_tech [OF tech_alloc.Release_keeps_new [where rows = "tech_occs (w_tech w0)" and j = t]]
        simp: saga_pending_def)
  have bay: "wp (releaseBay ext j rid) C (\<lambda>_ w'. saga_pending ext w0 t b w') w"
    using assms unfolding releaseBay_def
    by (auto intro!: wp_call_bay [OF bay_alloc.Release_keeps_new [where rows = "bay_occs (w_bay w0)" and j = b]]
        simp: saga_pending_def)
  show ?thesis
    unfolding releaseBoth_def wp_andthen
    by (rule wp_mono [OF bay], rule wp_mono [OF tech]) auto
qed

lemma pending_and_freed:
  "saga_pending ext w0 t b w \<Longrightarrow> occ_freed ext t (tech_occs (w_tech w)) \<Longrightarrow> occ_freed ext b (bay_occs (w_bay w)) \<Longrightarrow>
   no_new_live w0 w"
  by (auto simp: saga_pending_def occ_freed_def no_new_live_def only_new_def releasable_def)

section \<open>What the saga sends and leaves\<close>

fun msg_call :: "rpc_msg \<Rightarrow> call" where
  "msg_call (MTechReserve q) = TechReserveRPC"
| "msg_call (MTechConfirm i) = TechConfirmRPC"
| "msg_call (MTechRelease i) = TechReleaseRPC"
| "msg_call (MBayReserve q) = BayReserveRPC"
| "msg_call (MBayConfirm i) = BayConfirmRPC"
| "msg_call (MBayRelease i) = BayReleaseRPC"

text \<open>The calls made between two states, all of them carrying the request id \<open>rid\<close>.\<close>

definition calls :: "string \<Rightarrow> world \<Rightarrow> world \<Rightarrow> call list \<Rightarrow> bool" where
  "calls rid w w' ks \<longleftrightarrow> (\<exists>msgs. w_log w' = w_log w @ map (Pair rid) msgs \<and> map msg_call msgs = ks)"

lemma calls_none [simp]: "calls rid w w []"
  by (simp add: calls_def)

lemma calls_frame [simp]:
  "calls rid w (set_w_tech db w') ks = calls rid w w' ks" "calls rid w (set_w_bay db2 w') ks = calls rid w w' ks"
  "calls rid w (set_w_appts rows w') ks = calls rid w w' ks"
  by (simp_all add: calls_def)

lemma calls_logged: "calls rid w w' ks \<Longrightarrow> calls rid w (logged rid m w') (ks @ [msg_call m])"
  unfolding calls_def by (elim exE conjE, rule_tac x = "msgs @ [m]" in exI) simp

lemma wp_releaseTech:
  "wp (releaseTech ext i rid) C (\<lambda>_ w'. w_appts w' = w_appts w \<and> w_bay w' = w_bay w \<and>
     (\<forall>w0 ks. calls rid w0 w ks \<longrightarrow> calls rid w0 w' (ks @ (if i = '''' then [] else [TechReleaseRPC])))) w"
  unfolding releaseTech_def
  by (auto intro!: wp_call_tech [OF wp_True] dest: calls_logged [where m = "MTechRelease i"])

lemma wp_releaseBay:
  "wp (releaseBay ext i rid) C (\<lambda>_ w'. w_appts w' = w_appts w \<and> w_tech w' = w_tech w \<and>
     (\<forall>w0 ks. calls rid w0 w ks \<longrightarrow> calls rid w0 w' (ks @ (if i = '''' then [] else [BayReleaseRPC])))) w"
  unfolding releaseBay_def
  by (auto intro!: wp_call_bay [OF wp_True] dest: calls_logged [where m = "MBayRelease i"])

lemma wp_reserveSaga:
  assumes C: "\<And>c. C c \<Longrightarrow> D (fresh_id c)"
  shows "wp (reserveSaga ext go rid st snap start) C (\<lambda>r w'. w_appts w' = w_appts w \<and>
     (case r of
        Inl e \<Rightarrow> calls rid w w' [] \<or> calls rid w w' [TechReserveRPC] \<or>
          (\<exists>t. D t \<and> calls rid w w' ([TechReserveRPC, BayReserveRPC] @ (if t = '''' then [] else [TechReleaseRPC])))
      | Inr res \<Rightarrow> calls rid w w' [TechReserveRPC, BayReserveRPC] \<and>
          D (sr_TechOccupationID res) \<and> D (sr_BayOccupationID res) \<and>
         (\<exists>closeAt now1 now2. latestEnd go snap start = Some closeAt \<and> sr_End res \<le> closeAt \<and>
            held_row (sr_TechOccupationID res) (sr_TechnicianID res) start (sr_End res) now1 \<in> set (tech_occs (w_tech w')) \<and>
            held_row (sr_BayOccupationID res) (sr_ServiceBayID res) start (sr_End res) now2 \<in> set (bay_occs (w_bay w'))))) w"
     (is "wp _ C ?Q w")
proof (cases "latestEnd go snap start")
  case (Some closeAt)
  let ?tq = "techReserveMsg rid st snap start closeAt"
  have c1: "calls rid w (logged rid (MTechReserve ?tq) w) [TechReserveRPC]"
    using calls_logged [of rid w w "[]" "MTechReserve ?tq"] by simp
  show ?thesis
    unfolding reserveSaga_def Some option.case wp_andthen [where p = "rpc TechReserveRPC i m p" for i m p]
  proof (rule wp_call_tech [OF wp_conj [OF wp_tech_Reserve tech_reserving.Reserve_fresh]], elim conjE, goal_cases)
    case (1 tech db')
    let ?w1 = "set_w_tech db' (logged rid (MTechReserve ?tq) w)"
    show ?case
    proof (cases tech)
      case (Inr techRes)
      let ?bq = "bayReserveMsg rid snap start (trs_end techRes)"
      have t: "D (trs_occupation_id techRes)" using 1(2) Inr C by auto
      obtain e mid now where tr: "trs_end techRes = Some e" "db' = set_tech_occs (tech_occs db') (w_tech w)"
          "tech_pick ext (tech_params ?tq start closeAt) (set_tech_occs mid (w_tech w)) =
             Inr (Some (trs_technician_id techRes, start, e))"
          "claimed mid (held_row (trs_occupation_id techRes) (trs_technician_id techRes) start e now) (tech_occs db')"
        using 1(1) Inr by (auto simp: techReserveMsg_def tech_store.get_set)
      from tech_pick_Some [OF tr(3)] have e: "e \<le> closeAt" by (auto simp: fits_def)
      have c2: "calls rid w (logged rid (MBayReserve ?bq) ?w1) [TechReserveRPC, BayReserveRPC]"
        using calls_logged [of rid w ?w1 "[TechReserveRPC]" "MBayReserve ?bq"] c1 by simp
      have rel: "wp (andthen (releaseTech ext (trs_occupation_id techRes) rid) (\<lambda>_. Ret (Inl ErrUnavailable))) C ?Q w2"
        if "calls rid w w2 [TechReserveRPC, BayReserveRPC]" "w_appts w2 = w_appts w" for w2
        unfolding wp_andthen
      proof (rule wp_mono [OF wp_releaseTech], elim conjE, goal_cases)
        case (1 r w')
        from 1(3) that(1) have "calls rid w w' ([TechReserveRPC, BayReserveRPC] @
            (if trs_occupation_id techRes = '''' then [] else [TechReleaseRPC]))" by blast
        with t have "\<exists>t. D t \<and> calls rid w w' ([TechReserveRPC, BayReserveRPC] @ (if t = '''' then [] else [TechReleaseRPC]))"
          by blast
        then show ?case using 1(1) that(2) by simp
      qed
      show ?thesis
        unfolding Inr sum.case wp_andthen [where p = "rpc BayReserveRPC i m p" for i m p]
      proof (rule wp_call_bay [OF wp_conj [OF wp_bay_Reserve bay_reserving.Reserve_fresh]], elim conjE, goal_cases)
        case (1 bay db2)
        show ?case
        proof (cases bay)
          case (Inr bayRes)
          then obtain mid2 now2 where "claimed mid2 (held_row (brs_occupation_id bayRes) (brs_service_bay_id bayRes) start e now2) (bay_occs db2)"
            using 1(1) tr(1) by (auto simp: bayReserveMsg_def bay_store.get_set)
          moreover have "D (brs_occupation_id bayRes)" using 1(2) Inr C by auto
          moreover have "held_row (trs_occupation_id techRes) (trs_technician_id techRes) start e now \<in> set (tech_occs db')"
            using tr(4) by (simp add: claimed_def)
          ultimately show ?thesis
            using e t c2 by (simp add: Inr as_time_def tr(1) claimed_def) blast
        qed (use rel c2 in simp)
      next
        case (2 r db2 c)
        show ?case unfolding sum.case by (rule rel [unfolded Some]) (simp_all add: c2)
      next
        case (3 c)
        show ?case unfolding sum.case by (rule rel [unfolded Some]) (simp_all add: c2)
      qed
    qed (use c1 in simp)
  qed (use c1 in simp_all)
qed (simp add: reserveSaga_def)

lemma wp_reserveSaga_appts: "wp (reserveSaga ext go rid st snap start) C (\<lambda>r w'. w_appts w' = w_appts w) w"
  by (rule wp_mono [OF wp_reserveSaga [where D = "\<lambda>_. True"]]) simp_all

end
