(* ===== verification/Service.thy ===== *)
theory Service
  imports Saga
begin

text \<open>
  The Booking service (\<open>services/booking/service.go\<close>): CreateHold, the two ways to Confirm,
  replay by Idempotency-Key, Get, Cancel and the recovery sweep, each a program over the whole
  system in the order the code has its steps.
\<close>

definition strPtr :: "string \<Rightarrow> string option" where
  "strPtr s = Some s"

definition deref :: "string option \<Rightarrow> string" where
  "deref s = (case s of None \<Rightarrow> '''' | Some x \<Rightarrow> x)"

definition requestIDFrom :: "string \<Rightarrow> ('w, string) prog" where
  "requestIDFrom header = (if header \<noteq> '''' then Ret header else mint_uuid)"

definition toAppointment :: "go_ext \<Rightarrow> AppointmentRow \<Rightarrow> Appointment" where
  "toAppointment go r = \<lparr>ap_ID = ar_ID r, ap_DealershipID = ar_DealershipID r, ap_CustomerID = ar_CustomerID r,
     ap_VehicleID = ar_VehicleID r, ap_ServiceTypeID = ar_ServiceTypeID r,
     ap_StartAt = time_format go (ar_StartAt r), ap_EndAt = time_format go (ar_EndAt r),
     ap_Status = status_text (ar_Status r),
     ap_HoldExpiresAt = map_option (time_format go) (ar_HoldExpiresAt r),
     ap_TechnicianID = deref (ar_TechnicianID r), ap_ServiceBayID = deref (ar_ServiceBayID r),
     ap_TechOccupation = deref (ar_TechOccupationID r), ap_BayOccupationID = deref (ar_BayOccupationID r)\<rparr>"

section \<open>Steps 1 to 6\<close>

text \<open>The row handed to \<open>InsertHeld\<close>; id, status and expiry are the store's to set.\<close>

definition hold_row ::
  "string \<Rightarrow> string \<Rightarrow> string \<Rightarrow> string \<Rightarrow> instant \<Rightarrow> sagaResult \<Rightarrow> AppointmentRow" where
  "hold_row dealershipID customerID vehicleID serviceTypeID start res =
     \<lparr>ar_ID = '''', ar_DealershipID = dealershipID, ar_CustomerID = customerID, ar_VehicleID = vehicleID,
      ar_ServiceTypeID = serviceTypeID, ar_TechnicianID = strPtr (sr_TechnicianID res),
      ar_ServiceBayID = strPtr (sr_ServiceBayID res), ar_TechOccupationID = strPtr (sr_TechOccupationID res),
      ar_BayOccupationID = strPtr (sr_BayOccupationID res), ar_StartAt = start, ar_EndAt = sr_End res,
      ar_Status = StatusHeld, ar_HoldExpiresAt = None, ar_IdempotencyKey = None, ar_RequestFingerprint = None\<rparr>"

definition CreateHold ::
  "pg_ext \<Rightarrow> go_ext \<Rightarrow> string \<Rightarrow> HoldRequest \<Rightarrow> (world, booking_error + Appointment) prog" where
  "CreateHold ext go requestID req =
     (case parseStart go (hq_Start req) of
        None \<Rightarrow> Ret (Inl (ErrInvalid ''invalid request: start''))
      | Some start \<Rightarrow>
          andthen (take_snapshot go (hq_DealershipID req) (hq_ServiceTypeID req) (hq_CustomerID req) (hq_VehicleID req)) (\<lambda>s.
          case s of
            Inl e \<Rightarrow> Ret (Inl (ErrInvalid (''invalid request: catalog: '' @ catalog_text e)))
          | Inr snap \<Rightarrow>
              andthen time_now (\<lambda>now.
              if \<not> now < start \<or> \<not> withinHours go snap start
              then Ret (Inl (ErrInvalid ''invalid request: hours or not future''))
              else andthen (reserveSaga ext go requestID (hq_ServiceTypeID req) snap start) (\<lambda>saga.
                case saga of
                  Inl e \<Rightarrow> Ret (Inl e)
                | Inr res \<Rightarrow>
                    andthen (on_appts (InsertHeld ext (hold_row (hq_DealershipID req) (hq_CustomerID req)
                        (hq_VehicleID req) (hq_ServiceTypeID req) start res))) (\<lambda>ins.
                    case ins of
                      Inl e \<Rightarrow> andthen (releaseBoth ext (sr_BayOccupationID res) (sr_TechOccupationID res) requestID)
                        (\<lambda>_. Ret (Inl ErrUnavailable))
                    | Inr row \<Rightarrow> Ret (Inr (toAppointment go row)))))))"

section \<open>Step 7\<close>

text \<open>\<open>None\<close> is the nil error.\<close>

definition promoteConfirmed ::
  "pg_ext \<Rightarrow> string \<Rightarrow> AppointmentRow \<Rightarrow> string \<Rightarrow> string \<Rightarrow> (world, booking_error option) prog" where
  "promoteConfirmed ext requestID row idempotencyKey fp =
     (if ar_TechOccupationID row = None \<or> ar_BayOccupationID row = None then Ret (Some ErrUnavailable)
      else let bayOccID = deref (ar_BayOccupationID row); techOccID = deref (ar_TechOccupationID row);
               giveUp = (\<lambda>e. andthen (releaseBoth ext bayOccID techOccID requestID) (\<lambda>_. Ret (Some e))) in
        andthen (confirmBoth ext techOccID bayOccID requestID) (\<lambda>conf.
        case conf of
          Inl e \<Rightarrow> giveUp ErrUnavailable
        | Inr x \<Rightarrow>
            andthen (on_appts (Promote ext (ar_ID row) idempotencyKey fp)) (\<lambda>prom.
            case prom of
              Inr r \<Rightarrow> Ret None
            | Inl err \<Rightarrow>
                andthen (on_appts (get_stmt ext (ar_ID row))) (\<lambda>cur.
                case cur of
                  Inl getErr \<Rightarrow> giveUp ErrUnavailable
                | Inr cur \<Rightarrow>
                    (case ar_Status cur of
                       StatusConfirmed \<Rightarrow> Ret None
                     | StatusCancelled \<Rightarrow> giveUp ErrUnavailable
                     | StatusHeld \<Rightarrow>
                         if isUniqueViolation err then giveUp ErrIdempotencyConflict
                         else giveUp ErrUnavailable)))))"

text \<open>The result of a confirm: the appointment and its HTTP status.\<close>

type_synonym confirmed = "booking_error + (Appointment \<times> nat)"

definition promote_and_get ::
  "pg_ext \<Rightarrow> go_ext \<Rightarrow> string \<Rightarrow> AppointmentRow \<Rightarrow> string \<Rightarrow> string \<Rightarrow> (world, confirmed) prog" where
  "promote_and_get ext go requestID row idempotencyKey fp =
     andthen (promoteConfirmed ext requestID row idempotencyKey fp) (\<lambda>err.
     case err of
       Some e \<Rightarrow> Ret (Inl e)
     | None \<Rightarrow>
         andthen (on_appts (get_stmt ext (ar_ID row))) (\<lambda>out.
         case out of
           Inl e \<Rightarrow> Ret (Inl ErrNotFound)
         | Inr r \<Rightarrow> Ret (Inr (toAppointment go r, 201))))"

definition confirmHold ::
  "pg_ext \<Rightarrow> go_ext \<Rightarrow> string \<Rightarrow> string \<Rightarrow> ConfirmRequest \<Rightarrow> (world, confirmed) prog" where
  "confirmHold ext go requestID idempotencyKey req =
     andthen (on_appts (get_stmt ext (cq_HoldID req))) (\<lambda>got.
     case got of
       Inl e \<Rightarrow> Ret (Inl ErrNotFound)
     | Inr row \<Rightarrow>
         (case ar_Status row of
            StatusConfirmed \<Rightarrow>
              if idempotencyKey \<noteq> ''''
              then andthen (on_appts (GetConfirmedByIdempotencyKey idempotencyKey)) (\<lambda>prior.
                case prior of
                  Inl e \<Rightarrow> Ret (Inl (ErrStore e))
                | Inr None \<Rightarrow> Ret (Inr (toAppointment go row, 200))
                | Inr (Some p) \<Rightarrow>
                    if ar_ID p \<noteq> ar_ID row then Ret (Inl ErrIdempotencyConflict)
                    else Ret (Inr (toAppointment go row, 200)))
              else Ret (Inr (toAppointment go row, 200))
          | StatusCancelled \<Rightarrow> Ret (Inl ErrUnavailable)
          | StatusHeld \<Rightarrow>
              promote_and_get ext go requestID row idempotencyKey
                (fingerprint go (cq_HoldID req) (ar_DealershipID row) (ar_CustomerID row) (ar_VehicleID row)
                   (ar_ServiceTypeID row) '''')))"

text \<open>\<open>Inr None\<close> is \<open>(_, false, nil)\<close>: nothing to replay.\<close>

definition replay ::
  "go_ext \<Rightarrow> string \<Rightarrow> ConfirmRequest \<Rightarrow> (world, booking_error + Appointment option) prog" where
  "replay go idempotencyKey req =
     (if idempotencyKey = '''' then Ret (Inr None)
      else andthen (on_appts (GetConfirmedByIdempotencyKey idempotencyKey)) (\<lambda>found.
        case found of
          Inl e \<Rightarrow> Ret (Inl (ErrStore e))
        | Inr None \<Rightarrow> Ret (Inr None)
        | Inr (Some row) \<Rightarrow>
            if ar_RequestFingerprint row \<noteq> Some (fingerprint go (cq_HoldID req) (cq_DealershipID req)
                 (cq_CustomerID req) (cq_VehicleID req) (cq_ServiceTypeID req) (cq_Start req))
            then Ret (Inl ErrIdempotencyConflict)
            else Ret (Inr (Some (toAppointment go row)))))"

definition confirmWithoutHold ::
  "pg_ext \<Rightarrow> go_ext \<Rightarrow> string \<Rightarrow> string \<Rightarrow> ConfirmRequest \<Rightarrow> (world, confirmed) prog" where
  "confirmWithoutHold ext go requestID idempotencyKey req =
     (case parseStart go (cq_Start req) of
        None \<Rightarrow> Ret (Inl (ErrInvalid ''invalid request: start''))
      | Some start \<Rightarrow>
          andthen (take_snapshot go (cq_DealershipID req) (cq_ServiceTypeID req) (cq_CustomerID req) (cq_VehicleID req)) (\<lambda>s.
          case s of
            Inl e \<Rightarrow> Ret (Inl (ErrInvalid (''invalid request: catalog: '' @ catalog_text e)))
          | Inr snap \<Rightarrow>
              andthen time_now (\<lambda>now.
              if \<not> now < start \<or> \<not> withinHours go snap start
              then Ret (Inl (ErrInvalid ''invalid request: hours or not future''))
              else andthen (replay go idempotencyKey req) (\<lambda>rep.
                case rep of
                  Inl e \<Rightarrow> Ret (Inl e)
                | Inr (Some appt) \<Rightarrow> Ret (Inr (appt, 200))
                | Inr None \<Rightarrow>
                    andthen (reserveSaga ext go requestID (cq_ServiceTypeID req) snap start) (\<lambda>saga.
                    case saga of
                      Inl e \<Rightarrow> Ret (Inl e)
                    | Inr res \<Rightarrow>
                        andthen (on_appts (InsertHeld ext (hold_row (cq_DealershipID req) (cq_CustomerID req)
                            (cq_VehicleID req) (cq_ServiceTypeID req) start res))) (\<lambda>ins.
                        case ins of
                          Inl e \<Rightarrow> andthen (releaseBoth ext (sr_BayOccupationID res) (sr_TechOccupationID res) requestID)
                            (\<lambda>_. Ret (Inl ErrUnavailable))
                        | Inr row \<Rightarrow>
                            promote_and_get ext go requestID row idempotencyKey
                              (fingerprint go '''' (cq_DealershipID req) (cq_CustomerID req) (cq_VehicleID req)
                                 (cq_ServiceTypeID req) (cq_Start req))))))))"

definition Confirm ::
  "pg_ext \<Rightarrow> go_ext \<Rightarrow> string \<Rightarrow> string \<Rightarrow> ConfirmRequest \<Rightarrow> (world, confirmed) prog" where
  "Confirm ext go requestID idempotencyKey req =
     (if cq_HoldID req \<noteq> '''' then confirmHold ext go requestID idempotencyKey req
      else confirmWithoutHold ext go requestID idempotencyKey req)"

section \<open>Get and Cancel\<close>

definition Get :: "pg_ext \<Rightarrow> go_ext \<Rightarrow> string \<Rightarrow> (world, booking_error + Appointment) prog" where
  "Get ext go i = andthen (on_appts (get_stmt ext i)) (\<lambda>got.
     case got of Inl e \<Rightarrow> Ret (Inl ErrNotFound) | Inr row \<Rightarrow> Ret (Inr (toAppointment go row)))"

definition release_if :: "(string \<Rightarrow> (world, grpc_error + unit) prog) \<Rightarrow> string option \<Rightarrow> (world, grpc_error + unit) prog" where
  "release_if rel occ = (case occ of None \<Rightarrow> Ret (Inr ()) | Some i \<Rightarrow> rel i)"

definition Cancel :: "pg_ext \<Rightarrow> string \<Rightarrow> string \<Rightarrow> (world, booking_error option) prog" where
  "Cancel ext requestID i = andthen (on_appts (get_stmt ext i)) (\<lambda>got.
     case got of
       Inl e \<Rightarrow> Ret (Some ErrNotFound)
     | Inr row \<Rightarrow>
         andthen (on_appts (cancel_stmt ext i)) (\<lambda>res.
         case res of
           Inl e \<Rightarrow> Ret (Some ErrUnavailable)
         | Inr b \<Rightarrow>
             andthen (release_if (\<lambda>occ. releaseBay ext occ requestID) (ar_BayOccupationID row)) (\<lambda>_.
             andthen (release_if (\<lambda>occ. releaseTech ext occ requestID) (ar_TechOccupationID row)) (\<lambda>_.
             Ret None))))"

section \<open>Recovery\<close>

text \<open>One row of \<open>releaseCancelled\<close>: the ids are cleared only after both Releases succeeded.\<close>

definition release_row_ids :: "pg_ext \<Rightarrow> AppointmentRow \<Rightarrow> (world, unit) prog" where
  "release_row_ids ext r =
     (if ar_BayOccupationID r = None \<and> ar_TechOccupationID r = None then Ret ()
      else andthen mint_uuid (\<lambda>reqID.
        andthen (release_if (\<lambda>occ. releaseBay ext occ reqID) (ar_BayOccupationID r)) (\<lambda>bayErr.
        andthen (release_if (\<lambda>occ. releaseTech ext occ reqID) (ar_TechOccupationID r)) (\<lambda>techErr.
        case (bayErr, techErr) of
          (Inr _, Inr _) \<Rightarrow> andthen (on_appts (ClearOccupationIDs ext (ar_ID r))) (\<lambda>_. Ret ())
        | _ \<Rightarrow> Ret ()))))"

primrec releaseCancelled :: "pg_ext \<Rightarrow> AppointmentRow list \<Rightarrow> (world, unit) prog" where
  "releaseCancelled ext [] = Ret ()"
| "releaseCancelled ext (r # rs) = andthen (release_row_ids ext r) (\<lambda>_. releaseCancelled ext rs)"

definition sweepOnce :: "pg_ext \<Rightarrow> (world, unit) prog" where
  "sweepOnce ext = andthen (on_appts (SweepBatch sweepLimit)) (\<lambda>swept.
     case swept of
       Inl e \<Rightarrow> Ret ()
     | Inr rows \<Rightarrow>
         andthen (releaseCancelled ext rows) (\<lambda>_.
         andthen (on_appts (ListCancelledNeedingRelease sweepLimit)) (\<lambda>listed.
         case listed of
           Inl e \<Rightarrow> Ret ()
         | Inr pending \<Rightarrow> releaseCancelled ext pending)))"

text \<open>
  The sweeper goroutine: the events its \<open>select\<close> receives, in order.  It returns when the context
  is done; each tick is one pass.
\<close>

datatype sweeper_event = Done | Tick

fun StartSweeper :: "pg_ext \<Rightarrow> sweeper_event list \<Rightarrow> (world, unit) prog" where
  "StartSweeper ext [] = Ret ()"
| "StartSweeper ext (Done # es) = Ret ()"
| "StartSweeper ext (Tick # es) = andthen (sweepOnce ext) (\<lambda>_. StartSweeper ext es)"

end
