(* ===== verification/Demo.thy ===== *)
theory Demo
  imports Service
begin

text \<open>
  Concrete systems and requests, and the equations by which a run of the whole system is evaluated
  inside the logic, one atomic action at a time.
\<close>

section \<open>Evaluation\<close>

lemma andthen_lazy: "p = p' \<Longrightarrow> andthen p f = andthen p' f"
  by simp

lemma Act_lazy: "Act g = Act g" ..

lemma atomic_lazy: "atomic f = atomic f" ..

lemma sql_lazy: "sql k f = sql k f" ..

text \<open>As congruences these keep the simplifier out of what has not been reached yet.\<close>

lemmas lazy = andthen_lazy Act_lazy atomic_lazy sql_lazy

lemma zoom_andthen: "zoom (andthen p f) get put = andthen (zoom p get put) (\<lambda>x. zoom (f x) get put)"
  by (induction p rule: prog_induct) (auto simp: fun_eq_iff intro!: prod_eqI)

lemma zoom_atomic: "zoom (atomic f) get put = atomic (\<lambda>c w. map_prod id (\<lambda>v. put v w) (f c (get w)))"
  by (simp add: atomic_def fun_eq_iff)

lemma run_atomic_last: "run (atomic f) cs w = f (cs 0) w"
  by (simp add: atomic_def)

lemmas prog_eval = zoom_andthen zoom_atomic run_atomic_last andthen_assoc sql_def time_now_def mint_uuid_def
  send_def rpc_def select_one_def update_where_def rows_affected_def numeral_3_eq_3

lemmas allocator_eval = claim_stmt_def confirm_stmt_def release_stmt_def reap_stmt_def
  claim_insert_def insert_occ_def held_row_def conflicts_def occ_live_def range_overlap_def free_def reap_def
  expired_def null_le_def confirm_occ_def release_occ_def confirmable_def confirm_row_def release_row_def

lemmas tech_eval = tech_Reserve_def tech_reserve_def tech_reply_def tech_claim_def tech_pick_def
  tech_candidates_def qualified_techs_def fits_def shift_covers_def absent_def skill_end_def
  tech_Confirm_def tech_Release_def set_tech_occs_def

lemmas bay_eval = bay_Reserve_def bay_reserve_def bay_params_def bay_reply_def bay_claim_def bay_pick_def
  bay_candidates_def bay_Confirm_def bay_Release_def set_bay_occs_def

lemmas clock_eval = pg_hour_minute pg_isodow_def minute_of_day_def civil_day_def pg_minutes_def
  isoWeekday_def go_weekday_def go_minutes_small

lemmas store_eval = InsertHeld_def insert_appt_def stored_row_def uuid_null_def get_stmt_def has_key_def
  GetConfirmedByIdempotencyKey_def Promote_def promote_stmt_def promote_appts_def promote_row_def
  nullif_empty_def held_def cancel_stmt_def cancel_row_def live_appt_def isUniqueViolation_def

lemmas saga_eval = reserveSaga_def latestEnd_def withinHours_def techReserveMsg_def bayReserveMsg_def
  as_time_def releaseTech_def releaseBay_def releaseBoth_def confirmBoth_def
  set_w_tech_def set_w_bay_def set_w_appts_def logged_def

lemmas service_eval = CreateHold_def parseStart_def hold_row_def strPtr_def deref_def toAppointment_def
  Confirm_def confirmHold_def confirmWithoutHold_def promote_and_get_def promoteConfirmed_def replay_def
  Cancel_def release_if_def Get_def

section \<open>A system\<close>

definition demo_world :: world where
  "demo_world = \<lparr>w_tech = demo_tech_db [], w_bay = demo_bay_db [], w_appts = [], w_log = []\<rparr>"

definition demo_no_bays :: world where
  "demo_no_bays = demo_world\<lparr>w_bay := \<lparr>service_bays = [], bay_occs = []\<rparr>\<rparr>"

definition demo_hold :: HoldRequest where
  "demo_hold = \<lparr>hq_DealershipID = ''D'', hq_CustomerID = ''C'', hq_VehicleID = ''V'', hq_ServiceTypeID = ''S'',
     hq_Start = ''9am''\<rparr>"

lemmas demo_eval = demo_world_def demo_no_bays_def demo_hold_def demo_tech_db_def demo_bay_db_def
  demo_ext_def demo_open_def demo_choice_def

text \<open>The Catalog of \<open>demo_open\<close> answers every snapshot alike.\<close>

lemma demo_catalog_eval:
  "decode_body (json_text demo_go) decode_dealership ''D'' = Some [\<lparr>dd_ID = ''D'', dd_Name = '''',
      dd_Timezone = ''UTC'', dd_OpeningHours = [\<lparr>oh_Weekday = 1, oh_OpenMinutes = 480, oh_CloseMinutes = 1080\<rparr>]\<rparr>]"
  "decode_body (json_text demo_go) decode_service_type ''S'' = Some [\<lparr>sd_ID = ''S''\<rparr>]"
  "decode_body (json_prefix demo_go) decode_vehicle ''V'' = Some [\<lparr>vd_ID = ''V'', vd_CustomerID = ''C''\<rparr>]"
  by code_simp+

lemmas catalog_eval = take_snapshot_def catalog_get_def catalog_do_def vehicles_path_def dealer_snapshot_def
  snapshot_vehicle_def demo_catalog_def demo_catalog_eval hours_map_def

lemma demo_go_eval [simp]:
  "time_parse demo_go x = (if x = ''9am'' then Some (monday + 540 * microseconds_per_minute) else None)"
  "time_format demo_go t = ''t''" "load_location demo_go z = Some utc"
  by (simp_all add: demo_go_def)


definition demo_confirm :: "string \<Rightarrow> ConfirmRequest" where
  "demo_confirm hold = \<lparr>cq_HoldID = hold, cq_DealershipID = ''D'', cq_CustomerID = ''C'', cq_VehicleID = ''V'',
     cq_ServiceTypeID = ''S'', cq_Start = ''9am''\<rparr>"

text \<open>One appointment on hold, with both its occupations.\<close>

definition demo_held_world :: "instant \<Rightarrow> world" where
  "demo_held_world expires = \<lparr>w_tech = demo_tech_db [demo_tech_held\<lparr>occ_hold_expires_at := Some expires\<rparr>],
     w_bay = demo_bay_db [demo_bay_held\<lparr>occ_hold_expires_at := Some expires\<rparr>],
     w_appts = [demo_appt ''h'' expires], w_log = []\<rparr>"

lemmas held_eval = demo_held_world_def demo_tech_held_def demo_bay_held_def demo_appt_def

lemma demo_fingerprint [simp]: "fingerprint demo_go h d c v s t \<noteq> []"
  by (simp add: fingerprint_def fingerprint_input_def hex_encode_def demo_go_def)

lemmas system_eval = prog_eval allocator_eval tech_eval bay_eval clock_eval store_eval saga_eval service_eval
  catalog_eval demo_eval monday_def Let_def demo_confirm_def

lemma run_surj: "fst (run p cs w) = x \<Longrightarrow> run p cs w = (x, snd (run p cs w))"
  by (simp add: prod_eq_iff)

end
