(* ===== verification/Holds.thy ===== *)
theory Holds
  imports Demo
begin

text \<open>
  What \<open>CreateHold\<close> guarantees: complete compensation when it fails, the rows and claims it leaves
  when it succeeds.
\<close>

lemma wp_take_snapshot:
  "wp (take_snapshot go d st c v) C (\<lambda>r w'. w' = w \<and> (\<forall>snap. r = Inr snap \<longrightarrow> sn_DealershipID snap = d)) w"
  by (auto simp: take_snapshot_def catalog_get_def catalog_do_def dealer_snapshot_def snapshot_vehicle_def
      split: option.splits if_splits dest!: select_one_Some)

lemma no_new_live_refl [simp]: "no_new_live w w"
  by (simp add: no_new_live_def)

lemma saga_pending_appts [simp]:
  "saga_pending ext w t b (set_w_appts rows w') = saga_pending ext w t b w'"
  by (simp add: saga_pending_def)

section \<open>The shared steps\<close>

lemma wp_get_stmt:
  "wp (get_stmt ext i) C (\<lambda>r rows'. rows' = rows \<and>
     (\<forall>row. r = Inr row \<longrightarrow> (\<exists>u. uuid_in ext i = Some u \<and> select_one (\<lambda>r. ar_ID r = u) rows = Some row))) rows"
  unfolding get_stmt_def by (rule wp_sqlI) (auto split: option.splits)

text \<open>What a successful \<open>InsertHeld\<close> of \<open>r\<close> did: \<open>row\<close> is what it returned.\<close>

definition inserted :: "pg_ext \<Rightarrow> AppointmentRow \<Rightarrow> AppointmentRow list \<Rightarrow> AppointmentRow \<Rightarrow> AppointmentRow list \<Rightarrow> bool" where
  "inserted ext r rows row rows' \<longleftrightarrow> (\<exists>n now.
     stored_row ext row now = Some n \<and> ar_ID n \<notin> set (map ar_ID rows) \<and> rows' = rows @ [n] \<and>
     ar_StartAt n < ar_EndAt n \<and> ar_Status row = StatusHeld \<and>
     (\<exists>i e. row = r\<lparr>ar_ID := i, ar_Status := StatusHeld, ar_HoldExpiresAt := e\<rparr>))"

lemma wp_InsertHeld:
  "wp (InsertHeld ext r) C (\<lambda>res rows'. \<forall>row. res = Inr row \<longrightarrow> inserted ext r rows row rows') rows"
proof -
  have stored: "stored_row ext (r\<lparr>ar_HoldExpiresAt := e\<rparr>) now = stored_row ext r now" for r e now
    by (simp add: stored_row_def cong: option.case_cong prod.case_cong)
  have ins: "wp (andthen (sql InsertHeldSQL (\<lambda>c rows.
           case insert_appt ext r1 (db_now c) rows of
             Inl e \<Rightarrow> (Inl e, rows)
           | Inr rows' \<Rightarrow> (Inr (), rows')))
         (\<lambda>res. case res of
            Inl e \<Rightarrow> Ret (Inl (ErrStore e))
          | Inr x \<Rightarrow> andthen time_now (\<lambda>now.
              Ret (Inr (r1\<lparr>ar_HoldExpiresAt := Some (now + 120 * microseconds_per_second)\<rparr>))))) C
     (\<lambda>res rows'. \<forall>row. res = Inr row \<longrightarrow> (\<exists>n now e.
     stored_row ext row now = Some n \<and> ar_ID n \<notin> set (map ar_ID rows) \<and> rows' = rows @ [n] \<and>
     ar_StartAt n < ar_EndAt n \<and> row = r1\<lparr>ar_HoldExpiresAt := e\<rparr>)) rows" for r1
    unfolding wp_andthen
    by (rule wp_sqlI) (auto simp: time_now_def insert_appt_def stored split: option.splits if_splits)
  have "wp (andthen (sql InsertHeldSQL (\<lambda>c rows.
           case insert_appt ext (r\<lparr>ar_ID := i, ar_Status := StatusHeld\<rparr>) (db_now c) rows of
             Inl e \<Rightarrow> (Inl e, rows)
           | Inr rows' \<Rightarrow> (Inr (), rows')))
         (\<lambda>res. case res of
            Inl e \<Rightarrow> Ret (Inl (ErrStore e))
          | Inr x \<Rightarrow> andthen time_now (\<lambda>now.
              Ret (Inr (r\<lparr>ar_ID := i, ar_Status := StatusHeld\<rparr>\<lparr>ar_HoldExpiresAt := Some (now + 120 * microseconds_per_second)\<rparr>))))) C
     (\<lambda>res rows'. \<forall>row. res = Inr row \<longrightarrow> (\<exists>n now.
     stored_row ext row now = Some n \<and> ar_ID n \<notin> set (map ar_ID rows) \<and> rows' = rows @ [n] \<and>
     ar_StartAt n < ar_EndAt n \<and> ar_Status row = StatusHeld \<and>
     (\<exists>i e. row = r\<lparr>ar_ID := i, ar_Status := StatusHeld, ar_HoldExpiresAt := e\<rparr>))) rows" for i
    by (rule wp_mono [OF ins]) fastforce
  note body = this
  have mint: "wp (if ar_ID r = '''' then mint_uuid else Ret (ar_ID r)) C (\<lambda>i rows'. rows' = rows) rows"
    by (simp add: mint_uuid_def)
  show ?thesis
    unfolding inserted_def InsertHeld_def Let_def wp_andthen [where p = "if ar_ID r = '''' then mint_uuid else Ret (ar_ID r)"]
    by (rule wp_mono [OF mint], hypsubst, rule body)
qed

lemma inserted_ok:
  assumes "inserted ext r rows row rows'" and "appts_ok rows"
  shows "appts_ok rows'"
proof -
  obtain n now where n: "stored_row ext row now = Some n" "ar_ID n \<notin> set (map ar_ID rows)" "rows' = rows @ [n]"
      "ar_StartAt n < ar_EndAt n" "ar_Status row = StatusHeld"
    using assms(1) by (auto simp: inserted_def)
  then have "insert_appt ext row now rows = Inr rows'" by (simp add: insert_appt_def)
  from appts_ok_insert [OF assms(2) this n(5)] show ?thesis .
qed

text \<open>What the row of a hold says once it is stored: \<open>n\<close> in the table, \<open>row\<close> in the answer.\<close>

lemma inserted_hold:
  assumes "inserted ext (hold_row d c v st start res) rows row rows'"
  obtains n where "rows' = rows @ [n]" "ar_ID n \<notin> ar_ID ` set rows" "ar_Status n = StatusHeld"
    "ar_StartAt n = start" "ar_EndAt n = sr_End res" "start < sr_End res"
    "ar_TechnicianID n = uuid_in ext (sr_TechnicianID res)" "ar_ServiceBayID n = uuid_in ext (sr_ServiceBayID res)"
    "ar_TechOccupationID n = uuid_in ext (sr_TechOccupationID res)" "uuid_in ext (sr_TechOccupationID res) \<noteq> None"
    "ar_BayOccupationID n = uuid_in ext (sr_BayOccupationID res)" "uuid_in ext (sr_BayOccupationID res) \<noteq> None"
    "uuid_in ext (ar_ID row) = Some (ar_ID n)" "ar_Status row = StatusHeld"
    "ar_StartAt row = start" "ar_EndAt row = sr_End res"
    "ar_TechOccupationID row = Some (sr_TechOccupationID res)" "ar_BayOccupationID row = Some (sr_BayOccupationID res)"
proof -
  obtain n now i e where n: "stored_row ext row now = Some n" "ar_ID n \<notin> set (map ar_ID rows)" "rows' = rows @ [n]"
      "ar_StartAt n < ar_EndAt n" "row = (hold_row d c v st start res)\<lparr>ar_ID := i, ar_Status := StatusHeld, ar_HoldExpiresAt := e\<rparr>"
    using assms by (auto simp: inserted_def)
  from n(1,4) have "ar_Status n = StatusHeld" "ar_StartAt n = start" "ar_EndAt n = sr_End res" "start < sr_End res"
    "ar_TechnicianID n = uuid_in ext (sr_TechnicianID res)" "ar_ServiceBayID n = uuid_in ext (sr_ServiceBayID res)"
    "ar_TechOccupationID n = uuid_in ext (sr_TechOccupationID res)" "uuid_in ext (sr_TechOccupationID res) \<noteq> None"
    "ar_BayOccupationID n = uuid_in ext (sr_BayOccupationID res)" "uuid_in ext (sr_BayOccupationID res) \<noteq> None"
    "uuid_in ext (ar_ID row) = Some (ar_ID n)"
    unfolding n(5) by (auto simp: stored_row_def uuid_null_def hold_row_def strPtr_def split: option.splits)
  moreover have "ar_ID n \<notin> ar_ID ` set rows" using n(2) by simp
  moreover have "ar_Status row = StatusHeld" "ar_StartAt row = start" "ar_EndAt row = sr_End res"
    "ar_TechOccupationID row = Some (sr_TechOccupationID res)" "ar_BayOccupationID row = Some (sr_BayOccupationID res)"
    by (simp_all add: n(5) hold_row_def strPtr_def)
  ultimately show ?thesis using that n(3) by blast
qed

text \<open>Steps 4 to 6: the saga, the insert of its row, and the release of both occupations when that fails.\<close>

abbreviation saga_insert ::
  "pg_ext \<Rightarrow> go_ext \<Rightarrow> string \<Rightarrow> string \<Rightarrow> Snapshot \<Rightarrow> instant \<Rightarrow> (sagaResult \<Rightarrow> AppointmentRow) \<Rightarrow>
   (AppointmentRow \<Rightarrow> (world, booking_error + 'a) prog) \<Rightarrow> (world, booking_error + 'a) prog" where
  "saga_insert ext go rid st snap start mk K \<equiv>
     andthen (reserveSaga ext go rid st snap start) (\<lambda>saga.
       case saga of
         Inl e \<Rightarrow> Ret (Inl e)
       | Inr res \<Rightarrow>
           andthen (on_appts (InsertHeld ext (mk res))) (\<lambda>ins.
           case ins of
             Inl e \<Rightarrow> andthen (releaseBoth ext (sr_BayOccupationID res) (sr_TechOccupationID res) rid)
               (\<lambda>_. Ret (Inl ErrUnavailable))
           | Inr row \<Rightarrow> K row))"

abbreviation hold_of :: "HoldRequest \<Rightarrow> instant \<Rightarrow> sagaResult \<Rightarrow> AppointmentRow" where
  "hold_of req \<equiv> hold_row (hq_DealershipID req) (hq_CustomerID req) (hq_VehicleID req) (hq_ServiceTypeID req)"

text \<open>
  Steps 4 to 6 followed by whatever uses the inserted row: \<open>P\<close> is what a successful saga
  establishes.
\<close>

lemma wp_saga_insert:
  assumes saga: "wp (reserveSaga ext go rid st snap start) C (\<lambda>r w'. case r of Inl e \<Rightarrow> Q (Inl e) w' | Inr res \<Rightarrow> P res w') w"
    and undo: "\<And>res w1 rows. P res w1 \<Longrightarrow>
      wp (releaseBoth ext (sr_BayOccupationID res) (sr_TechOccupationID res) rid) C (\<lambda>_ w'. Q (Inl ErrUnavailable) w')
        (set_w_appts rows w1)"
    and ins: "\<And>res row rows w1. P res w1 \<Longrightarrow> inserted ext (mk res) (w_appts w1) row rows \<Longrightarrow>
      wp (K row) C Q (set_w_appts rows w1)"
  shows "wp (saga_insert ext go rid st snap start mk K) C Q w"
  unfolding wp_andthen [where p = "reserveSaga ext go rid st snap start"]
proof (rule wp_mono [OF saga], goal_cases)
  case (1 r w1)
  show ?case
  proof (cases r)
    case (Inr res)
    then have P: "P res w1" using 1 by simp
    show ?thesis
      unfolding Inr sum.case wp_andthen [where p = "on_appts p" for p] wp_on_appts
    proof (rule wp_mono [OF wp_InsertHeld], goal_cases)
      case (1 res2 rows)
      show ?case
      proof (cases res2)
        case (Inl e)
        then show ?thesis using undo [OF P, of rows] by simp
      next
        case (Inr row)
        then show ?thesis using ins [OF P, of row rows] 1 by (simp add: inserted_def)
      qed
    qed
  qed (use 1 in simp)
qed

lemma wp_CreateHold:
  assumes "\<And>m. Q (Inl (ErrInvalid m)) w"
    and "\<And>start snap. parseStart go (hq_Start req) = Some start \<Longrightarrow> withinHours go snap start \<Longrightarrow>
      sn_DealershipID snap = hq_DealershipID req \<Longrightarrow>
      wp (saga_insert ext go rid (hq_ServiceTypeID req) snap start (hold_of req start)
        (\<lambda>row. Ret (Inr (toAppointment go row)))) C Q w"
  shows "wp (CreateHold ext go rid req) C Q w"
proof (cases "parseStart go (hq_Start req)")
  case (Some start)
  show ?thesis
    unfolding CreateHold_def Some option.case wp_andthen [where p = "take_snapshot a b c d e" for a b c d e]
  proof (rule wp_mono [OF wp_take_snapshot], elim conjE, goal_cases)
    case (1 s w1)
    then show ?case
      using assms Some by (cases s) (auto simp: time_now_def simp del: wp_andthen simp: wp_andthen [where p = "atomic f" for f])
  qed
qed (simp add: CreateHold_def assms)

section \<open>A failed hold leaves nothing claimed\<close>

lemma CreateHold_law:
  assumes C: "\<And>c. C c \<Longrightarrow> compensating ext c"
  shows "wp (CreateHold ext go rid req) C (\<lambda>r w'. \<forall>e. r = Inl e \<longrightarrow> no_new_live w w') w"
proof (rule wp_CreateHold)
  fix start snap
  show "wp (saga_insert ext go rid (hq_ServiceTypeID req) snap start (hold_of req start)
        (\<lambda>row. Ret (Inr (toAppointment go row)))) C (\<lambda>r w'. \<forall>e. r = Inl e \<longrightarrow> no_new_live w w') w"
    by (rule wp_saga_insert [where P = "\<lambda>res. saga_pending ext w (sr_TechOccupationID res) (sr_BayOccupationID res)"],
      rule wp_mono [OF reserveSaga_law [where C = C and ext = ext, OF C]], assumption)
      (auto split: sum.splits intro!: wp_mono [OF undo_saga [where C = C and ext = ext, OF C]])
qed simp

text \<open>
  C2: A CreateHold that fails, for whatever reason and at whatever step, leaves no occupation
  live on either allocator that was not live before, provided its Releases get through and no
  Reserve was carried out behind a lost reply: compensation in reverse order is complete.
\<close>

theorem CreateHold_failure_leaks_nothing:
  assumes "\<forall>n. compensating ext (cs n)"
    and "run (CreateHold ext go rid req) cs w = (Inl e, w')"
  shows "no_new_live w w'"
  using wp_run [OF CreateHold_law [where C = "compensating ext" and ext = ext and go = go and rid = rid and req = req and w = w], of cs] assms
  by auto

lemma CreateHold_failure_leaks_nothing_witness:
  "fst (run (CreateHold demo_ext demo_go ''rid'' demo_hold) demo_open demo_no_bays) = Inl ErrUnavailable \<and>
   no_new_live demo_no_bays (snd (run (CreateHold demo_ext demo_go ''rid'' demo_hold) demo_open demo_no_bays))"
proof -
  have r: "fst (run (CreateHold demo_ext demo_go ''rid'' demo_hold) demo_open demo_no_bays) = Inl ErrUnavailable"
    by (simp add: system_eval cong: lazy)
  have "compensating demo_ext (demo_open n)" for n
    by (simp add: compensating_def demo_open_def demo_choice_def demo_ext_def)
  with r show ?thesis
    using CreateHold_failure_leaks_nothing [of demo_ext demo_open, OF _ run_surj [OF r]] by simp
qed

section \<open>What a hold sends and leaves\<close>

definition saga_done :: "go_ext \<Rightarrow> Snapshot \<Rightarrow> instant \<Rightarrow> world \<Rightarrow> sagaResult \<Rightarrow> world \<Rightarrow> bool" where
  "saga_done go snap start w res w' \<longleftrightarrow> w_appts w' = w_appts w \<and>
     (\<exists>closeAt now1 now2. latestEnd go snap start = Some closeAt \<and> sr_End res \<le> closeAt \<and>
        held_row (sr_TechOccupationID res) (sr_TechnicianID res) start (sr_End res) now1 \<in> set (tech_occs (w_tech w')) \<and>
        held_row (sr_BayOccupationID res) (sr_ServiceBayID res) start (sr_End res) now2 \<in> set (bay_occs (w_bay w')))"

lemma wp_CreateHold_done:
  "wp (CreateHold ext go rid req) (\<lambda>_. True) (\<lambda>r w'. \<forall>appt. r = Inr appt \<longrightarrow> (\<exists>start snap res row rows w1.
     parseStart go (hq_Start req) = Some start \<and> sn_DealershipID snap = hq_DealershipID req \<and>
     withinHours go snap start \<and> saga_done go snap start w res w1 \<and>
     inserted ext (hold_of req start res) (w_appts w1) row rows \<and>
     appt = toAppointment go row \<and> w' = set_w_appts rows w1)) w"
    (is "wp _ _ ?Q w")
proof (rule wp_CreateHold)
  fix start snap
  assume "parseStart go (hq_Start req) = Some start" "withinHours go snap start" "sn_DealershipID snap = hq_DealershipID req"
  moreover have "wp (reserveSaga ext go rid (hq_ServiceTypeID req) snap start) (\<lambda>_. True)
      (\<lambda>r w'. case r of Inl e \<Rightarrow> ?Q (Inl e) w' | Inr res \<Rightarrow> saga_done go snap start w res w') w"
    by (rule wp_mono [OF wp_reserveSaga [where D = "\<lambda>_. True"]]) (auto simp: saga_done_def split: sum.splits)
  ultimately show "wp (saga_insert ext go rid (hq_ServiceTypeID req) snap start (hold_of req start)
      (\<lambda>row. Ret (Inr (toAppointment go row)))) (\<lambda>_. True) ?Q w"
    by - (rule wp_saga_insert [where P = "saga_done go snap start w"], assumption, rule wp_mono [OF wp_True], simp,
      unfold wp.simps, blast)
qed simp


abbreviation undo_order :: "call list" where
  "undo_order \<equiv> [TechReserveRPC, BayReserveRPC, BayReleaseRPC, TechReleaseRPC]"

lemma wp_releaseBoth_calls:
  assumes "calls rid w v [TechReserveRPC, BayReserveRPC]" and "t \<noteq> ''''" and "b \<noteq> ''''"
  shows "wp (releaseBoth ext b t rid) (\<lambda>c. fresh_id c \<noteq> '''') (\<lambda>_ w'. calls rid w w' undo_order) v"
  unfolding releaseBoth_def wp_andthen
proof (rule wp_mono [OF wp_releaseBay], elim conjE, goal_cases)
  case (1 x w2)
  then have c2: "calls rid w w2 [TechReserveRPC, BayReserveRPC, BayReleaseRPC]" using assms by fastforce
  show ?case by (rule wp_mono [OF wp_releaseTech], elim conjE) (use c2 assms(2) in fastforce)
qed




end
