(* ===== verification/Confirms.thy ===== *)
theory Confirms
  imports Holds
begin

text \<open>
  What step 7 guarantees: a confirmation answered 201 stands on two CONFIRMED occupations and a
  CONFIRMED row, a refused one has released both, and a replay touches nothing.
\<close>

section \<open>Promotion\<close>

text \<open>The row \<open>u\<close> after a promotion that may or may not have happened.\<close>

definition maybe_promoted :: "string \<Rightarrow> string \<Rightarrow> string \<Rightarrow> AppointmentRow list \<Rightarrow> AppointmentRow list \<Rightarrow> bool" where
  "maybe_promoted u key fp rows rows' \<longleftrightarrow>
     rows' = rows \<or> rows' = update_where (\<lambda>r. ar_ID r = u \<and> held r) (promote_row key fp) rows"

lemma wp_Promote:
  assumes "uuid_in ext i = Some u"
  shows "wp (Promote ext i key fp) C (\<lambda>r rows'. maybe_promoted u key fp rows rows' \<and>
     (\<forall>row. r = Inr row \<longrightarrow> (\<exists>r0 \<in> set rows. ar_ID r0 = u \<and> held r0) \<and>
        rows' = update_where (\<lambda>r. ar_ID r = u \<and> held r) (promote_row key fp) rows)) rows"
proof -
  have "wp (promote_stmt ext i key fp) C (\<lambda>r rows'. maybe_promoted u key fp rows rows' \<and>
     (\<forall>row. r = Inr row \<longrightarrow> (\<exists>r0 \<in> set rows. ar_ID r0 = u \<and> held r0) \<and>
        rows' = update_where (\<lambda>r. ar_ID r = u \<and> held r) (promote_row key fp) rows)) rows"
    unfolding promote_stmt_def using assms
    by (intro wp_sqlI) (auto simp: maybe_promoted_def promote_appts_def split: option.splits if_splits
        dest: select_one_Some)
  then show ?thesis
    unfolding Promote_def wp_andthen by (rule wp_mono) (auto split: sum.splits)
qed

lemma lookup_promoted:
  assumes "select_one (\<lambda>r. ar_ID r = u) rows = Some row0" and "maybe_promoted u key fp rows rows'"
  shows "\<exists>r. select_one (\<lambda>r. ar_ID r = u) rows' = Some r \<and>
     (r = row0 \<or> held row0 \<and> r = promote_row key fp row0)"
  using assms promoting.lookup_after [of u u key fp rows] by (auto simp: maybe_promoted_def)

lemma lookup_promote_won:
  assumes "distinct (map ar_ID rows)" and "select_one (\<lambda>r. ar_ID r = u) rows = Some row0"
    and "r0 \<in> set rows" "ar_ID r0 = u" "held r0"
  shows "held row0" and "select_one (\<lambda>r. ar_ID r = u) (update_where (\<lambda>r. ar_ID r = u \<and> held r) (promote_row key fp) rows) =
    Some (promote_row key fp row0)"
proof -
  have "select_one (\<lambda>r. ar_ID r = u) rows = Some r0" using select_key_unique [OF assms(1,3)] assms(4) by simp
  then show held: "held row0" using assms(2,5) by simp
  then show "select_one (\<lambda>r. ar_ID r = u) (update_where (\<lambda>r. ar_ID r = u \<and> held r) (promote_row key fp) rows) =
    Some (promote_row key fp row0)"
    using assms(2) promoting.lookup_after [of u u key fp rows] by simp
qed

text \<open>A promotion whose outcome is unclear is read back: only a CONFIRMED row is taken for a success.\<close>

lemma wp_read_back:
  assumes "uuid_in ext i = Some u" and "select_one (\<lambda>r. ar_ID r = u) (w_appts w) = Some r"
    and give: "\<And>e. wp (giveUp e) C Q w" and "ar_Status r = StatusConfirmed \<Longrightarrow> Q None w"
  shows "wp (andthen (on_appts (get_stmt ext i)) (\<lambda>cur. case cur of
      Inl getErr \<Rightarrow> giveUp ErrUnavailable
    | Inr cur \<Rightarrow> (case ar_Status cur of
         StatusConfirmed \<Rightarrow> Ret None
       | StatusCancelled \<Rightarrow> giveUp ErrUnavailable
       | StatusHeld \<Rightarrow> if unique then giveUp ErrIdempotencyConflict else giveUp ErrUnavailable))) C Q w"
  unfolding wp_andthen wp_on_appts
proof (rule wp_mono [OF wp_get_stmt], elim conjE, goal_cases)
  case (1 cur rows)
  have same: "set_w_appts rows w = w" using 1(1) by (simp add: set_w_appts_def)
  show ?case
    unfolding same using 1 assms by (cases cur) (auto split: appt_status.split)
qed

text \<open>Success means confirmed occupations and a confirmed row, whatever the network did.\<close>

lemma promoteConfirmed_success:
  assumes row0: "uuid_in ext (ar_ID row) = Some u" "select_one (\<lambda>r. ar_ID r = u) (w_appts w) = Some row0"
    and ids: "ar_TechOccupationID row = Some t" "ar_BayOccupationID row = Some b"
    and ok: "distinct (map ar_ID (w_appts w))"
  shows "wp (promoteConfirmed ext rid row key fp) C (\<lambda>r w'. r = None \<longrightarrow>
     (\<exists>r. select_one (\<lambda>r. ar_ID r = u) (w_appts w') = Some r \<and> ar_Status r = StatusConfirmed \<and>
        (r = row0 \<or> held row0 \<and> r = promote_row key fp row0)) \<and>
     occ_confirmed ext t (tech_occs (w_tech w')) \<and> occ_confirmed ext b (bay_occs (w_bay w'))) w"
    (is "wp _ C ?Q w")
proof -
  have give: "wp (andthen (releaseBoth ext b t rid) (\<lambda>_. Ret (Some e))) C ?Q w'" for e w'
    unfolding wp_andthen by (rule wp_mono [OF wp_True]) simp
  show ?thesis
    unfolding promoteConfirmed_def ids deref_def option.case Let_def wp_andthen
  proof (simp only: option.distinct HOL.simp_thms if_False, unfold wp_andthen,
      rule wp_mono [OF confirmBoth_confirms], elim conjE, goal_cases)
    case conf: (1 conf w1)
    show ?case
    proof (cases conf)
      case (Inl e)
      then show ?thesis using give [of ErrUnavailable w1] by simp
    next
      case (Inr x)
      show ?thesis
        unfolding Inr sum.case wp_andthen [where p = "on_appts p" for p] wp_on_appts
      proof (rule wp_mono [OF wp_Promote [OF row0(1)]], elim conjE, goal_cases)
        case (1 prom rows1)
        obtain r where r: "select_one (\<lambda>r. ar_ID r = u) rows1 = Some r"
            "r = row0 \<or> held row0 \<and> r = promote_row key fp row0"
          using lookup_promoted [OF row0(2), of key fp rows1] 1(1) conf by auto
        show ?case
        proof (cases prom)
          case (Inl err)
          show ?thesis
            unfolding Inl sum.case wp_on_appts [symmetric] wp_andthen [symmetric]
            by (rule wp_read_back [OF row0(1), of _ r, OF _ give]) (use r conf \<open>conf = Inr x\<close> in auto)
        next
          case (Inr prow)
          then show ?thesis
            using 1 conf \<open>conf = Inr x\<close> lookup_promote_won [OF ok row0(2)] by (auto simp: promote_row_def)
        qed
      qed
    qed
  qed
qed

text \<open>A property of the allocators that the two Confirms establish reaches every exit.\<close>

lemma promoteConfirmed_exits:
  assumes ids: "ar_TechOccupationID row = Some t" "ar_BayOccupationID row = Some b"
    and conf: "wp (confirmBoth ext t b rid) C (\<lambda>_ w'. P w') w"
    and frame: "\<And>w' rows. P w' \<Longrightarrow> P (set_w_appts rows w')"
    and fin: "\<And>w'. P w' \<Longrightarrow> Q None w'"
    and give: "\<And>w' e. P w' \<Longrightarrow> wp (releaseBoth ext b t rid) C (\<lambda>_ w''. Q (Some e) w'') w'"
  shows "wp (promoteConfirmed ext rid row key fp) C Q w"
proof -
  have give2: "wp (andthen (releaseBoth ext b t rid) (\<lambda>_. Ret (Some e))) C Q w'" if "P w'" for e w'
    using give [OF that] by simp
  have cur: "wp (case cur of
          Inl getErr \<Rightarrow> andthen (releaseBoth ext b t rid) (\<lambda>_. Ret (Some ErrUnavailable))
        | Inr cur \<Rightarrow> (case ar_Status cur of StatusConfirmed \<Rightarrow> Ret None
             | StatusCancelled \<Rightarrow> andthen (releaseBoth ext b t rid) (\<lambda>_. Ret (Some ErrUnavailable))
             | StatusHeld \<Rightarrow>
                 if isUniqueViolation err
                 then andthen (releaseBoth ext b t rid) (\<lambda>_. Ret (Some ErrIdempotencyConflict))
                 else andthen (releaseBoth ext b t rid) (\<lambda>_. Ret (Some ErrUnavailable)))) C Q w'"
    if "P w'" for cur :: "pg_error + AppointmentRow" and err w'
    using give2 [OF that] fin [OF that]
    by (cases cur; cases "ar_Status (projr cur)") (simp_all del: wp_andthen)
  show ?thesis
    unfolding promoteConfirmed_def ids deref_def option.case Let_def
  proof (simp only: option.distinct HOL.simp_thms if_False, unfold wp_andthen [where p = "confirmBoth ext t b rid"],
      rule wp_mono [OF conf], goal_cases)
    case (1 conf w1)
    show ?case
    proof (cases conf)
      case (Inl e)
      then show ?thesis using give2 [OF 1] by (simp only: sum.case)
    next
      case (Inr x)
      show ?thesis
        unfolding Inr sum.case wp_andthen [where p = "on_appts p" for p] wp_on_appts
      proof (rule wp_mono [OF wp_True], goal_cases)
        case (1 prom rows)
        have p: "P (set_w_appts rows w1)" by (rule frame) fact
        show ?case
        proof (cases prom)
          case (Inl err)
          show ?thesis
            unfolding Inl sum.case wp_andthen [where p = "on_appts p" for p] wp_on_appts
            by (rule wp_mono [OF wp_True], rule cur, rule frame, rule p)
        next
          case (Inr r)
          then show ?thesis using fin [OF p] by simp
        qed
      qed
    qed
  qed
qed

lemma promoteConfirmed_failure:
  assumes C: "\<And>c. C c \<Longrightarrow> releases_delivered c"
    and ids: "ar_TechOccupationID row = Some t" "ar_BayOccupationID row = Some b"
    and t: "t \<noteq> ''''" "uuid_in ext t = Some ut" and b: "b \<noteq> ''''" "uuid_in ext b = Some ub"
  shows "wp (promoteConfirmed ext rid row key fp) C (\<lambda>r w'. r \<noteq> None \<longrightarrow>
     occ_freed ext t (tech_occs (w_tech w')) \<and> occ_freed ext b (bay_occs (w_bay w'))) w"
  by (rule promoteConfirmed_exits [OF ids, where P = "\<lambda>_. True"])
    (auto intro!: wp_mono [OF releaseBoth_frees [OF C t b]])

lemma promoteConfirmed_keeps_pending:
  assumes pend: "saga_pending ext w0 t b w" and ids: "ar_TechOccupationID row = Some t" "ar_BayOccupationID row = Some b"
  shows "wp (promoteConfirmed ext rid row key fp) C (\<lambda>r w'. saga_pending ext w0 t b w') w"
proof (rule promoteConfirmed_exits [OF ids, where P = "saga_pending ext w0 t b"])
  show "wp (confirmBoth ext t b rid) C (\<lambda>_ w'. saga_pending ext w0 t b w') w"
    by (rule wp_mono [OF confirmBoth_keeps_pending [OF pend]]) simp
qed (auto intro: releaseBoth_keeps_pending)

section \<open>A confirmation answered 201\<close>

text \<open>The canonical text of a \<open>uuid\<close> reads back as itself.\<close>

definition uuid_canonical :: "pg_ext \<Rightarrow> bool" where
  "uuid_canonical ext \<longleftrightarrow> (\<forall>x u. uuid_in ext x = Some u \<longrightarrow> uuid_in ext u = Some u)"

text \<open>
  What 201 promises of the system, \<open>key\<close> being the Idempotency-Key of the request and \<open>fp\<close> its
  fingerprint.
\<close>

definition confirmed_as :: "pg_ext \<Rightarrow> go_ext \<Rightarrow> string \<Rightarrow> string \<Rightarrow> Appointment \<Rightarrow> world \<Rightarrow> bool" where
  "confirmed_as ext go key fp appt w \<longleftrightarrow> (\<exists>r \<in> set (w_appts w). \<exists>t b.
     appt = toAppointment go r \<and> ar_Status r = StatusConfirmed \<and> ar_HoldExpiresAt r = None \<and>
     ar_IdempotencyKey r = nullif_empty key \<and> ar_RequestFingerprint r = nullif_empty fp \<and>
     ar_TechOccupationID r = Some t \<and> occ_confirmed ext t (tech_occs (w_tech w)) \<and>
     ar_BayOccupationID r = Some b \<and> occ_confirmed ext b (bay_occs (w_bay w)))"

definition confirmed_201 :: "pg_ext \<Rightarrow> go_ext \<Rightarrow> string \<Rightarrow> Appointment \<Rightarrow> world \<Rightarrow> bool" where
  "confirmed_201 ext go key appt w \<longleftrightarrow> (\<exists>fp. confirmed_as ext go key fp appt w)"

lemma promote_and_get_201:
  assumes row0: "uuid_in ext (ar_ID row) = Some u" "select_one (\<lambda>r. ar_ID r = u) (w_appts w) = Some row0"
    and held: "held row0"
    and ids: "ar_TechOccupationID row = Some t" "ar_BayOccupationID row = Some b"
    and ids0: "ar_TechOccupationID row0 = Some ut" "ut = t \<or> uuid_in ext t = Some ut"
      "ar_BayOccupationID row0 = Some ub" "ub = b \<or> uuid_in ext b = Some ub"
    and ok: "distinct (map ar_ID (w_appts w))" and can: "uuid_canonical ext"
  shows "wp (promote_and_get ext go rid row key fp) C
     (\<lambda>r w'. \<forall>appt code. r = Inr (appt, code) \<longrightarrow> code = 201 \<and> confirmed_as ext go key fp appt w') w"
  unfolding promote_and_get_def wp_andthen
proof (rule wp_mono [OF promoteConfirmed_success [OF row0 ids ok]], goal_cases)
  case (1 err w1)
  show ?case
  proof (cases err)
    case None
    then obtain r where r: "select_one (\<lambda>r. ar_ID r = u) (w_appts w1) = Some r" "ar_Status r = StatusConfirmed"
        "r = row0 \<or> r = promote_row key fp row0"
      and occ: "occ_confirmed ext t (tech_occs (w_tech w1))" "occ_confirmed ext b (bay_occs (w_bay w1))"
      using 1 by auto
    have rp: "r = promote_row key fp row0" using r(2,3) held by (auto simp: held_def)
    have "occ_confirmed ext ut (tech_occs (w_tech w1))" "occ_confirmed ext ub (bay_occs (w_bay w1))"
      using occ ids0 can by (auto simp: occ_confirmed_def uuid_canonical_def)
    then have "confirmed_as ext go key fp (toAppointment go r) w1"
      unfolding confirmed_as_def using select_one_Some [OF r(1)] r(2) ids0
      by (intro bexI [of _ r] exI [of _ ut] exI [of _ ub]) (auto simp: rp promote_row_def)
    then show ?thesis
      unfolding None option.case wp_andthen wp_on_appts
      by (intro wp_mono [OF wp_get_stmt]) (use row0 r(1) in \<open>auto simp: set_w_appts_def split: sum.split\<close>)
  qed simp
qed

lemma promote_and_get_no_ids:
  assumes "ar_TechOccupationID row = None \<or> ar_BayOccupationID row = None"
  shows "promote_and_get ext go rid row key fp = Ret (Inl ErrUnavailable)"
  using assms by (simp add: promote_and_get_def promoteConfirmed_def)

lemma confirmHold_201:
  assumes ok: "appts_ok (w_appts w)" and can: "uuid_canonical ext"
  shows "wp (confirmHold ext go rid key req) C
     (\<lambda>r w'. \<forall>appt. r = Inr (appt, 201) \<longrightarrow> confirmed_201 ext go key appt w') w"
  unfolding confirmHold_def wp_andthen [where p = "on_appts p" for p] wp_on_appts
proof (rule wp_mono [OF wp_get_stmt], elim conjE, goal_cases)
  case (1 got rows)
  show ?case
  proof (cases got)
    case (Inr row)
    obtain u where u: "uuid_in ext (cq_HoldID req) = Some u" "select_one (\<lambda>r. ar_ID r = u) (w_appts w) = Some row"
      using 1 Inr by auto
    have row: "ar_ID row = u" using select_one_Some [OF u(2)] by simp
    have canu: "uuid_in ext (ar_ID row) = Some u" using u(1) can unfolding row uuid_canonical_def by blast
    have set: "set_w_appts rows w = w" using 1 by (simp add: set_w_appts_def)
    show ?thesis
    proof (cases "ar_Status row")
      case StatusHeld
      then have heldI: "held row" by (simp add: held_def)
      show ?thesis
        unfolding Inr sum.case StatusHeld appt_status.case
      proof (cases "ar_TechOccupationID row = None \<or> ar_BayOccupationID row = None")
        case False
        then obtain t b where ids: "ar_TechOccupationID row = Some t" "ar_BayOccupationID row = Some b" by auto
        show "wp (promote_and_get ext go rid row key (fingerprint go (cq_HoldID req) (ar_DealershipID row)
             (ar_CustomerID row) (ar_VehicleID row) (ar_ServiceTypeID row) '''')) C
           (\<lambda>r w'. \<forall>appt. r = Inr (appt, 201) \<longrightarrow> confirmed_201 ext go key appt w') (set_w_appts rows w)"
          unfolding set
          by (rule wp_mono [OF promote_and_get_201 [OF canu u(2) heldI ids ids(1) disjI1 [OF refl] ids(2) disjI1 [OF refl]
                appts_ok_distinct [OF ok] can]]) (auto simp: confirmed_201_def)
      qed (simp add: promote_and_get_no_ids)
    next
      case StatusConfirmed
      let ?ok = "Ret (Inr (toAppointment go row, 200)) :: (world, confirmed) prog"
      have "wp (GetConfirmedByIdempotencyKey key) C (\<lambda>prior rows'. wp (case prior of
            Inl e \<Rightarrow> Ret (Inl (ErrStore e)) | Inr None \<Rightarrow> ?ok
          | Inr (Some p) \<Rightarrow> if ar_ID p \<noteq> ar_ID row then Ret (Inl ErrIdempotencyConflict) else ?ok) C
          (\<lambda>r w'. \<forall>appt. r = Inr (appt, 201) \<longrightarrow> confirmed_201 ext go key appt w') (set_w_appts rows' w1)) rows1" for rows1 w1
        by (rule wp_mono [OF wp_True]) (simp split: sum.split option.split)
      then show ?thesis
        unfolding Inr sum.case StatusConfirmed appt_status.case by (simp split: if_split)
    qed (simp add: Inr)
  qed simp
qed

text \<open>What follows the replay check: steps 4 to 6, then the promotion of the row just inserted.\<close>

abbreviation confirm_of :: "ConfirmRequest \<Rightarrow> instant \<Rightarrow> sagaResult \<Rightarrow> AppointmentRow" where
  "confirm_of req \<equiv> hold_row (cq_DealershipID req) (cq_CustomerID req) (cq_VehicleID req) (cq_ServiceTypeID req)"

abbreviation fingerprint_of :: "go_ext \<Rightarrow> ConfirmRequest \<Rightarrow> string" where
  "fingerprint_of go req \<equiv> fingerprint go '''' (cq_DealershipID req) (cq_CustomerID req) (cq_VehicleID req)
     (cq_ServiceTypeID req) (cq_Start req)"

abbreviation confirm_tail ::
  "pg_ext \<Rightarrow> go_ext \<Rightarrow> string \<Rightarrow> string \<Rightarrow> ConfirmRequest \<Rightarrow> Snapshot \<Rightarrow> instant \<Rightarrow> (world, confirmed) prog" where
  "confirm_tail ext go rid key req snap start \<equiv> saga_insert ext go rid (cq_ServiceTypeID req) snap start
     (confirm_of req start) (\<lambda>row. promote_and_get ext go rid row key (fingerprint_of go req))"

lemma wp_confirmWithoutHold:
  assumes "\<And>m. Q (Inl (ErrInvalid m)) w"
    and "\<And>start snap. parseStart go (cq_Start req) = Some start \<Longrightarrow> withinHours go snap start \<Longrightarrow>
      wp (replay go key req) C (\<lambda>rep w'. case rep of
          Inl e \<Rightarrow> Q (Inl e) w'
        | Inr (Some appt) \<Rightarrow> Q (Inr (appt, 200)) w'
        | Inr None \<Rightarrow>
            wp (confirm_tail ext go rid key req snap start) C Q w') w"
  shows "wp (confirmWithoutHold ext go rid key req) C Q w"
proof (cases "parseStart go (cq_Start req)")
  case (Some start)
  have rep: "wp (andthen (replay go key req) K) C Q w" 
    if "withinHours go snap start" "\<And>e. K (Inl e) = Ret (Inl e)" "\<And>a. K (Inr (Some a)) = Ret (Inr (a, 200))"
     "K (Inr None) = (confirm_tail ext go rid key req snap start)" for K snap
    unfolding wp_andthen [where p = "replay go key req"]
    by (rule wp_mono [OF assms(2) [OF Some that(1)]]) (auto simp: that split: sum.splits option.splits simp del: wp_andthen)
  show ?thesis
    unfolding confirmWithoutHold_def Some option.case wp_andthen [where p = "take_snapshot a b c d e" for a b c d e]
  proof (rule wp_mono [OF wp_take_snapshot], elim conjE, goal_cases)
    case (1 s w1)
    then show ?case
      using assms(1) rep
      by (cases s) (auto simp: time_now_def simp del: wp_andthen simp: wp_andthen [where p = "atomic f" for f])
  qed
qed (simp add: confirmWithoutHold_def assms)

lemma inserted_lookup:
  assumes "inserted ext (hold_row d c v st start res) rows row rows'" and "appts_ok rows'"
  obtains n ut ub where "uuid_in ext (ar_ID row) = Some (ar_ID n)" "select_one (\<lambda>r. ar_ID r = ar_ID n) rows' = Some n"
    "held n" "ar_TechOccupationID row = Some (sr_TechOccupationID res)"
    "ar_BayOccupationID row = Some (sr_BayOccupationID res)"
    "ar_TechOccupationID n = Some ut" "uuid_in ext (sr_TechOccupationID res) = Some ut"
    "ar_BayOccupationID n = Some ub" "uuid_in ext (sr_BayOccupationID res) = Some ub"
proof (rule inserted_hold [OF assms(1)], goal_cases)
  case (1 n)
  have "select_one (\<lambda>r. ar_ID r = ar_ID n) rows' = Some n"
    using select_key_unique [of ar_ID rows' n] assms(2) 1 by (simp add: appts_ok_def)
  with 1 that show ?thesis by (auto simp: held_def)
qed

lemma wp_replay: "wp (replay go key req) C (\<lambda>_ w'. w' = w) w"
  by (auto simp: replay_def GetConfirmedByIdempotencyKey_def wp_sql set_w_appts_def split: fault.split option.split)

lemma wp_confirmWithoutHold_tail:
  assumes "\<And>r. \<forall>appt. r \<noteq> Inr (appt, 201) \<Longrightarrow> Q r w"
    and "\<And>start snap. wp (confirm_tail ext go rid key req snap start) C Q w"
  shows "wp (confirmWithoutHold ext go rid key req) C Q w"
  by (rule wp_confirmWithoutHold, simp add: assms(1), rule wp_mono [OF wp_replay], hypsubst)
    (use assms in \<open>simp split: sum.split option.split\<close>)

lemma confirmWithoutHold_as:
  assumes ok: "appts_ok (w_appts w)" and can: "uuid_canonical ext"
  shows "wp (confirmWithoutHold ext go rid key req) C
     (\<lambda>r w'. \<forall>appt. r = Inr (appt, 201) \<longrightarrow> confirmed_as ext go key
       (fingerprint go '''' (cq_DealershipID req) (cq_CustomerID req) (cq_VehicleID req) (cq_ServiceTypeID req)
         (cq_Start req)) appt w') w"
    (is "wp _ C ?Q w")
proof (rule wp_confirmWithoutHold_tail, simp)
  fix start snap
  show "wp (confirm_tail ext go rid key req snap start) C ?Q w"
  proof (rule wp_saga_insert [where P = "\<lambda>_ w'. w_appts w' = w_appts w"],
      rule wp_mono [OF wp_reserveSaga_appts], simp split: sum.split, rule wp_mono [OF wp_True], simp)
    fix res row rows and w1 :: world
    assume w1: "w_appts w1 = w_appts w" and ins: "inserted ext (confirm_of req start res) (w_appts w1) row rows"
    have okr: "appts_ok rows" by (rule inserted_ok [OF ins]) (use w1 ok in simp)
    show "wp (promote_and_get ext go rid row key (fingerprint_of go req)) C ?Q (set_w_appts rows w1)"
    proof (rule inserted_lookup [OF ins okr], goal_cases)
      case (1 n ut ub)
      show ?case
        by (rule wp_mono [OF promote_and_get_201 [where w = "set_w_appts rows w1", OF 1(1) _ 1(3-5) 1(6)
                disjI2 [OF 1(7)] 1(8) disjI2 [OF 1(9)] _ can]], unfold w_simps,
              rule 1(2), rule appts_ok_distinct [OF okr], blast)
    qed
  qed
qed

lemma confirmWithoutHold_201:
  assumes "appts_ok (w_appts w)" and "uuid_canonical ext"
  shows "wp (confirmWithoutHold ext go rid key req) C
     (\<lambda>r w'. \<forall>appt. r = Inr (appt, 201) \<longrightarrow> confirmed_201 ext go key appt w') w"
  by (rule wp_mono [OF confirmWithoutHold_as [OF assms]]) (auto simp: confirmed_201_def)


section \<open>A confirmation refused\<close>

lemma promote_and_get_frees:
  assumes C: "\<And>c. C c \<Longrightarrow> releases_delivered c"
    and ids: "ar_TechOccupationID row = Some t" "ar_BayOccupationID row = Some b"
    and t: "t \<noteq> ''''" "uuid_in ext t = Some ut" and b: "b \<noteq> ''''" "uuid_in ext b = Some ub"
  shows "wp (promote_and_get ext go rid row key fp) C (\<lambda>r w'. \<forall>e. r = Inl e \<and> e \<noteq> ErrNotFound \<longrightarrow>
     occ_freed ext t (tech_occs (w_tech w')) \<and> occ_freed ext b (bay_occs (w_bay w'))) w"
    (is "wp _ C ?Q w")
  unfolding promote_and_get_def wp_andthen [where p = "promoteConfirmed ext rid row key fp"]
proof (rule wp_mono [OF promoteConfirmed_failure [OF C ids t b]], assumption, goal_cases)
  case (1 err w1)
  show ?case
  proof (cases err)
    case None
    have "wp (get_stmt ext (ar_ID row)) C (\<lambda>out rows. wp (case out of
           Inl e \<Rightarrow> Ret (Inl ErrNotFound) | Inr r \<Rightarrow> Ret (Inr (toAppointment go r, 201))) C ?Q (set_w_appts rows w1)) (w_appts w1)"
      by (rule wp_mono [OF wp_True]) (simp split: sum.split)
    then show ?thesis unfolding None by simp
  qed (use 1 in auto)
qed

text \<open>
  C19: When confirming a HELD appointment is refused with 409 (a Confirm failed, the promotion lost,
  or the key is taken), neither of its two occupations is live any more, provided the Releases
  get through: a refused confirmation never pins a technician or a bay.
\<close>

theorem confirmHold_refused_frees_slot:
  assumes "\<forall>n. releases_delivered (cs n)"
    and "uuid_in ext (cq_HoldID req) = Some u"
    and "select_one (\<lambda>r. ar_ID r = u) (w_appts w) = Some row" and "ar_Status row = StatusHeld"
    and "ar_TechOccupationID row = Some t" and "t \<noteq> ''''" and "uuid_in ext t = Some ut"
    and "ar_BayOccupationID row = Some b" and "b \<noteq> ''''" and "uuid_in ext b = Some ub"
    and "run (confirmHold ext go rid key req) cs w = (Inl e, w')" and "e \<noteq> ErrNotFound"
  shows "occ_freed ext t (tech_occs (w_tech w')) \<and> occ_freed ext b (bay_occs (w_bay w'))"
proof -
  have law: "wp (confirmHold ext go rid key req) releases_delivered
     (\<lambda>r w'. \<forall>e. r = Inl e \<and> e \<noteq> ErrNotFound \<longrightarrow>
        occ_freed ext t (tech_occs (w_tech w')) \<and> occ_freed ext b (bay_occs (w_bay w'))) w"
    unfolding confirmHold_def wp_andthen [where p = "on_appts p" for p] wp_on_appts
  proof (rule wp_mono [OF wp_get_stmt], elim conjE, goal_cases)
    case (1 got rows)
    show ?case
    proof (cases got)
      case (Inr r)
      then have r: "r = row" using 1 assms(2,3) by simp
      show ?thesis
        unfolding Inr sum.case r assms(4) appt_status.case
        by (rule promote_and_get_frees [OF _ assms(5,8,6,7,9,10)])
    qed simp
  qed
  from wp_run [OF law, of cs] assms(1,11,12) show ?thesis by auto
qed

section \<open>A confirmation without hold refused\<close>

lemma promote_and_get_failure:
  assumes pend: "saga_pending ext w t b v"
    and ids: "ar_TechOccupationID row = Some t" "ar_BayOccupationID row = Some b"
  shows "wp (promote_and_get ext go rid row key fp) (compensating ext)
    (\<lambda>r w'. \<forall>e. r = Inl e \<and> e \<noteq> ErrNotFound \<longrightarrow> no_new_live w w') v"
proof -
  have D: "\<And>c. compensating ext c \<Longrightarrow> releases_delivered c" by (simp add: compensating_def releases_delivered_def)
  have rel: "t \<noteq> ''''" "uuid_in ext t = Some t" "b \<noteq> ''''" "uuid_in ext b = Some b"
    using pend by (auto simp: saga_pending_def releasable_def)
  show ?thesis
    unfolding promote_and_get_def wp_andthen [where p = "promoteConfirmed a b c d e" for a b c d e]
  proof (rule wp_mono [OF wp_conj [OF promoteConfirmed_failure [OF D ids rel] promoteConfirmed_keeps_pending [OF pend ids]]],
      assumption, elim conjE, goal_cases)
    case (1 err w2)
    show ?case
    proof (cases err)
      case None
      show ?thesis
        unfolding None option.case wp_andthen wp_on_appts
        by (rule wp_mono [OF wp_True]) (simp split: sum.split)
    next
      case (Some e)
      then show ?thesis using 1 pending_and_freed by auto
    qed
  qed
qed


section \<open>Replays and dead ends\<close>

text \<open>
  C36: Confirming a hold whose row is no longer HELD changes nothing and sends no RPC: an unknown
  or malformed id is not found, a CANCELLED row is unavailable, a CONFIRMED row is replayed with
  200 as it stands unless the key already belongs to another confirmed appointment.
\<close>

theorem confirmHold_not_held:
  assumes "\<forall>n. faults (cs n) = (\<lambda>_. Deliver)"
    and "\<forall>row. select_one (\<lambda>r. Some (ar_ID r) = uuid_in ext (cq_HoldID req)) (w_appts w) = Some row \<longrightarrow>
           ar_Status row \<noteq> StatusHeld"
  shows "run (confirmHold ext go rid key req) cs w =
    (case select_one (\<lambda>r. Some (ar_ID r) = uuid_in ext (cq_HoldID req)) (w_appts w) of
       None \<Rightarrow> Inl ErrNotFound
     | Some row \<Rightarrow>
         if ar_Status row = StatusCancelled then Inl ErrUnavailable
         else if key \<noteq> '''' \<and> (\<exists>p. select_one (has_key key) (w_appts w) = Some p \<and> ar_ID p \<noteq> ar_ID row)
         then Inl ErrIdempotencyConflict
         else Inr (toAppointment go row, 200), w)"
proof -
  have set: "set_w_appts (w_appts w) w = w" by (simp add: set_w_appts_def)
  have look: "select_one (\<lambda>r. Some (ar_ID r) = uuid_in ext (cq_HoldID req)) (w_appts w) =
      (case uuid_in ext (cq_HoldID req) of None \<Rightarrow> None | Some u \<Rightarrow> select_one (\<lambda>r. ar_ID r = u) (w_appts w))"
    by (auto simp: select_one_None_iff split: option.split)
  have get: "run (andthen (on_appts (get_stmt ext (cq_HoldID req))) h) cs w =
      run (h (case select_one (\<lambda>r. Some (ar_ID r) = uuid_in ext (cq_HoldID req)) (w_appts w) of
          None \<Rightarrow> Inl (if uuid_in ext (cq_HoldID req) = None then OtherError else ErrNoRows) | Some r \<Rightarrow> Inr r))
        (\<lambda>n. cs (Suc n)) w" for h :: "pg_error + AppointmentRow \<Rightarrow> (world, confirmed) prog"
    using assms(1) unfolding look by (simp add: get_stmt_def sql_def atomic_def set split: option.split)
  show ?thesis
  proof (cases "select_one (\<lambda>r. Some (ar_ID r) = uuid_in ext (cq_HoldID req)) (w_appts w)")
    case None
    then show ?thesis by (simp add: confirmHold_def get)
  next
    case (Some row)
    with assms(2) have "ar_Status row \<noteq> StatusHeld" by blast
    then consider "ar_Status row = StatusConfirmed" | "ar_Status row = StatusCancelled"
      by (cases "ar_Status row") simp_all
    then show ?thesis
    proof cases
      case 1
      then show ?thesis
        using assms(1) unfolding confirmHold_def get Some
        by (simp add: GetConfirmedByIdempotencyKey_def sql_def atomic_def set split: option.split)
    next
      case 2
      then show ?thesis unfolding confirmHold_def get Some by simp
    qed
  qed
qed

section \<open>Concrete runs\<close>

lemma demo_canonical: "uuid_canonical demo_ext"
  by (simp add: uuid_canonical_def demo_ext_def)


lemma confirmHold_refused_frees_slot_witness:
  "fst (run (confirmHold demo_ext demo_go ''rid'' ''k'' (demo_confirm ''h'')) demo_open (demo_held_world monday)) =
     Inl ErrUnavailable \<and>
   occ_freed demo_ext ''O'' (tech_occs (w_tech (snd (run (confirmHold demo_ext demo_go ''rid'' ''k'' (demo_confirm ''h''))
     demo_open (demo_held_world monday))))) \<and>
   occ_freed demo_ext ''O'' (bay_occs (w_bay (snd (run (confirmHold demo_ext demo_go ''rid'' ''k'' (demo_confirm ''h''))
     demo_open (demo_held_world monday)))))"
proof -
  have r: "fst (run (confirmHold demo_ext demo_go ''rid'' ''k'' (demo_confirm ''h'')) demo_open (demo_held_world monday)) =
     Inl ErrUnavailable"
    by (simp add: system_eval held_eval cong: lazy)
  show ?thesis
    using confirmHold_refused_frees_slot [OF _ _ _ _ _ _ _ _ _ _ run_surj [OF r], of "''h''" "demo_appt ''h'' monday" "''O''" "''O''" "''O''" "''O''"] r
    by (simp add: releases_delivered_def demo_open_def demo_choice_def demo_ext_def demo_confirm_def
        demo_held_world_def demo_appt_def select_one_def)
qed

lemma confirmHold_not_held_witness:
  "run (confirmHold demo_ext demo_go ''rid'' ''k'' (demo_confirm ''h'')) demo_cs
     (set_w_appts [cancel_row (demo_appt ''h'' monday)] demo_world) =
   (Inl ErrUnavailable, set_w_appts [cancel_row (demo_appt ''h'' monday)] demo_world)"
  by (subst confirmHold_not_held)
    (simp_all add: demo_cs_def demo_choice_def demo_ext_def demo_confirm_def demo_appt_def cancel_row_def select_one_def)

text \<open>The occupations expire between the saga and the Confirms.\<close>

definition demo_late :: "nat \<Rightarrow> choice" where
  "demo_late n = (demo_open n)\<lparr>db_now := (if n < 10 then monday else monday + 121000000)\<rparr>"


end
