(* ===== verification/Http.thy ===== *)
theory Http
  imports Confirms
begin

text \<open>
  The HTTP transport of Booking (\<open>services/booking/http.go\<close>): routing, the four handlers with the
  decoding of their bodies, and the one place where errors become statuses.  A request is what
  \<open>net/http\<close> hands to the mux: the method, the unescaped segments of the cleaned path, the headers
  under canonical names and the body; a response is a status and the value that is encoded.
\<close>

section \<open>Requests and responses\<close>

record http_req =
  rq_method :: string
  rq_path :: "string list"
  rq_header :: "(string \<times> string) list"
  rq_body :: string

datatype body = NoBody | TextBody string | JsonBody json

record http_out =
  ho_status :: nat
  ho_body :: body

text \<open>\<open>Header.Get\<close>: the first value, or the empty string.\<close>

fun header_get :: "string \<Rightarrow> (string \<times> string) list \<Rightarrow> string" where
  "header_get name [] = ''''"
| "header_get name ((k, v) # hs) = (if k = name then v else header_get name hs)"

definition writeJSON :: "nat \<Rightarrow> json \<Rightarrow> http_out" where
  "writeJSON status v = \<lparr>ho_status = status, ho_body = JsonBody v\<rparr>"

definition writeError :: "nat \<Rightarrow> string \<Rightarrow> string \<Rightarrow> http_out" where
  "writeError status errName message =
     writeJSON status (JObject [(''error'', JString errName), (''message'', JString message)])"

fun mapError :: "booking_error \<Rightarrow> http_out" where
  "mapError (ErrInvalid text1) = writeError 400 ''invalid'' text1"
| "mapError ErrIdempotencyConflict =
     writeError 409 ''idempotency_conflict'' ''Idempotency-Key reused with a different request''"
| "mapError ErrNotFound = writeError 404 ''not_found'' ''appointment not found''"
| "mapError ErrUnavailable = writeError 409 ''unavailable'' ''no free slot or contended''"
| "mapError (ErrStore e) = writeError 500 ''internal'' ''internal error''"

definition requestID :: "http_req \<Rightarrow> ('w, string) prog" where
  "requestID r = (let v = header_get ''X-Request-Id'' (rq_header r) in if v \<noteq> '''' then Ret v else mint_uuid)"

section \<open>Wire shapes\<close>

definition decode_HoldRequest :: "json \<Rightarrow> HoldRequest option" where
  "decode_HoldRequest v =
     (case struct_fields v of
        None \<Rightarrow> None
      | Some fs \<Rightarrow>
          (case (decode_field decode_string '''' (field_values ''dealershipId'' fs),
                 decode_field decode_string '''' (field_values ''customerId'' fs),
                 decode_field decode_string '''' (field_values ''vehicleId'' fs),
                 decode_field decode_string '''' (field_values ''serviceTypeId'' fs),
                 decode_field decode_string '''' (field_values ''start'' fs)) of
             (Some d, Some c, Some ve, Some s, Some st) \<Rightarrow>
               Some \<lparr>hq_DealershipID = d, hq_CustomerID = c, hq_VehicleID = ve, hq_ServiceTypeID = s, hq_Start = st\<rparr>
           | _ \<Rightarrow> None))"

definition decode_ConfirmRequest :: "json \<Rightarrow> ConfirmRequest option" where
  "decode_ConfirmRequest v =
     (case struct_fields v of
        None \<Rightarrow> None
      | Some fs \<Rightarrow>
          (case (decode_field decode_string '''' (field_values ''holdId'' fs),
                 decode_field decode_string '''' (field_values ''dealershipId'' fs),
                 decode_field decode_string '''' (field_values ''customerId'' fs),
                 decode_field decode_string '''' (field_values ''vehicleId'' fs),
                 decode_field decode_string '''' (field_values ''serviceTypeId'' fs),
                 decode_field decode_string '''' (field_values ''start'' fs)) of
             (Some h, Some d, Some c, Some ve, Some s, Some st) \<Rightarrow>
               Some \<lparr>cq_HoldID = h, cq_DealershipID = d, cq_CustomerID = c, cq_VehicleID = ve,
                 cq_ServiceTypeID = s, cq_Start = st\<rparr>
           | _ \<Rightarrow> None))"

text \<open>A field tagged \<open>omitempty\<close> is left out when it is the empty string.\<close>

definition omitempty :: "string \<Rightarrow> string \<Rightarrow> (string \<times> json) list" where
  "omitempty name x = (if x = '''' then [] else [(name, JString x)])"

definition appointment_json :: "Appointment \<Rightarrow> json" where
  "appointment_json a = JObject
     ([(''id'', JString (ap_ID a)), (''dealershipId'', JString (ap_DealershipID a)),
       (''customerId'', JString (ap_CustomerID a)), (''vehicleId'', JString (ap_VehicleID a)),
       (''serviceTypeId'', JString (ap_ServiceTypeID a)), (''start_at'', JString (ap_StartAt a)),
       (''end_at'', JString (ap_EndAt a)), (''status'', JString (ap_Status a)),
       (''hold_expires_at'', case ap_HoldExpiresAt a of None \<Rightarrow> JNull | Some t \<Rightarrow> JString t)] @
      omitempty ''technicianId'' (ap_TechnicianID a) @ omitempty ''serviceBayId'' (ap_ServiceBayID a) @
      omitempty ''techOccupationId'' (ap_TechOccupation a) @ omitempty ''bayOccupationId'' (ap_BayOccupationID a))"

section \<open>Handlers\<close>

definition http_createHold :: "pg_ext \<Rightarrow> go_ext \<Rightarrow> http_req \<Rightarrow> (world, http_out) prog" where
  "http_createHold ext go r =
     (if header_get ''Idempotency-Key'' (rq_header r) \<noteq> ''''
      then Ret (writeError 400 ''invalid'' ''Idempotency-Key is confirm-only; holds are not idempotent'')
      else (case Option.bind (json_prefix go (rq_body r)) decode_HoldRequest of
              None \<Rightarrow> Ret (writeError 400 ''invalid'' ''bad JSON body'')
            | Some req \<Rightarrow>
                andthen (requestID r) (\<lambda>rid.
                andthen (CreateHold ext go rid req) (\<lambda>res.
                case res of
                  Inl err \<Rightarrow> Ret (mapError err)
                | Inr appt \<Rightarrow> Ret (writeJSON 201 (appointment_json appt))))))"

definition http_confirm :: "pg_ext \<Rightarrow> go_ext \<Rightarrow> http_req \<Rightarrow> (world, http_out) prog" where
  "http_confirm ext go r =
     (case Option.bind (json_prefix go (rq_body r)) decode_ConfirmRequest of
        None \<Rightarrow> Ret (writeError 400 ''invalid'' ''bad JSON body'')
      | Some req \<Rightarrow>
          andthen (requestID r) (\<lambda>rid.
          andthen (Confirm ext go rid (header_get ''Idempotency-Key'' (rq_header r)) req) (\<lambda>res.
          case res of
            Inl err \<Rightarrow> Ret (mapError err)
          | Inr (appt, status) \<Rightarrow> Ret (writeJSON status (appointment_json appt)))))"

definition http_get :: "pg_ext \<Rightarrow> go_ext \<Rightarrow> string \<Rightarrow> (world, http_out) prog" where
  "http_get ext go i =
     andthen (Get ext go i) (\<lambda>res.
     case res of
       Inl err \<Rightarrow> Ret (mapError err)
     | Inr appt \<Rightarrow> Ret (writeJSON 200 (appointment_json appt)))"

definition http_cancel :: "pg_ext \<Rightarrow> string \<Rightarrow> http_req \<Rightarrow> (world, http_out) prog" where
  "http_cancel ext i r =
     andthen (requestID r) (\<lambda>rid.
     andthen (Cancel ext rid i) (\<lambda>err.
     case err of
       Some e \<Rightarrow> Ret (mapError e)
     | None \<Rightarrow> Ret \<lparr>ho_status = 204, ho_body = NoBody\<rparr>))"

text \<open>
  The mux.  A \<open>GET\<close> pattern also matches \<open>HEAD\<close>, whose response has no body; a path of another
  method's pattern is 405, any other path 404.
\<close>

definition no_body :: "http_out \<Rightarrow> http_out" where
  "no_body out = out\<lparr>ho_body := NoBody\<rparr>"

definition on_head :: "http_req \<Rightarrow> ('w, http_out) prog \<Rightarrow> ('w, http_out) prog" where
  "on_head r p = (if rq_method r = ''HEAD'' then andthen p (\<lambda>out. Ret (no_body out)) else p)"

definition mux_miss :: "nat \<Rightarrow> http_out" where
  "mux_miss status = \<lparr>ho_status = status,
     ho_body = TextBody (if status = 405 then ''Method Not Allowed'' else ''404 page not found'')\<rparr>"

definition booking_handler :: "pg_ext \<Rightarrow> go_ext \<Rightarrow> http_req \<Rightarrow> (world, http_out) prog" where
  "booking_handler ext go r =
     (if rq_path r = [''holds'']
      then if rq_method r = ''POST'' then http_createHold ext go r else on_head r (Ret (mux_miss 405))
      else if rq_path r = [''appointments'']
      then if rq_method r = ''POST'' then http_confirm ext go r else on_head r (Ret (mux_miss 405))
      else if rq_path r = [''healthz'']
      then if rq_method r = ''GET'' \<or> rq_method r = ''HEAD''
           then on_head r (Ret \<lparr>ho_status = 200, ho_body = TextBody ''ok''\<rparr>) else Ret (mux_miss 405)
      else (case rq_path r of
              [p, i] \<Rightarrow>
                if p = ''appointments'' \<and> i \<noteq> ''''
                then if rq_method r = ''GET'' \<or> rq_method r = ''HEAD'' then on_head r (http_get ext go i)
                     else if rq_method r = ''DELETE'' then http_cancel ext i r
                     else Ret (mux_miss 405)
                else on_head r (Ret (mux_miss 404))
            | _ \<Rightarrow> on_head r (Ret (mux_miss 404))))"

section \<open>The statuses of the interface\<close>

text \<open>\<open>results p P\<close>: every result \<open>p\<close> can return satisfies \<open>P\<close>.\<close>

definition results :: "('w, 'a) prog \<Rightarrow> ('a \<Rightarrow> bool) \<Rightarrow> bool" where
  "results p P \<longleftrightarrow> (\<forall>w. wp p (\<lambda>_. True) (\<lambda>x _. P x) w)"

lemma results_Ret [simp]: "results (Ret x) P = P x"
  by (simp add: results_def)

lemma results_andthen: "results p P \<Longrightarrow> (\<And>x. P x \<Longrightarrow> results (f x) Q) \<Longrightarrow> results (andthen p f) Q"
  unfolding results_def wp_andthen by (intro allI) (erule allE, erule wp_mono, simp)

lemma results_any: "results p (\<lambda>_. True)"
  by (simp add: results_def wp_True)

lemma results_then: "(\<And>x. results (f x) Q) \<Longrightarrow> results (andthen p f) Q"
  by (rule results_andthen [OF results_any])

lemma results_run: "results p P \<Longrightarrow> P (fst (run p cs w))"
  unfolding results_def by (rule wp_run [where C = "\<lambda>_. True" and Q = "\<lambda>x _. P x"]) simp_all

lemma CreateHold_results: "results (CreateHold ext go rid req) (\<lambda>r. \<forall>e. r = Inl e \<longrightarrow> e = ErrUnavailable \<or> (\<exists>m. e = ErrInvalid m))"
proof -
  have saga: "results (reserveSaga ext go i st snap start) (\<lambda>r. \<forall>e. r = Inl e \<longrightarrow> e = ErrUnavailable \<or> (\<exists>m. e = ErrInvalid m))"
    for i st snap start
    unfolding reserveSaga_def by (auto split: option.split sum.split intro!: results_then)
  show ?thesis
    unfolding CreateHold_def
    by (auto split: option.split sum.split intro!: results_then results_andthen [OF saga])
qed

lemma Confirm_results: "results (Confirm ext go rid key req) (\<lambda>r. \<forall>a n. r = Inr (a, n) \<longrightarrow> n = 200 \<or> n = 201)"
  unfolding Confirm_def confirmHold_def confirmWithoutHold_def promote_and_get_def
  by (auto split: option.split sum.split appt_status.split intro!: results_then)

lemma Cancel_results: "results (Cancel ext rid i) (\<lambda>r. r \<in> {None, Some ErrNotFound, Some ErrUnavailable})"
  unfolding Cancel_def by (auto split: sum.split intro!: results_then)

lemma Get_results: "results (Get ext go i) (\<lambda>r. \<forall>e. r = Inl e \<longrightarrow> e = ErrNotFound)"
  unfolding Get_def by (auto split: sum.split intro!: results_then)

lemma on_head_results: "results p (\<lambda>out. P (ho_status out)) \<Longrightarrow> results (on_head r p) (\<lambda>out. P (ho_status out))"
  unfolding on_head_def by (auto intro!: results_andthen simp: no_body_def)

lemma status_simps [simp]:
  "ho_status (writeJSON n v) = n" "ho_status (writeError n name m) = n" "ho_status (mux_miss n) = n"
  "ho_status (mapError e) = (case e of ErrInvalid m \<Rightarrow> 400 | ErrIdempotencyConflict \<Rightarrow> 409 | ErrNotFound \<Rightarrow> 404
     | ErrUnavailable \<Rightarrow> 409 | ErrStore x \<Rightarrow> 500)"
  by (simp_all add: writeError_def writeJSON_def mux_miss_def split: booking_error.split)

lemma handler_statuses:
  "results (http_createHold ext go r) (\<lambda>out. ho_status out \<in> {201, 400, 409})"
  "results (http_confirm ext go r) (\<lambda>out. ho_status out \<in> {200, 201, 400, 404, 409, 500})"
  "results (http_cancel ext i r) (\<lambda>out. ho_status out \<in> {204, 404, 409})"
  "results (on_head r (http_get ext go i)) (\<lambda>out. ho_status out \<in> {200, 404})"
proof -
  show "results (http_createHold ext go r) (\<lambda>out. ho_status out \<in> {201, 400, 409})"
    unfolding http_createHold_def
    by (auto split: option.split sum.split booking_error.split intro!: results_then results_andthen [OF CreateHold_results])
  show "results (http_confirm ext go r) (\<lambda>out. ho_status out \<in> {200, 201, 400, 404, 409, 500})"
    unfolding http_confirm_def
    by (auto split: option.split sum.split booking_error.split intro!: results_then results_andthen [OF Confirm_results])
  show "results (http_cancel ext i r) (\<lambda>out. ho_status out \<in> {204, 404, 409})"
    unfolding http_cancel_def
    by (auto split: option.split intro!: results_then results_andthen [OF Cancel_results])
  show "results (on_head r (http_get ext go i)) (\<lambda>out. ho_status out \<in> {200, 404})"
    unfolding http_get_def
    by (rule on_head_results) (auto split: sum.split intro!: results_andthen [OF Get_results])
qed

lemma answer_statuses: "ho_status out \<in> X \<Longrightarrow> results (on_head r (Ret out)) (\<lambda>out. ho_status out \<in> X)"
  by (rule on_head_results) simp

text \<open>
  C33: The statuses of the interface, whatever the request and the state: POST /holds answers 201,
  400 or 409; POST /appointments 200, 201, 400, 404, 409 or 500; GET of an appointment 200 or 404;
  DELETE 204, 404 or 409; the health check 200; anything else 404 or 405.
\<close>

theorem booking_handler_statuses:
  "ho_status (fst (run (booking_handler ext go r) cs w)) \<in>
    (case (rq_method r, rq_path r) of (m, p) \<Rightarrow>
       if m = ''POST'' \<and> p = [''holds''] then {201, 400, 409}
       else if m = ''POST'' \<and> p = [''appointments''] then {200, 201, 400, 404, 409, 500}
       else if m = ''DELETE'' \<and> length p = 2 \<and> p ! 0 = ''appointments'' \<and> p ! 1 \<noteq> '''' then {204, 404, 409}
       else if (m = ''GET'' \<or> m = ''HEAD'') \<and> length p = 2 \<and> p ! 0 = ''appointments'' \<and> p ! 1 \<noteq> '''' then {200, 404}
       else if (m = ''GET'' \<or> m = ''HEAD'') \<and> p = [''healthz''] then {200}
       else {404, 405})"
proof -
  note h = handler_statuses(1) and c = handler_statuses(2)
  note d = handler_statuses(3) and g = handler_statuses(4) and m = answer_statuses
  show ?thesis
  proof (cases "rq_path r = [''holds''] \<or> rq_path r = [''appointments''] \<or> rq_path r = [''healthz'']")
    case True
    then show ?thesis
      using results_run [OF h [of ext go r], of cs w] results_run [OF c [of ext go r], of cs w]
        results_run [OF m [of "mux_miss 405" "{404, 405}" r], of cs w]
        results_run [OF m [of "\<lparr>ho_status = 200, ho_body = TextBody ''ok''\<rparr>" "{200}" r], of cs w]
      by (auto simp: booking_handler_def)
  next
    case False
    show ?thesis
    proof (cases "\<exists>i. rq_path r = [''appointments'', i] \<and> i \<noteq> ''''")
      case True
      then obtain i where "rq_path r = [''appointments'', i]" "i \<noteq> ''''" by blast
      then show ?thesis
        using results_run [OF d [of ext i r], of cs w] results_run [OF g [of r ext go i], of cs w] by (simp add: booking_handler_def)
    next
      case other: False
      have "booking_handler ext go r = on_head r (Ret (mux_miss 404))"
        using False other by (auto simp: booking_handler_def split: list.split)
      moreover have "\<not> (length (rq_path r) = 2 \<and> rq_path r ! 0 = ''appointments'' \<and> rq_path r ! 1 \<noteq> '''')"
        using other by (auto simp: length_Suc_conv numeral_2_eq_2)
      ultimately show ?thesis
        using False results_run [OF m [of "mux_miss 404" "{404, 405}" r], of cs w] by auto
    qed
  qed
qed

text \<open>
  Requests that ask for no change make none: a hold with an Idempotency-Key, a body that is not
  the JSON of the request, GET and HEAD, and every path or method the mux does not know leave the
  databases as they are and send nothing to the allocators.
\<close>

theorem booking_handler_reads_only:
  assumes "rq_method r \<noteq> ''DELETE''"
    and "rq_method r = ''POST'' \<and> rq_path r = [''holds''] \<Longrightarrow>
      header_get ''Idempotency-Key'' (rq_header r) \<noteq> '''' \<or> Option.bind (json_prefix go (rq_body r)) decode_HoldRequest = None"
    and "rq_method r = ''POST'' \<and> rq_path r = [''appointments''] \<Longrightarrow>
      Option.bind (json_prefix go (rq_body r)) decode_ConfirmRequest = None"
  shows "snd (run (booking_handler ext go r) cs w) = w"
proof -
  have g: "wp (on_head r (http_get ext go i)) (\<lambda>_. True) (\<lambda>_ w'. w' = w) w" for i
    by (auto simp: on_head_def http_get_def Get_def wp_andthen_fun get_stmt_def wp_sql set_w_appts_def
        split: fault.split option.split)
  have m: "wp (on_head r (Ret out)) (\<lambda>_. True) (\<lambda>_ w'. w' = w) w" for out
    by (simp add: on_head_def)
  have "wp (booking_handler ext go r) (\<lambda>_. True) (\<lambda>_ w'. w' = w) w"
    using assms g m
    by (auto simp: booking_handler_def http_createHold_def http_confirm_def split: list.split)
  from wp_run [OF this, of cs] show ?thesis by simp
qed

text \<open>A hold that carries an Idempotency-Key.\<close>

definition demo_keyed :: http_req where
  "demo_keyed = \<lparr>rq_method = ''POST'', rq_path = [''holds''], rq_header = [(''Idempotency-Key'', ''k'')], rq_body = ''''\<rparr>"

lemma booking_handler_reads_only_witness:
  "snd (run (booking_handler demo_ext demo_go demo_keyed) demo_open demo_world) = demo_world"
  by (rule booking_handler_reads_only) (simp_all add: demo_keyed_def)

end
