(* ===== verification/Recovery.thy ===== *)
theory Recovery
  imports Holds
begin

text \<open>
  Cancel and the recovery sweep: what a cancelled appointment leaves on the allocators, that the
  sweep forgets occupation ids only after both Releases were answered, and that a sweep in which
  nothing is lost recovers every expired hold.
\<close>

section \<open>A Release that is answered\<close>

lemma release_occ_live: "o1 \<in> set (release_occ u rows) \<Longrightarrow> occ_live o1 \<Longrightarrow> o1 \<in> set rows \<and> occ_id o1 \<noteq> u"
  unfolding release_occ_def by (erule in_update_whereE) (auto simp: occ_live_def split: if_splits)

lemma occ_freed_release: "occ_freed ext i rows \<Longrightarrow> occ_freed ext i (release_occ u rows)"
  unfolding occ_freed_def using release_occ_live by blast

lemma occ_freed_releases: "uuid_in ext i = Some u \<Longrightarrow> occ_freed ext i (release_occ u rows)"
  unfolding occ_freed_def using release_occ_live by blast

lemma release_post_freed:
  assumes "release_post ext i rows r rows'"
  shows "occ_freed ext j rows \<Longrightarrow> occ_freed ext j rows'" and "r = Inr () \<Longrightarrow> occ_freed ext i rows'"
  using assms occ_freed_release occ_freed_releases by (auto simp: release_post_def split: sum.splits)

lemma releaseTech_answered:
  "wp (releaseTech ext t rid) C (\<lambda>r w'. w_appts w' = w_appts w \<and> w_bay w' = w_bay w \<and>
     (\<forall>i. occ_freed ext i (tech_occs (w_tech w)) \<longrightarrow> occ_freed ext i (tech_occs (w_tech w'))) \<and>
     (r = Inr () \<and> t \<noteq> '''' \<longrightarrow> occ_freed ext t (tech_occs (w_tech w')))) w"
proof (cases "t = ''''")
  case False
  show ?thesis
    unfolding releaseTech_def if_not_P [OF False]
    by (rule wp_call_tech [OF tech_alloc.Release_law [where ext = ext]])
      (use release_post_freed [of ext t] in \<open>force simp: tech_store.get_set\<close>)+
qed (simp add: releaseTech_def)

lemma releaseBay_answered:
  "wp (releaseBay ext b rid) C (\<lambda>r w'. w_appts w' = w_appts w \<and> w_tech w' = w_tech w \<and>
     (\<forall>i. occ_freed ext i (bay_occs (w_bay w)) \<longrightarrow> occ_freed ext i (bay_occs (w_bay w'))) \<and>
     (r = Inr () \<and> b \<noteq> '''' \<longrightarrow> occ_freed ext b (bay_occs (w_bay w')))) w"
proof (cases "b = ''''")
  case False
  show ?thesis
    unfolding releaseBay_def if_not_P [OF False]
    by (rule wp_call_bay [OF bay_alloc.Release_law [where ext = ext]])
      (use release_post_freed [of ext b] in \<open>force simp: bay_store.get_set\<close>)+
qed (simp add: releaseBay_def)

section \<open>Cancel\<close>



lemma wp_cancel_stmt:
  assumes "uuid_in ext i = Some u"
  shows "wp (cancel_stmt ext i) C (\<lambda>r rows'. \<forall>b. r = Inr b \<longrightarrow>
     rows' = update_where (\<lambda>r. ar_ID r = u \<and> live_appt r) cancel_row rows) rows"
  unfolding cancel_stmt_def using assms by (intro wp_sqlI) auto



section \<open>The sweep\<close>

text \<open>
  \<open>recovered\<close>: the row of \<open>r0\<close> is CANCELLED, has forgotten its occupations, and they are not live.
  \<open>accounted\<close>: it is recovered or still remembers both.
\<close>

definition recovered :: "pg_ext \<Rightarrow> AppointmentRow \<Rightarrow> world \<Rightarrow> bool" where
  "recovered ext r0 w \<longleftrightarrow> (\<exists>r \<in> set (w_appts w). ar_ID r = ar_ID r0 \<and> ar_Status r = StatusCancelled \<and>
     ar_TechOccupationID r = None \<and> ar_BayOccupationID r = None \<and>
     (\<forall>t. ar_TechOccupationID r0 = Some t \<longrightarrow> occ_freed ext t (tech_occs (w_tech w))) \<and>
     (\<forall>b. ar_BayOccupationID r0 = Some b \<longrightarrow> occ_freed ext b (bay_occs (w_bay w))))"

definition accounted :: "pg_ext \<Rightarrow> AppointmentRow \<Rightarrow> world \<Rightarrow> bool" where
  "accounted ext r0 w \<longleftrightarrow> recovered ext r0 w \<or> (\<exists>r \<in> set (w_appts w). ar_ID r = ar_ID r0 \<and>
     ar_TechOccupationID r = ar_TechOccupationID r0 \<and> ar_BayOccupationID r = ar_BayOccupationID r0)"

text \<open>What never undoes a recovery: occupations stay freed, appointments stay or are cleared.\<close>

definition tidies :: "pg_ext \<Rightarrow> world \<Rightarrow> world \<Rightarrow> bool" where
  "tidies ext w w' \<longleftrightarrow>
     (\<forall>i. occ_freed ext i (tech_occs (w_tech w)) \<longrightarrow> occ_freed ext i (tech_occs (w_tech w'))) \<and>
     (\<forall>i. occ_freed ext i (bay_occs (w_bay w)) \<longrightarrow> occ_freed ext i (bay_occs (w_bay w'))) \<and>
     (w_appts w' = w_appts w \<or> (\<exists>u. w_appts w' = update_where (\<lambda>r. ar_ID r = u \<and> cancelled r) clear_row (w_appts w)))"

lemma cleared_row:
  assumes "r \<in> set rows"
  shows "\<exists>r' \<in> set (update_where (\<lambda>r. ar_ID r = u \<and> cancelled r) clear_row rows).
     ar_ID r' = ar_ID r \<and> ar_Status r' = ar_Status r \<and>
     (if ar_ID r = u \<and> cancelled r then ar_TechOccupationID r' = None \<and> ar_BayOccupationID r' = None
      else r' = r)"
  by (rule bexI [OF _ update_where_memI [OF assms]]) (simp add: clear_row_def)

lemma tidies_row:
  assumes "tidies ext w w'" and "r \<in> set (w_appts w)"
  obtains r' where "r' \<in> set (w_appts w')" "ar_ID r' = ar_ID r" "ar_Status r' = ar_Status r"
    "r' = r \<or> ar_TechOccupationID r' = None \<and> ar_BayOccupationID r' = None"
proof -
  from assms(1) consider "w_appts w' = w_appts w"
    | u where "w_appts w' = update_where (\<lambda>r. ar_ID r = u \<and> cancelled r) clear_row (w_appts w)"
    by (auto simp: tidies_def)
  then show ?thesis
  proof cases
    case 1
    show ?thesis by (rule that [of r]) (use 1 assms(2) in simp_all)
  next
    case (2 u)
    obtain r' where r': "r' \<in> set (w_appts w')" "ar_ID r' = ar_ID r" "ar_Status r' = ar_Status r"
      "if ar_ID r = u \<and> cancelled r then ar_TechOccupationID r' = None \<and> ar_BayOccupationID r' = None else r' = r"
      using cleared_row [OF assms(2), of u] unfolding 2 by blast
    show ?thesis by (rule that [OF r'(1-3)]) (use r'(4) in \<open>simp split: if_splits\<close>)
  qed
qed

lemma recovered_tidies:
  assumes "recovered ext r0 w" and "tidies ext w w'"
  shows "recovered ext r0 w'"
proof -
  obtain r where r: "r \<in> set (w_appts w)" "ar_ID r = ar_ID r0" "ar_Status r = StatusCancelled"
      "ar_TechOccupationID r = None" "ar_BayOccupationID r = None"
      "\<forall>t. ar_TechOccupationID r0 = Some t \<longrightarrow> occ_freed ext t (tech_occs (w_tech w))"
      "\<forall>b. ar_BayOccupationID r0 = Some b \<longrightarrow> occ_freed ext b (bay_occs (w_bay w))"
    using assms(1) by (auto simp: recovered_def)
  obtain r' where "r' \<in> set (w_appts w')" "ar_ID r' = ar_ID r" "ar_Status r' = ar_Status r"
    "r' = r \<or> ar_TechOccupationID r' = None \<and> ar_BayOccupationID r' = None"
    by (rule tidies_row [OF assms(2) r(1)])
  then show ?thesis
    unfolding recovered_def using r assms(2) by (intro bexI [of _ r']) (auto simp: tidies_def)
qed

lemma release_if_tech:
  "wp (release_if (\<lambda>occ. releaseTech ext occ rid) o1) C (\<lambda>r w'. w_appts w' = w_appts w \<and> w_bay w' = w_bay w \<and>
     (\<forall>i. occ_freed ext i (tech_occs (w_tech w)) \<longrightarrow> occ_freed ext i (tech_occs (w_tech w'))) \<and>
     (\<forall>t. r = Inr () \<and> o1 = Some t \<and> t \<noteq> '''' \<longrightarrow> occ_freed ext t (tech_occs (w_tech w')))) w"
  by (cases o1) (auto simp: release_if_def intro: wp_mono [OF releaseTech_answered])

lemma release_if_bay:
  "wp (release_if (\<lambda>occ. releaseBay ext occ rid) o1) C (\<lambda>r w'. w_appts w' = w_appts w \<and> w_tech w' = w_tech w \<and>
     (\<forall>i. occ_freed ext i (bay_occs (w_bay w)) \<longrightarrow> occ_freed ext i (bay_occs (w_bay w'))) \<and>
     (\<forall>b. r = Inr () \<and> o1 = Some b \<and> b \<noteq> '''' \<longrightarrow> occ_freed ext b (bay_occs (w_bay w')))) w"
  by (cases o1) (auto simp: release_if_def intro: wp_mono [OF releaseBay_answered])

text \<open>
  One row of the pass: nothing is undone, and if an appointment was changed at all, it is the row's
  and both its occupations had been freed before.
\<close>

lemma wp_ClearOccupationIDs:
  "wp (ClearOccupationIDs ext i) C (\<lambda>_ rows'. rows' = rows \<or> (\<exists>u. uuid_in ext i = Some u \<and>
     rows' = update_where (\<lambda>r. ar_ID r = u \<and> cancelled r) clear_row rows)) rows"
  unfolding ClearOccupationIDs_def by (rule wp_sqlI) (auto split: option.splits)

lemma release_row_ids_law:
  assumes "\<forall>x. ar_TechOccupationID r = Some x \<or> ar_BayOccupationID r = Some x \<longrightarrow> x \<noteq> ''''"
  shows "wp (release_row_ids ext r) C (\<lambda>_ w'. tidies ext w w' \<and> (w_appts w' = w_appts w \<or>
     (ar_BayOccupationID r \<noteq> None \<or> ar_TechOccupationID r \<noteq> None) \<and>
     (\<exists>u. uuid_in ext (ar_ID r) = Some u \<and>
        w_appts w' = update_where (\<lambda>r. ar_ID r = u \<and> cancelled r) clear_row (w_appts w)) \<and>
     (\<forall>t. ar_TechOccupationID r = Some t \<longrightarrow> occ_freed ext t (tech_occs (w_tech w'))) \<and>
     (\<forall>b. ar_BayOccupationID r = Some b \<longrightarrow> occ_freed ext b (bay_occs (w_bay w'))))) w"
    (is "wp _ C ?Q w")
proof (cases "ar_BayOccupationID r = None \<and> ar_TechOccupationID r = None")
  case False
  note False1 = this
  show ?thesis
    unfolding release_row_ids_def if_not_P [OF False] wp_andthen_fun mint_uuid_def wp_atomic fst_conv snd_conv
  proof (intro allI impI, rule wp_mono [OF release_if_bay], elim conjE, rule wp_mono [OF release_if_tech], elim conjE, goal_cases)
    case (1 c bayErr w1 techErr w2)
    have w2: "w_appts w2 = w_appts w" and tidy: "tidies ext w w2" using 1 by (auto simp: tidies_def)
    show ?case
    proof (cases "bayErr = Inr () \<and> techErr = Inr ()")
      case True
      have freed: "\<forall>t. ar_TechOccupationID r = Some t \<longrightarrow> occ_freed ext t (tech_occs (w_tech w2))"
        "\<forall>b. ar_BayOccupationID r = Some b \<longrightarrow> occ_freed ext b (bay_occs (w_bay w2))"
        using True 1 assms by auto
      have "wp (on_appts (ClearOccupationIDs ext (ar_ID r))) C (\<lambda>_. ?Q ()) w2"
        unfolding wp_on_appts
        by (rule wp_mono [OF wp_ClearOccupationIDs]) (use w2 tidy freed False1 in \<open>auto simp: tidies_def\<close>)
      then show ?thesis using True by (simp add: wp_andthen_fun)
    next
      case False
      then show ?thesis using w2 tidy by (auto split: sum.splits)
    qed
  qed
qed (simp add: release_row_ids_def tidies_def)

text \<open>A row at hand during the pass stems from one of the rows at its start.\<close>

definition stems :: "AppointmentRow list \<Rightarrow> AppointmentRow \<Rightarrow> bool" where
  "stems rows r \<longleftrightarrow> (\<exists>r0 \<in> set rows. ar_ID r = ar_ID r0 \<and>
     (ar_TechOccupationID r = ar_TechOccupationID r0 \<and> ar_BayOccupationID r = ar_BayOccupationID r0 \<or>
      ar_TechOccupationID r = None \<and> ar_BayOccupationID r = None))"

definition pass_inv :: "pg_ext \<Rightarrow> AppointmentRow list \<Rightarrow> world \<Rightarrow> bool" where
  "pass_inv ext rows w \<longleftrightarrow> (\<forall>r0 \<in> set rows. accounted ext r0 w) \<and> (\<forall>r \<in> set (w_appts w). stems rows r)"

definition ids_ok :: "pg_ext \<Rightarrow> AppointmentRow list \<Rightarrow> bool" where
  "ids_ok ext rows \<longleftrightarrow> distinct (map ar_ID rows) \<and> (\<forall>r \<in> set rows. uuid_in ext (ar_ID r) = Some (ar_ID r) \<and>
     (\<forall>x. ar_TechOccupationID r = Some x \<or> ar_BayOccupationID r = Some x \<longrightarrow> x \<noteq> '''' \<and> uuid_in ext x \<noteq> None))"

lemma stems_clear: "stems rows r \<Longrightarrow> stems rows (clear_row r)"
  by (auto simp: stems_def clear_row_def)

lemma stems_cancel [simp]: "stems rows (cancel_row r) = stems rows r"
  by (simp add: stems_def cancel_row_def)

lemma accounted_cancel:
  assumes "\<forall>r \<in> set (w_appts w). \<exists>r' \<in> set rows. r' = r \<or> r' = cancel_row r" and "accounted ext r0 w"
  shows "accounted ext r0 (set_w_appts rows w)"
proof -
  have "recovered ext r0 (set_w_appts rows w)" if rec: "recovered ext r0 w"
  proof -
    obtain r where r: "r \<in> set (w_appts w)" "ar_ID r = ar_ID r0" "ar_Status r = StatusCancelled"
      "ar_TechOccupationID r = None" "ar_BayOccupationID r = None"
      "\<forall>t. ar_TechOccupationID r0 = Some t \<longrightarrow> occ_freed ext t (tech_occs (w_tech w))"
      "\<forall>b. ar_BayOccupationID r0 = Some b \<longrightarrow> occ_freed ext b (bay_occs (w_bay w))"
      using rec unfolding recovered_def by blast
    obtain r' where "r' \<in> set rows" "r' = r \<or> r' = cancel_row r" using assms(1) r(1) by blast
    then show ?thesis
      unfolding recovered_def w_simps using r by (intro bexI [of _ r']) (auto simp: cancel_row_def)
  qed
  moreover have "\<exists>r' \<in> set rows. ar_ID r' = ar_ID r \<and> ar_TechOccupationID r' = ar_TechOccupationID r \<and>
      ar_BayOccupationID r' = ar_BayOccupationID r" if rw: "r \<in> set (w_appts w)" for r
  proof -
    obtain r' where "r' \<in> set rows" "r' = r \<or> r' = cancel_row r" using assms(1) rw by blast
    then show ?thesis by (intro bexI [of _ r'], elim disjE) (simp_all add: cancel_row_def)
  qed
  ultimately show ?thesis using assms(2) unfolding accounted_def by (metis w_simps(11))
qed

text \<open>What releasing the occupations \<open>r\<close> names may do to the table: nothing, or clear the ids once both are free.\<close>

abbreviation row_released :: "pg_ext \<Rightarrow> AppointmentRow \<Rightarrow> world \<Rightarrow> bool" where
  "row_released ext r w' \<equiv>
     (\<forall>t. ar_TechOccupationID r = Some t \<longrightarrow> occ_freed ext t (tech_occs (w_tech w'))) \<and>
     (\<forall>b. ar_BayOccupationID r = Some b \<longrightarrow> occ_freed ext b (bay_occs (w_bay w')))"

abbreviation row_handled :: "pg_ext \<Rightarrow> AppointmentRow \<Rightarrow> world \<Rightarrow> world \<Rightarrow> bool" where
  "row_handled ext r w w' \<equiv> tidies ext w w' \<and> (w_appts w' = w_appts w \<or>
     (ar_BayOccupationID r \<noteq> None \<or> ar_TechOccupationID r \<noteq> None) \<and>
     (\<exists>u. uuid_in ext (ar_ID r) = Some u \<and>
        w_appts w' = update_where (\<lambda>r. ar_ID r = u \<and> cancelled r) clear_row (w_appts w)) \<and>
     row_released ext r w')"

text \<open>What becomes of one row \<open>rr\<close> of the table: it stays, or its ids are cleared and it was \<open>r\<close>'s.\<close>

lemma row_handled_cases:
  assumes "row_handled ext r w w'" and "uuid_in ext (ar_ID r) = Some u" and "rr \<in> set (w_appts w)"
  obtains (kept) "rr \<in> set (w_appts w')"
  | (cleared) r' where "r' \<in> set (w_appts w')" "ar_ID r' = ar_ID rr" "ar_Status r' = StatusCancelled"
      "ar_TechOccupationID r' = None" "ar_BayOccupationID r' = None" "ar_ID rr = u" "row_released ext r w'"
      "ar_BayOccupationID r \<noteq> None \<or> ar_TechOccupationID r \<noteq> None"
proof (cases "w_appts w' = w_appts w")
  case True
  with assms(3) kept show ?thesis by simp
next
  case False
  then have w': "w_appts w' = update_where (\<lambda>r. ar_ID r = u \<and> cancelled r) clear_row (w_appts w)" "row_released ext r w'"
      "ar_BayOccupationID r \<noteq> None \<or> ar_TechOccupationID r \<noteq> None"
    using assms(1,2) by auto
  obtain r' where "r' \<in> set (w_appts w')" "ar_ID r' = ar_ID rr" "ar_Status r' = ar_Status rr"
      "if ar_ID rr = u \<and> cancelled rr then ar_TechOccupationID r' = None \<and> ar_BayOccupationID r' = None else r' = rr"
    using cleared_row [OF assms(3), of u] unfolding w'(1) by blast
  then show ?thesis using kept cleared w'(2,3) by (cases "ar_ID rr = u \<and> cancelled rr") (auto simp: cancelled_def)
qed

lemma row_handled_accounts:
  assumes ok: "ids_ok ext rows" and h: "row_handled ext r w w'" and r: "stems rows r"
    and r0: "r0 \<in> set rows" and acc: "accounted ext r0 w"
  shows "accounted ext r0 w'"
proof (cases "recovered ext r0 w")
  case True
  then show ?thesis using h recovered_tidies by (auto simp: accounted_def)
next
  case False
  obtain r1 where r1: "r1 \<in> set rows" "ar_ID r = ar_ID r1"
      "ar_TechOccupationID r = ar_TechOccupationID r1 \<and> ar_BayOccupationID r = ar_BayOccupationID r1 \<or>
       ar_TechOccupationID r = None \<and> ar_BayOccupationID r = None"
    using r by (auto simp: stems_def)
  then have id: "uuid_in ext (ar_ID r) = Some (ar_ID r1)" using ok by (simp add: ids_ok_def)
  from False acc obtain rr where rr: "rr \<in> set (w_appts w)" "ar_ID rr = ar_ID r0"
      "ar_TechOccupationID rr = ar_TechOccupationID r0" "ar_BayOccupationID rr = ar_BayOccupationID r0"
    by (auto simp: accounted_def)
  from h id rr(1) show ?thesis
  proof (cases rule: row_handled_cases)
    case kept
    then show ?thesis using rr by (auto simp: accounted_def)
  next
    case (cleared r')
    then have "r0 = r1" using ok r1(1) r0 rr(2) distinct_key_eq [of ar_ID rows r0 r1] by (simp add: ids_ok_def)
    then have "recovered ext r0 w'"
      unfolding recovered_def using cleared rr(2) r1(3) by (intro conjI bexI [of _ r']) auto
    then show ?thesis by (simp add: accounted_def)
  qed
qed

lemma release_row_ids_inv:
  assumes ok: "ids_ok ext rows" and inv: "pass_inv ext rows w" and r: "stems rows r"
  shows "wp (release_row_ids ext r) C (\<lambda>_ w'. pass_inv ext rows w') w"
proof (rule wp_mono [OF release_row_ids_law])
  show "\<forall>x. ar_TechOccupationID r = Some x \<or> ar_BayOccupationID r = Some x \<longrightarrow> x \<noteq> ''''"
    using r ok unfolding ids_ok_def stems_def by (metis option.distinct(1))
  fix x w'
  assume h: "row_handled ext r w w'"
  have "accounted ext r0 w'" if "r0 \<in> set rows" for r0
    using row_handled_accounts [OF ok h r that] inv that by (simp add: pass_inv_def)
  moreover from h consider "w_appts w' = w_appts w"
      | u where "w_appts w' = update_where (\<lambda>r. ar_ID r = u \<and> cancelled r) clear_row (w_appts w)" by blast
  then have "stems rows r'" if "r' \<in> set (w_appts w')" for r'
    using inv that by cases (auto simp: pass_inv_def stems_clear elim!: in_update_whereE)
  ultimately show "pass_inv ext rows w'" by (simp add: pass_inv_def)
qed

lemma releaseCancelled_inv:
  assumes "ids_ok ext rows"
  shows "pass_inv ext rows w \<Longrightarrow> list_all (stems rows) rs \<Longrightarrow>
    wp (releaseCancelled ext rs) C (\<lambda>_ w'. pass_inv ext rows w') w"
proof (induction rs arbitrary: w)
  case (Cons r rs)
  then show ?case
    unfolding releaseCancelled.simps wp_andthen_fun
    by (intro wp_mono [OF release_row_ids_inv [OF assms]]) auto
qed simp

lemma wp_SweepBatch:
  "wp (SweepBatch n) C (\<lambda>res rows'. \<exists>ids. (rows' = rows \<or> rows' = update_where (\<lambda>r. ar_ID r \<in> set ids) cancel_row rows) \<and>
     (\<forall>swept. res = Inr swept \<longrightarrow> swept = map cancel_row (filter (\<lambda>r. ar_ID r \<in> set ids) rows))) rows"
  unfolding SweepBatch_def by (rule wp_sqlI) (auto simp: Let_def)

lemma wp_ListCancelled:
  "wp (ListCancelledNeedingRelease n) C (\<lambda>res rows'. rows' = rows \<and>
     (\<forall>listed. res = Inr listed \<longrightarrow> listed = take n (filter needs_release rows))) rows"
  unfolding ListCancelledNeedingRelease_def by (rule wp_sqlI) auto

lemma pass_inv_sweep:
  assumes "rows' = w_appts w \<or> rows' = update_where (\<lambda>r. ar_ID r \<in> set ids) cancel_row (w_appts w)"
  shows "pass_inv ext (w_appts w) (set_w_appts rows' w)"
proof -
  have "pass_inv ext (w_appts w) w" by (auto simp: pass_inv_def accounted_def stems_def)
  moreover have "\<forall>r \<in> set (w_appts w). \<exists>r' \<in> set rows'. r' = r \<or> r' = cancel_row r"
    using assms by (metis (no_types, lifting) update_where_memI)
  ultimately show ?thesis
    using assms accounted_cancel [of w rows'] unfolding pass_inv_def w_simps
    by (metis (no_types, lifting) in_update_whereE stems_cancel)
qed

text \<open>
  C3: Whatever fails on the way (statements, RPCs, lost replies), after a sweep every appointment
  still remembers both its occupations, or it is CANCELLED, has forgotten them, and neither is
  live: occupation ids are cleared only after both Releases were answered.
\<close>

theorem sweepOnce_forgets_only_freed:
  assumes "ids_ok ext (w_appts w)" and "run (sweepOnce ext) cs w = (u, w')" and "r0 \<in> set (w_appts w)"
  shows "\<exists>r \<in> set (w_appts w'). ar_ID r = ar_ID r0 \<and>
    (ar_TechOccupationID r = ar_TechOccupationID r0 \<and> ar_BayOccupationID r = ar_BayOccupationID r0 \<or>
     ar_Status r = StatusCancelled \<and> ar_TechOccupationID r = None \<and> ar_BayOccupationID r = None \<and>
     (\<forall>t. ar_TechOccupationID r0 = Some t \<longrightarrow> occ_freed ext t (tech_occs (w_tech w'))) \<and>
     (\<forall>b. ar_BayOccupationID r0 = Some b \<longrightarrow> occ_freed ext b (bay_occs (w_bay w'))))"
proof -
  let ?rows = "w_appts w"
  let ?I = "pass_inv ext ?rows"
  have start: "pass_inv ext ?rows w" by (auto simp: pass_inv_def accounted_def stems_def)
  have rest: "wp (andthen (on_appts (ListCancelledNeedingRelease sweepLimit)) (\<lambda>listed.
         case listed of
           Inl e \<Rightarrow> Ret ()
         | Inr pending \<Rightarrow> releaseCancelled ext pending)) (\<lambda>_. True) (\<lambda>_. ?I) w1" if "?I w1" for w1
    unfolding wp_andthen wp_on_appts
  proof (rule wp_mono [OF wp_ListCancelled], elim conjE, goal_cases)
    case (1 listed rows')
    have I: "?I (set_w_appts rows' w1)" using that 1 by (simp add: set_w_appts_def)
    show ?case
    proof (cases listed)
      case (Inr pending)
      then have "list_all (stems ?rows) pending"
        using 1 that by (auto simp: list_all_iff pass_inv_def dest!: in_set_takeD)
      then show ?thesis using Inr releaseCancelled_inv [OF assms(1) I] by simp
    qed (use I in simp)
  qed
  have "wp (sweepOnce ext) (\<lambda>_. True) (\<lambda>_. ?I) w"
    unfolding sweepOnce_def wp_andthen [where p = "on_appts p" for p] wp_on_appts
  proof (rule wp_mono [OF wp_SweepBatch], elim exE conjE, goal_cases)
    case (1 res rows' ids)
    have I: "?I (set_w_appts rows' w)" by (rule pass_inv_sweep [OF 1(1)])
    show ?case
    proof (cases res)
      case (Inr swept)
      then have "list_all (stems ?rows) swept"
        using 1(2) start by (auto simp: list_all_iff pass_inv_def)
      then show ?thesis
        using Inr rest unfolding Inr sum.case wp_andthen [where p = "releaseCancelled a b" for a b]
        by (intro wp_mono [OF releaseCancelled_inv [OF assms(1) I]]) auto
    qed (use I in simp)
  qed
  from wp_run [OF this, of cs] assms(2,3) show ?thesis
    by (auto simp: pass_inv_def accounted_def recovered_def)
qed

section \<open>A sweep in which nothing is lost\<close>

lemma release_if_ok:
  assumes C: "\<And>c. C c \<Longrightarrow> releases_delivered c" and "\<forall>x. o1 = Some x \<longrightarrow> uuid_in ext x \<noteq> None"
  shows "wp (release_if (\<lambda>occ. releaseTech ext occ rid) o1) C (\<lambda>r w'. r = Inr ()) w"
    and "wp (release_if (\<lambda>occ. releaseBay ext occ rid) o1) C (\<lambda>r w'. r = Inr ()) w"
proof -
  have R: "\<And>c. C c \<Longrightarrow> faults c ReleaseSQL = Deliver" using C by (simp add: releases_delivered_def)
  have t: "wp (releaseTech ext x rid) C (\<lambda>r w'. r = Inr ()) w" if u: "uuid_in ext x = Some u" for x u
  proof (cases "x = ''''")
    case False
    show ?thesis
      unfolding releaseTech_def if_not_P [OF False]
      by (rule wp_call_tech [OF tech_alloc.Release_frees [OF R False u]], assumption)
        (use C in \<open>auto simp: releases_delivered_def\<close>)
  qed (simp add: releaseTech_def)
  have b: "wp (releaseBay ext x rid) C (\<lambda>r w'. r = Inr ()) w" if u: "uuid_in ext x = Some u" for x u
  proof (cases "x = ''''")
    case False
    show ?thesis
      unfolding releaseBay_def if_not_P [OF False]
      by (rule wp_call_bay [OF bay_alloc.Release_frees [OF R False u]], assumption)
        (use C in \<open>auto simp: releases_delivered_def\<close>)
  qed (simp add: releaseBay_def)
  show "wp (release_if (\<lambda>occ. releaseTech ext occ rid) o1) C (\<lambda>r w'. r = Inr ()) w"
    "wp (release_if (\<lambda>occ. releaseBay ext occ rid) o1) C (\<lambda>r w'. r = Inr ()) w"
    using assms(2) t b by (auto simp: release_if_def split: option.split)
qed

definition cancelled_in :: "world \<Rightarrow> AppointmentRow \<Rightarrow> bool" where
  "cancelled_in w r0 \<longleftrightarrow> (\<exists>r \<in> set (w_appts w). ar_ID r = ar_ID r0 \<and> ar_Status r = StatusCancelled)"

lemma cancelled_in_tidies: "cancelled_in w r0 \<Longrightarrow> tidies ext w w' \<Longrightarrow> cancelled_in w' r0"
  unfolding cancelled_in_def by (metis tidies_row)

lemma release_row_ids_tidies:
  assumes "ids_ok ext rows" and "stems rows r"
  shows "wp (release_row_ids ext r) C (\<lambda>_ w'. tidies ext w w') w"
proof (rule wp_mono [OF release_row_ids_law])
  show "\<forall>x. ar_TechOccupationID r = Some x \<or> ar_BayOccupationID r = Some x \<longrightarrow> x \<noteq> ''''"
    using assms unfolding ids_ok_def stems_def by (metis option.distinct(1))
qed simp

lemma release_row_ids_recovers:
  assumes C: "\<And>c. C c \<Longrightarrow> faults c = (\<lambda>_. Deliver)" and ok: "ids_ok ext rows" and r0: "r0 \<in> set rows"
    and r: "ar_ID r = ar_ID r0" "ar_TechOccupationID r = ar_TechOccupationID r0" "ar_BayOccupationID r = ar_BayOccupationID r0"
    and some: "ar_TechOccupationID r0 \<noteq> None \<or> ar_BayOccupationID r0 \<noteq> None" and canc: "cancelled_in w r0"
  shows "wp (release_row_ids ext r) C (\<lambda>_ w'. recovered ext r0 w') w"
proof -
  have D: "\<And>c. C c \<Longrightarrow> releases_delivered c" using C by (simp add: releases_delivered_def)
  have id: "uuid_in ext (ar_ID r) = Some (ar_ID r0)"
    and ne: "\<forall>x. ar_TechOccupationID r = Some x \<longrightarrow> x \<noteq> '''' \<and> uuid_in ext x \<noteq> None"
      "\<forall>x. ar_BayOccupationID r = Some x \<longrightarrow> x \<noteq> '''' \<and> uuid_in ext x \<noteq> None"
    using ok r0 r by (auto simp: ids_ok_def)
  have F: "\<not> (ar_BayOccupationID r = None \<and> ar_TechOccupationID r = None)" using some r by auto
  note bay = wp_conj [OF release_if_bay release_if_ok(2) [where C = C, OF D]]
  note tech = wp_conj [OF release_if_tech release_if_ok(1) [where C = C, OF D]]
  show ?thesis
    unfolding release_row_ids_def if_not_P [OF F] wp_andthen_fun mint_uuid_def wp_atomic fst_conv snd_conv
  proof (intro allI impI, rule wp_mono [OF bay], assumption, use ne in blast, elim conjE,
      rule wp_mono [OF tech], assumption, use ne in blast, elim conjE, goal_cases)
    case (1 c bayErr w1 techErr w2)
    have errs: "bayErr = Inr ()" "techErr = Inr ()" by fact+
    have w2: "w_appts w2 = w_appts w" using 1 by simp
    have freed: "\<forall>t. ar_TechOccupationID r0 = Some t \<longrightarrow> occ_freed ext t (tech_occs (w_tech w2))"
      "\<forall>b. ar_BayOccupationID r0 = Some b \<longrightarrow> occ_freed ext b (bay_occs (w_bay w2))"
      using 1 ne r by auto
    obtain rr where rr: "rr \<in> set (w_appts w)" "ar_ID rr = ar_ID r0" "ar_Status rr = StatusCancelled"
      using canc by (auto simp: cancelled_in_def)
    have "recovered ext r0 (set_w_appts (update_where (\<lambda>r. ar_ID r = ar_ID r0 \<and> cancelled r) clear_row (w_appts w2)) w2)"
      using cleared_row [OF rr(1), of "ar_ID r0"] rr(2,3) freed
      unfolding recovered_def w_simps w2 by (simp add: cancelled_def)
    then have "wp (on_appts (ClearOccupationIDs ext (ar_ID r))) C (\<lambda>_. recovered ext r0) w2"
      unfolding wp_on_appts ClearOccupationIDs_def using C by (simp add: wp_sql_delivered id)
    then show ?case by (simp add: errs wp_andthen_fun)
  qed
qed

lemma releaseCancelled_recovers:
  assumes C: "\<And>c. C c \<Longrightarrow> faults c = (\<lambda>_. Deliver)" and ok: "ids_ok ext rows" and r0: "r0 \<in> set rows"
    and some: "ar_TechOccupationID r0 \<noteq> None \<or> ar_BayOccupationID r0 \<noteq> None"
  shows "list_all (stems rows) rs \<Longrightarrow> cancelled_in w r0 \<Longrightarrow>
     recovered ext r0 w \<or> (\<exists>r \<in> set rs. ar_ID r = ar_ID r0 \<and> ar_TechOccupationID r = ar_TechOccupationID r0 \<and>
       ar_BayOccupationID r = ar_BayOccupationID r0) \<Longrightarrow>
     wp (releaseCancelled ext rs) C (\<lambda>_ w'. recovered ext r0 w') w"
proof (induction rs arbitrary: w)
  case (Cons r rs)
  have st: "stems rows r" "list_all (stems rows) rs" using Cons.prems(1) by simp_all
  show ?case
  proof (cases "ar_ID r = ar_ID r0 \<and> ar_TechOccupationID r = ar_TechOccupationID r0 \<and> ar_BayOccupationID r = ar_BayOccupationID r0")
    case True
    then have r: "ar_ID r = ar_ID r0" "ar_TechOccupationID r = ar_TechOccupationID r0" "ar_BayOccupationID r = ar_BayOccupationID r0"
      by simp_all
    show ?thesis
      unfolding releaseCancelled.simps wp_andthen_fun
    proof (rule wp_mono [OF wp_conj [OF release_row_ids_tidies [OF ok st(1)]
            release_row_ids_recovers [where C = C, OF C ok r0 r some Cons.prems(2)]]], assumption, elim conjE)
      show "wp (releaseCancelled ext rs) C (\<lambda>_ w'. recovered ext r0 w') v" if "tidies ext w v" "recovered ext r0 v" for v
        by (rule Cons.IH [OF st(2) cancelled_in_tidies [OF Cons.prems(2) that(1)]]) (use that in blast)
    qed
  next
    case False
    show ?thesis
      unfolding releaseCancelled.simps wp_andthen_fun
    proof (rule wp_mono [OF release_row_ids_tidies [OF ok st(1)]])
      show "wp (releaseCancelled ext rs) C (\<lambda>_ w'. recovered ext r0 w') v" if "tidies ext w v" for v
        by (rule Cons.IH [OF st(2) cancelled_in_tidies [OF Cons.prems(2) that]])
          (use Cons.prems(3) False recovered_tidies [OF _ that] in auto)
    qed
  qed
qed simp

lemma sweep_ids_all:
  assumes "length (filter (sweepable now busy) rows) \<le> n" and "r \<in> set rows" and "sweepable now busy r"
  shows "ar_ID r \<in> set (sweep_ids now busy n rows)"
  using assms by (simp add: sweep_ids_def)

lemma ListCancelled_pass_recovers:
  assumes ok: "ids_ok ext rows" and r0: "r0 \<in> set rows"
    and some: "ar_TechOccupationID r0 \<noteq> None \<or> ar_BayOccupationID r0 \<noteq> None"
    and v: "pass_inv ext rows v" "recovered ext r0 v"
  shows "wp (andthen (on_appts (ListCancelledNeedingRelease sweepLimit)) (\<lambda>listed.
         case listed of Inl e \<Rightarrow> Ret () | Inr pending \<Rightarrow> releaseCancelled ext pending))
       (\<lambda>c. faults c = (\<lambda>_. Deliver)) (\<lambda>_. recovered ext r0) v"
  unfolding wp_andthen wp_on_appts
proof (rule wp_mono [OF wp_ListCancelled], elim conjE, goal_cases)
  case (1 listed rows')
  have same: "set_w_appts rows' v = v" using 1 by (simp add: set_w_appts_def)
  show ?case
  proof (cases listed)
    case (Inr pending)
    then have "list_all (stems rows) pending"
      using 1 v(1) by (auto simp: list_all_iff pass_inv_def dest!: in_set_takeD)
    moreover have "cancelled_in v r0" using v(2) by (auto simp: recovered_def cancelled_in_def)
    ultimately show ?thesis
      unfolding Inr sum.case same
      by (intro releaseCancelled_recovers [where C = "\<lambda>c. faults c = (\<lambda>_. Deliver)", OF _ ok r0 some]) (use v(2) in auto)
  qed (use v(2) same in simp)
qed

text \<open>The rest of a sweep, once its first statement has cancelled the rows \<open>ids\<close> names, \<open>r0\<close>'s among them.\<close>

lemma swept_recovers:
  assumes ok: "ids_ok ext (w_appts w)" and r0: "r0 \<in> set (w_appts w)" and picked: "ar_ID r0 \<in> set ids"
    and some: "ar_TechOccupationID r0 \<noteq> None \<or> ar_BayOccupationID r0 \<noteq> None"
  shows "wp (andthen (releaseCancelled ext (map cancel_row (filter (\<lambda>r. ar_ID r \<in> set ids) (w_appts w)))) (\<lambda>_.
      andthen (on_appts (ListCancelledNeedingRelease sweepLimit)) (\<lambda>listed.
         case listed of Inl e \<Rightarrow> Ret () | Inr pending \<Rightarrow> releaseCancelled ext pending)))
     (\<lambda>c. faults c = (\<lambda>_. Deliver)) (\<lambda>_. recovered ext r0)
     (set_w_appts (update_where (\<lambda>r. ar_ID r \<in> set ids) cancel_row (w_appts w)) w)"
    (is "wp (andthen (releaseCancelled ext ?swept) _) ?C _ ?w1")
proof -
  have stems: "list_all (stems (w_appts w)) ?swept"
    by (auto simp: list_all_iff stems_def cancel_row_def)
  have "cancel_row r0 \<in> set (w_appts ?w1)"
    using update_where_memI [OF r0, of "\<lambda>r. ar_ID r \<in> set ids" cancel_row] picked by simp
  then have canc: "cancelled_in ?w1 r0"
    unfolding cancelled_in_def by (rule bexI [rotated]) (simp add: cancel_row_def)
  have "cancel_row r0 \<in> set ?swept" using picked r0 by simp
  then have swept: "\<exists>r \<in> set ?swept. ar_ID r = ar_ID r0 \<and> ar_TechOccupationID r = ar_TechOccupationID r0 \<and>
       ar_BayOccupationID r = ar_BayOccupationID r0"
    by (rule bexI [rotated]) (simp add: cancel_row_def)
  have inv: "pass_inv ext (w_appts w) ?w1" by (rule pass_inv_sweep, rule disjI2, rule refl)
  show ?thesis
    unfolding wp_andthen [where p = "releaseCancelled a b" for a b]
    by (rule wp_mono [OF wp_conj [OF releaseCancelled_inv [OF ok inv stems]
            releaseCancelled_recovers [where C = ?C, OF _ ok r0 some stems canc disjI2 [OF swept]]]],
      assumption, elim conjE, rule ListCancelled_pass_recovers [OF ok r0 some])
qed

text \<open>
  C18: A sweep in which no statement and no call is lost recovers every hold that has expired, as
  long as at most 50 have: its row is CANCELLED, neither of its occupations is live, and its
  occupation ids are cleared, so that no later sweep visits it again.
\<close>

theorem sweepOnce_recovers:
  assumes "\<forall>n. faults (cs n) = (\<lambda>_. Deliver)" and "ids_ok ext (w_appts w)"
    and "length (filter (sweepable (db_now (cs 0)) (locked (cs 0))) (w_appts w)) \<le> 50"
    and "r0 \<in> set (w_appts w)" and "ar_Status r0 = StatusHeld" and "ar_HoldExpiresAt r0 = Some expires"
    and "expires \<le> db_now (cs 0)" and "ar_ID r0 \<notin> set (locked (cs 0))"
    and "ar_TechOccupationID r0 = Some t" and "ar_BayOccupationID r0 = Some b"
    and "run (sweepOnce ext) cs w = (u, w')"
  shows "(\<exists>r \<in> set (w_appts w'). ar_ID r = ar_ID r0 \<and> ar_Status r = StatusCancelled \<and>
      ar_TechOccupationID r = None \<and> ar_BayOccupationID r = None) \<and>
    occ_freed ext t (tech_occs (w_tech w')) \<and> occ_freed ext b (bay_occs (w_bay w'))"
proof -
  let ?ids = "sweep_ids (db_now (cs 0)) (locked (cs 0)) sweepLimit (w_appts w)"
  have picked: "ar_ID r0 \<in> set ?ids"
    by (rule sweep_ids_all) (use assms in \<open>auto simp: sweepable_def held_def null_le_def\<close>)
  have first: "run (sweepOnce ext) cs w =
      run (andthen (releaseCancelled ext (map cancel_row (filter (\<lambda>r. ar_ID r \<in> set ?ids) (w_appts w)))) (\<lambda>_.
        andthen (on_appts (ListCancelledNeedingRelease sweepLimit)) (\<lambda>listed.
          case listed of Inl e \<Rightarrow> Ret () | Inr pending \<Rightarrow> releaseCancelled ext pending)))
      (\<lambda>n. cs (Suc n)) (set_w_appts (update_where (\<lambda>r. ar_ID r \<in> set ?ids) cancel_row (w_appts w)) w)"
    using assms(1) by (simp add: sweepOnce_def SweepBatch_def sql_def zoom_atomic Let_def)
  from wp_run [OF swept_recovers [OF assms(2,4) picked], of "\<lambda>n. cs (Suc n)"] assms(1,9)
  have "recovered ext r0 w'" using assms(11) unfolding first by simp
  then show ?thesis using assms(9,10) by (auto simp: recovered_def)
qed

section \<open>Concrete runs\<close>

lemma demo_held_ids: "ids_ok demo_ext (w_appts (demo_held_world expires))"
  by (simp add: ids_ok_def demo_held_world_def demo_appt_def demo_ext_def)

lemma sweepOnce_forgets_only_freed_witness:
  "\<exists>r \<in> set (w_appts (snd (run (sweepOnce demo_ext) demo_open (demo_held_world monday)))). ar_ID r = ''h'' \<and>
    (ar_TechOccupationID r = Some ''O'' \<or> ar_TechOccupationID r = None \<and>
     occ_freed demo_ext ''O'' (tech_occs (w_tech (snd (run (sweepOnce demo_ext) demo_open (demo_held_world monday))))))"
  using sweepOnce_forgets_only_freed [OF demo_held_ids run_surj [OF refl], of "demo_appt ''h'' monday" monday demo_open]
  by (auto simp: demo_held_world_def demo_appt_def)

lemma sweepOnce_recovers_witness:
  "(\<exists>r \<in> set (w_appts (snd (run (sweepOnce demo_ext) demo_open (demo_held_world monday)))). ar_ID r = ''h'' \<and>
      ar_Status r = StatusCancelled \<and> ar_TechOccupationID r = None \<and> ar_BayOccupationID r = None) \<and>
   occ_freed demo_ext ''O'' (tech_occs (w_tech (snd (run (sweepOnce demo_ext) demo_open (demo_held_world monday)))))"
proof -
  have "length (filter (sweepable (db_now (demo_open 0)) (locked (demo_open 0))) (w_appts (demo_held_world monday))) \<le> 50"
    by (simp add: demo_held_world_def)
  from sweepOnce_recovers [OF _ demo_held_ids this _ _ _ _ _ _ _ run_surj [OF refl [of "fst (run (sweepOnce demo_ext) demo_open (demo_held_world monday))"]],
      of "demo_appt ''h'' monday" monday "''O''" "''O''"]
  show ?thesis
    by (simp add: demo_held_world_def demo_appt_def demo_open_def demo_choice_def)
qed

end
