(* ===== verification/System.thy ===== *)
theory System
  imports Http Recovery
begin

text \<open>
  The whole system under concurrency: any number of HTTP requests to Booking, sweeper passes,
  allocator RPCs and reaper ticks in flight at once, switching at every atomic action, any of
  them crashing at any point.
\<close>

section \<open>The contract between Booking and the stores\<close>

text \<open>A request that names its id, or one that may be given any.\<close>

definition known_id :: "string set \<Rightarrow> http_req \<Rightarrow> bool" where
  "known_id tags r \<longleftrightarrow> tags = UNIV \<or>
     header_get ''X-Request-Id'' (rq_header r) \<noteq> '''' \<and> header_get ''X-Request-Id'' (rq_header r) \<in> tags"

text \<open>
  What one party relies on: a reflexive, transitive relation that logging a request under one of the
  identifiers \<open>tags\<close>, every allocator operation and every statement of the appointment store respect.
\<close>

locale tagged_contract = guarantee R for R :: "world \<Rightarrow> world \<Rightarrow> bool" +
  fixes ext :: pg_ext and tags :: "string set"
  assumes sent: "rid \<in> tags \<Longrightarrow> R w (logged rid m w)"
    and tech_ops: "keeps (on_tech (tech_Reserve ext tq)) R" "keeps (on_tech (tech_Confirm ext i)) R"
      "keeps (on_tech (tech_Release ext i)) R" "keeps (on_tech (tech_serve ext ts)) R"
    and bay_ops: "keeps (on_bay (bay_Reserve ext bq)) R" "keeps (on_bay (bay_Confirm ext i)) R"
      "keeps (on_bay (bay_Release ext i)) R" "keeps (on_bay (bay_serve ext bs)) R"
    and appt_ops: "keeps (on_appts (InsertHeld ext r)) R" "keeps (on_appts (get_stmt ext i)) R"
      "keeps (on_appts (GetConfirmedByIdempotencyKey key)) R" "keeps (on_appts (Promote ext i key fp)) R"
      "keeps (on_appts (cancel_stmt ext i)) R" "keeps (on_appts (SweepBatch n)) R"
      "keeps (on_appts (ListCancelledNeedingRelease n)) R" "keeps (on_appts (ClearOccupationIDs ext i)) R"
begin

lemma keeps_rpc: "rid \<in> tags \<Longrightarrow> keeps server R \<Longrightarrow> keeps (rpc k rid m server) R"
  unfolding rpc_def send_def
  by (auto intro!: keeps_andthen keeps_atomic sent split: fault.split)

lemma keeps_pure: "keeps time_now R" "keeps mint_uuid R" "keeps (catalog_get p) R" "keeps (catalog_do p) R"
  unfolding time_now_def mint_uuid_def catalog_get_def catalog_do_def
  by (rule keeps_atomic, simp add: refl)+

lemmas keeps_parts = keeps_andthen keeps_rpc keeps_pure tech_ops bay_ops appt_ops

lemma keeps_releases:
  assumes "rid \<in> tags"
  shows "keeps (releaseTech ext i rid) R" "keeps (releaseBay ext i rid) R" "keeps (releaseBoth ext j i rid) R"
  unfolding releaseTech_def releaseBay_def releaseBoth_def by (auto intro!: keeps_parts assms)

lemma keeps_saga:
  assumes "rid \<in> tags"
  shows "keeps (reserveSaga ext go rid st snap start) R" "keeps (confirmBoth ext i j rid) R"
  unfolding reserveSaga_def confirmBoth_def
  by (auto intro!: keeps_parts keeps_releases assms split: option.split sum.split)

lemma keeps_snapshot: "keeps (take_snapshot go d st c v) R"
  unfolding take_snapshot_def by (auto intro!: keeps_parts split: option.split)

lemma keeps_promote:
  assumes "rid \<in> tags"
  shows "keeps (promoteConfirmed ext rid row key fp) R" "keeps (promote_and_get ext go rid row key fp) R"
proof -
  show p: "keeps (promoteConfirmed ext rid row key fp) R"
    unfolding promoteConfirmed_def Let_def
    by (auto intro!: keeps_parts keeps_releases keeps_saga assms split: sum.split appt_status.split)
  show "keeps (promote_and_get ext go rid row key fp) R"
    unfolding promote_and_get_def by (auto intro!: keeps_andthen p appt_ops split: option.split sum.split)
qed

lemma keeps_replay: "keeps (replay go key req) R"
  unfolding replay_def by (auto intro!: keeps_parts split: sum.split option.split)

lemma keeps_CreateHold: "rid \<in> tags \<Longrightarrow> keeps (CreateHold ext go rid req) R"
  unfolding CreateHold_def
  by (auto intro!: keeps_parts keeps_snapshot keeps_saga keeps_releases split: option.split sum.split)

lemma keeps_Confirm:
  assumes "rid \<in> tags"
  shows "keeps (Confirm ext go rid key req) R"
proof -
  have "keeps (confirmHold ext go rid key req) R"
    unfolding confirmHold_def
    by (auto intro!: keeps_andthen appt_ops keeps_promote assms split: sum.split option.split appt_status.split)
  moreover have "keeps (confirmWithoutHold ext go rid key req) R"
    unfolding confirmWithoutHold_def
    by (auto intro!: keeps_parts keeps_snapshot keeps_replay keeps_saga keeps_releases keeps_promote assms
        split: option.split sum.split)
  ultimately show ?thesis by (simp add: Confirm_def)
qed

lemma keeps_Get: "keeps (Get ext go i) R"
  unfolding Get_def by (auto intro!: keeps_parts split: sum.split)

lemma keeps_release_if:
  assumes "rid \<in> tags"
  shows "keeps (release_if (\<lambda>occ. releaseTech ext occ rid) o1) R" "keeps (release_if (\<lambda>occ. releaseBay ext occ rid) o1) R"
  unfolding release_if_def by (auto intro: keeps_releases assms split: option.split)

lemma keeps_Cancel: "rid \<in> tags \<Longrightarrow> keeps (Cancel ext rid i) R"
  unfolding Cancel_def by (auto intro!: keeps_parts keeps_release_if split: sum.split)

lemma keeps_with_id:
  assumes "known_id tags r" and "\<And>rid. rid \<in> tags \<Longrightarrow> keeps (f rid) R"
  shows "keeps (andthen (requestID r) f) R"
  using assms unfolding requestID_def known_id_def Let_def by (auto intro!: keeps_andthen keeps_pure)

lemma keeps_handler:
  assumes "known_id tags r"
  shows "keeps (booking_handler ext go r) R"
proof -
  have head: "keeps p R \<Longrightarrow> keeps (on_head r p) R" for p
    unfolding on_head_def by (auto intro!: keeps_andthen)
  have "keeps (http_createHold ext go r) R" "keeps (http_confirm ext go r) R" "keeps (http_get ext go i) R"
    "keeps (http_cancel ext i r) R" for i
    unfolding http_createHold_def http_confirm_def http_get_def http_cancel_def
    by (auto intro!: keeps_with_id [OF assms] keeps_andthen keeps_CreateHold keeps_Confirm keeps_Get keeps_Cancel
        split: option.split sum.split)
  then show ?thesis
    unfolding booking_handler_def by (auto intro!: head split: list.split)
qed

end

text \<open>Under any identifier the contract covers the sweeper, which mints its own.\<close>

locale store_contract = tagged_contract R ext UNIV for R :: "world \<Rightarrow> world \<Rightarrow> bool" and ext :: pg_ext
begin

lemma keeps_sweep: "keeps (sweepOnce ext) R"
proof -
  have row: "keeps (release_row_ids ext r) R" for r
    unfolding release_row_ids_def by (auto intro!: keeps_parts keeps_release_if split: sum.split)
  have rows: "keeps (releaseCancelled ext rs) R" for rs
    by (induction rs) (auto intro!: keeps_andthen row)
  show ?thesis unfolding sweepOnce_def by (auto intro!: keeps_parts rows split: sum.split)
qed

lemma keeps_sweeper: "keeps (StartSweeper ext es) R"
proof (induction es)
  case (Cons e es)
  then show ?case by (cases e) (auto intro!: keeps_andthen keeps_sweep)
qed simp

end

section \<open>The threads of the system\<close>

datatype sys_request =
    SysHttp http_req
  | SysSweeper "sweeper_event list"
  | SysTech tech_request
  | SysBay bay_request

fun sys_serve :: "pg_ext \<Rightarrow> go_ext \<Rightarrow> sys_request \<Rightarrow> (world, unit) prog" where
  "sys_serve ext go (SysHttp r) = andthen (booking_handler ext go r) (\<lambda>_. Ret ())"
| "sys_serve ext go (SysSweeper es) = StartSweeper ext es"
| "sys_serve ext go (SysTech q) = on_tech (tech_serve ext q)"
| "sys_serve ext go (SysBay q) = on_bay (bay_serve ext q)"

context store_contract
begin

lemma keeps_sys_serve: "keeps (sys_serve ext go q) R"
  by (cases q) (auto intro!: keeps_andthen keeps_handler keeps_sweeper tech_ops bay_ops simp: known_id_def)

lemma system_keeps: "R w (snd (interleave sch (map (sys_serve ext go) reqs, w)))"
  by (rule interleave_keeps) (auto simp: keeps_sys_serve)

end

section \<open>What the stores guarantee\<close>

lemma keeps_conj: "keeps p R \<Longrightarrow> keeps p R' \<Longrightarrow> keeps p (\<lambda>w w'. R w w' \<and> R' w w')"
proof (induction p rule: prog_induct)
  case (Act g)
  have "keeps (snd (g c w)) (\<lambda>w w'. R w w' \<and> R' w w')" for c w
    using Act.IH [of c w] Act.prems by (auto simp: split_beta)
  then show ?case using Act.prems by (auto simp: split_beta)
qed simp

text \<open>
  Occupations stay exclusive and follow their life cycle on both allocators, appointments stay
  well-formed and follow theirs, requests already sent stay in the log.
\<close>

definition tech_rel :: "tech_db \<Rightarrow> tech_db \<Rightarrow> bool" where
  "tech_rel db db' \<longleftrightarrow> stable (\<lambda>db. no_overlap (tech_occs db)) db db' \<and> occ_evolves (tech_occs db) (tech_occs db')"

definition bay_rel :: "bay_db \<Rightarrow> bay_db \<Rightarrow> bool" where
  "bay_rel db db' \<longleftrightarrow> stable (\<lambda>db. no_overlap (bay_occs db)) db db' \<and> occ_evolves (bay_occs db) (bay_occs db')"

definition sys_rel :: "world \<Rightarrow> world \<Rightarrow> bool" where
  "sys_rel w w' \<longleftrightarrow> tech_rel (w_tech w) (w_tech w') \<and> bay_rel (w_bay w) (w_bay w') \<and>
     appts_rel (w_appts w) (w_appts w') \<and> (\<exists>sent. w_log w' = w_log w @ sent)"

lemma tech_rel_refl [simp]: "tech_rel db db"
  using evolving.refl [of tech_occs db] by (simp add: tech_rel_def stable_def)

lemma bay_rel_refl [simp]: "bay_rel db db"
  using evolving.refl [of bay_occs db] by (simp add: bay_rel_def stable_def)

lemma sys_rel_parts:
  "tech_rel (w_tech w) db \<Longrightarrow> sys_rel w (set_w_tech db w)"
  "bay_rel (w_bay w) db2 \<Longrightarrow> sys_rel w (set_w_bay db2 w)"
  "appts_rel (w_appts w) rows \<Longrightarrow> sys_rel w (set_w_appts rows w)"
  by (simp_all add: sys_rel_def)

lemma keeps_tech_rel:
  "keeps (tech_Reserve ext tq) tech_rel" "keeps (tech_Confirm ext i) tech_rel" "keeps (tech_Release ext i) tech_rel"
  "keeps (tech_serve ext ts) tech_rel"
  unfolding tech_rel_def [abs_def]
  by (rule keeps_conj, simp add: keeps_tech_no_overlap, simp add: keeps_tech_evolves)+

lemma keeps_bay_rel:
  "keeps (bay_Reserve ext bq) bay_rel" "keeps (bay_Confirm ext i) bay_rel" "keeps (bay_Release ext i) bay_rel"
  "keeps (bay_serve ext bs) bay_rel"
  unfolding bay_rel_def [abs_def]
  by (rule keeps_conj, simp add: keeps_bay_no_overlap, simp add: keeps_bay_evolves)+

lemma keeps_on:
  "keeps pt tech_rel \<Longrightarrow> keeps (on_tech pt) sys_rel"
  "keeps pb bay_rel \<Longrightarrow> keeps (on_bay pb) sys_rel"
  "keeps pa appts_rel \<Longrightarrow> keeps (on_appts pa) sys_rel"
  by (erule keeps_zoom, erule sys_rel_parts)+

interpretation sys: store_contract sys_rel ext for ext
proof (unfold_locales, goal_cases)
  case (2 u v w)
  then show ?case
    using evolving.trans [of tech_occs "w_tech u" "w_tech v" "w_tech w"]
      evolving.trans [of bay_occs "w_bay u" "w_bay v" "w_bay w"]
      appts_rel.trans [of "\<lambda>x. x" "w_appts u" "w_appts v" "w_appts w"]
    by (auto simp: sys_rel_def tech_rel_def bay_rel_def stable_def)
next
  case (3 w rid m)
  show ?case by (simp add: sys_rel_def)
qed (simp add: sys_rel_def, (rule keeps_on, rule keeps_tech_rel keeps_bay_rel keeps_stmts)+)

text \<open>
  C4: Whatever requests are in flight, however they are interleaved, lost, delayed or abandoned,
  the system keeps its invariants: no technician and no bay has two live occupations that overlap,
  every appointment row is well-formed, ids and the keys of confirmed appointments are unique, and
  since the start no appointment has been deleted, moved, rebooked, re-keyed or revived.
\<close>

theorem system_invariant:
  assumes "no_overlap (tech_occs (w_tech w))" and "no_overlap (bay_occs (w_bay w))" and "appts_ok (w_appts w)"
  shows "case interleave sch (map (sys_serve ext go) reqs, w) of (ts, w') \<Rightarrow>
    no_overlap (tech_occs (w_tech w')) \<and> no_overlap (bay_occs (w_bay w')) \<and>
    appts_ok (w_appts w') \<and> appts_evolve (w_appts w) (w_appts w')"
  using sys.system_keeps [of w sch ext go reqs] assms
  by (auto simp: sys_rel_def tech_rel_def bay_rel_def stable_def appts_rel_def split: prod.split)

lemma system_invariant_witness:
  "case interleave [(0, demo_open 0), (1, demo_open 1), (2, demo_open 2), (0, demo_open 3)]
      (map (sys_serve demo_ext demo_go) [SysHttp demo_keyed, SysSweeper [Tick], SysTech TechReap], demo_held_world monday) of (ts, w') \<Rightarrow>
    no_overlap (tech_occs (w_tech w')) \<and> no_overlap (bay_occs (w_bay w')) \<and>
    appts_ok (w_appts w') \<and> appts_evolve (w_appts (demo_held_world monday)) (w_appts w')"
  by (rule system_invariant)
    (simp_all add: demo_held_world_def no_overlap_def demo_tech_db_def demo_bay_db_def appts_ok_def demo_appt_def
      row_ok_def held_def keys_unique_def)

end
