(* ===== verification/Races.thy ===== *)
theory Races
  imports System
begin

text \<open>
  Two behaviours of \<open>promoteConfirmed\<close> under failures, evaluated on concrete systems: a confirmed
  appointment can lose its occupations, and its slot can then be confirmed a second time.
\<close>

section \<open>Evaluating an interleaving\<close>

lemma step_thread0: "thread_step 0 c (andthen (atomic f) h # ts, w) = (h (fst (f c w)) # ts, snd (f c w))"
  by (simp add: thread_step_def atomic_def)

lemma step_thread1: "thread_step (Suc 0) c (p # andthen (atomic f) h # ts, w) = (p # h (fst (f c w)) # ts, snd (f c w))"
  by (simp add: thread_step_def atomic_def)

lemmas step_eval = step_thread0 step_thread1

lemma length_NewUUID: "length (NewUUID b) = 36"
  by (simp add: NewUUID_def Let_def uuid_bytes_def)

lemma NewUUID_fresh [simp]: "NewUUID b \<noteq> ''h''" "''h'' \<noteq> NewUUID b"
  using length_NewUUID [of b] by (auto dest: arg_cong [of _ _ length])

section \<open>Two confirmations of one hold\<close>

definition demo_now :: choice where
  "demo_now = demo_open 0"

definition demo_cut :: "call \<Rightarrow> choice" where
  "demo_cut k = demo_now\<lparr>faults := (\<lambda>_. Deliver)(k := LoseRequest)\<rparr>"

text \<open>
  Both requests read the row HELD; the first confirms both occupations; the second's Confirm is lost
  on the network, so it releases both; the first promotes the row and answers 201.
\<close>

definition demo_race :: "(nat \<times> choice) list" where
  "demo_race = [(0, demo_now), (1, demo_now), (0, demo_now), (0, demo_now), (0, demo_now), (0, demo_now),
     (1, demo_cut TechConfirmRPC), (1, demo_now), (1, demo_now), (1, demo_now), (1, demo_now), (0, demo_now), (0, demo_now)]"

definition demo_after_race :: "(world, confirmed) prog list \<times> world" where
  "demo_after_race = interleave demo_race
     ([confirmHold demo_ext demo_go ''r1'' '''' (demo_confirm ''h''), confirmHold demo_ext demo_go ''r2'' '''' (demo_confirm ''h'')],
      demo_held_world (monday + 1))"

definition demo_later :: "nat \<Rightarrow> choice" where
  "demo_later n = (demo_open n)\<lparr>fresh_id := ''P''\<rparr>"

lemma demo_race_result:
  "demo_after_race = ([Ret (Inr (toAppointment demo_go (promote_row '''' (fingerprint demo_go ''h'' ''D'' ''C'' ''V'' ''S'' '''')
       (demo_appt ''h'' (monday + 1))), 201)), Ret (Inl ErrUnavailable)],
     \<lparr>w_tech = demo_tech_db [release_row (confirm_row demo_tech_held)],
      w_bay = demo_bay_db [release_row (confirm_row demo_bay_held)],
      w_appts = [promote_row '''' (fingerprint demo_go ''h'' ''D'' ''C'' ''V'' ''S'' '''') (demo_appt ''h'' (monday + 1))],
      w_log = [(''r1'', MTechConfirm ''O''), (''r1'', MBayConfirm ''O''), (''r2'', MTechConfirm ''O''),
        (''r2'', MBayRelease ''O''), (''r2'', MTechRelease ''O'')]\<rparr>)"
  by (simp add: demo_after_race_def demo_race_def system_eval held_eval step_eval demo_now_def demo_cut_def cong: lazy)

definition demo_promoted :: AppointmentRow where
  "demo_promoted = promote_row '''' (fingerprint demo_go ''h'' ''D'' ''C'' ''V'' ''S'' '''') (demo_appt ''h'' (monday + 1))"

lemma demo_second_booking:
  "\<exists>b i x y tdb bdb l fp. run (confirmWithoutHold demo_ext demo_go ''r3'' '''' (demo_confirm '''')) demo_later (snd demo_after_race) =
     (Inr (b, 201), \<lparr>w_tech = tdb, w_bay = bdb, w_appts = [demo_promoted, demo_promoted\<lparr>ar_ID := NewUUID i,
        ar_TechOccupationID := x, ar_BayOccupationID := y, ar_RequestFingerprint := fp\<rparr>], w_log = l\<rparr>)"
  unfolding demo_race_result
  by (simp add: system_eval held_eval demo_later_def demo_promoted_def cong: lazy) blast

text \<open>
  C15: Two concurrent confirmations of one hold can double-book a technician: one is answered 201
  while the other, whose Confirm call was lost, releases the occupations the two share, and the
  next booking of the slot is answered 201 for the same technician and the same interval.
\<close>

theorem concurrent_promotes_double_book:
  "case run (confirmWithoutHold demo_ext demo_go ''r3'' '''' (demo_confirm '''')) demo_later (snd demo_after_race) of
     (res, w) \<Rightarrow>
       (\<exists>a. fst demo_after_race ! 0 = Ret (Inr (a, 201))) \<and> (\<exists>b. res = Inr (b, 201)) \<and>
       (\<exists>r1 \<in> set (w_appts w). \<exists>r2 \<in> set (w_appts w). ar_ID r1 \<noteq> ar_ID r2 \<and>
          ar_Status r1 = StatusConfirmed \<and> ar_Status r2 = StatusConfirmed \<and>
          ar_TechnicianID r1 = ar_TechnicianID r2 \<and> ar_TechnicianID r1 \<noteq> None \<and>
          range_overlap (ar_StartAt r1) (ar_EndAt r1) (ar_StartAt r2) (ar_EndAt r2))"
proof -
  obtain b i x y tdb bdb l fp where r:
    "run (confirmWithoutHold demo_ext demo_go ''r3'' '''' (demo_confirm '''')) demo_later (snd demo_after_race) =
     (Inr (b, 201), \<lparr>w_tech = tdb, w_bay = bdb, w_appts = [demo_promoted, demo_promoted\<lparr>ar_ID := NewUUID i,
        ar_TechOccupationID := x, ar_BayOccupationID := y, ar_RequestFingerprint := fp\<rparr>], w_log = l\<rparr>)"
    using demo_second_booking by blast
  have "ar_ID demo_promoted = ''h''" "ar_Status demo_promoted = StatusConfirmed" "ar_TechnicianID demo_promoted = Some ''T''"
    "ar_StartAt demo_promoted = monday + 540 * microseconds_per_minute" "ar_EndAt demo_promoted = monday + 570 * microseconds_per_minute"
    by (simp_all add: demo_promoted_def promote_row_def demo_appt_def)
  then show ?thesis unfolding r by (simp add: demo_race_result range_overlap_def)
qed

section \<open>A promotion whose reply is lost\<close>

definition demo_lost :: "nat \<Rightarrow> choice" where
  "demo_lost n = demo_now\<lparr>faults := (if n = 5 then (\<lambda>_. Deliver)(PromoteSQL := LoseReply)
     else if n = 6 then (\<lambda>_. Deliver)(GetSQL := LoseRequest) else (\<lambda>_. Deliver))\<rparr>"


end
