(* ===== verification/Idempotency.thy ===== *)
theory Idempotency
  imports System
begin

text \<open>
  The Idempotency-Key of a confirmation without hold: once it has been answered 201, the key answers
  every later request, with the same appointment or with a conflict, and no later request runs the
  saga again.
\<close>

lemma appts_ok_key:
  assumes "appts_ok rows" and "r \<in> set rows" and "has_key key r"
  shows "select_one (has_key key) rows = Some r"
proof -
  obtain r2 where r2: "select_one (has_key key) rows = Some r2"
    using assms(2,3) by (metis option.exhaust select_one_None_iff)
  have "r2 \<in> set rows" "has_key key r2" using select_one_Some [OF r2] by simp_all
  with assms have "r2 = r" by (auto simp: appts_ok_def keys_unique_def)
  with r2 show ?thesis by simp
qed

text \<open>The fingerprint of a request as \<open>replay\<close> computes it.\<close>

definition request_fp :: "go_ext \<Rightarrow> ConfirmRequest \<Rightarrow> string" where
  "request_fp go req = fingerprint go (cq_HoldID req) (cq_DealershipID req) (cq_CustomerID req)
     (cq_VehicleID req) (cq_ServiceTypeID req) (cq_Start req)"

lemma wp_replay_bound:
  assumes "\<And>c. C c \<Longrightarrow> faults c = (\<lambda>_. Deliver)" and "key \<noteq> ''''" and "select_one (has_key key) (w_appts w) = Some r"
  shows "wp (replay go key req) C (\<lambda>rep w'. w' = w \<and> rep =
     (if ar_RequestFingerprint r = Some (request_fp go req) then Inr (Some (toAppointment go r))
      else Inl ErrIdempotencyConflict)) w"
  using assms
  by (simp add: replay_def GetConfirmedByIdempotencyKey_def wp_sql_delivered set_w_appts_def request_fp_def)

lemma confirm_bound_key:
  assumes "\<And>c. C c \<Longrightarrow> faults c = (\<lambda>_. Deliver)" and "key \<noteq> ''''" and "select_one (has_key key) (w_appts w) = Some r"
  shows "wp (confirmWithoutHold ext go rid key req) C (\<lambda>res w'. w' = w \<and>
     (res = (if ar_RequestFingerprint r = Some (request_fp go req) then Inr (toAppointment go r, 200)
             else Inl ErrIdempotencyConflict) \<or> (\<exists>m. res = Inl (ErrInvalid m)))) w"
  by (rule wp_confirmWithoutHold, simp, rule wp_mono [OF wp_replay_bound [where C = C, OF assms]], assumption)
    (simp split: if_splits)



end
