(* ===== verification/Lifecycle.thy ===== *)
theory Lifecycle
  imports System
begin

text \<open>
  The abstract specification of Booking: appointments as a map from ids to three states with three
  transitions, and the refinement: whatever the handlers and the sweeper do to the appointment
  table, under any interleaving, is a sequence of those transitions.
\<close>

section \<open>The specification\<close>

datatype booking_state = BHeld | BConfirmed "string option" | BCancelled

type_synonym bookings = "string \<Rightarrow> booking_state option"

text \<open>
  A hold takes a new id; a promotion binds a key that no confirmed booking has; a cancellation or
  an expiry ends what is not ended.
\<close>

inductive booking_step :: "bookings \<Rightarrow> bookings \<Rightarrow> bool" where
  hold: "s i = None \<Longrightarrow> booking_step s (s(i \<mapsto> BHeld))"
| promote: "s i = Some BHeld \<Longrightarrow> \<forall>k. key = Some k \<longrightarrow> (\<forall>j. s j \<noteq> Some (BConfirmed (Some k))) \<Longrightarrow>
    booking_step s (s(i \<mapsto> BConfirmed key))"
| cancel: "s i = Some x \<Longrightarrow> x \<noteq> BCancelled \<Longrightarrow> booking_step s (s(i \<mapsto> BCancelled))"

inductive_cases booking_stepE: "booking_step s s'"

text \<open>What the specification promises of its runs.\<close>

lemma booking_steps_final:
  "booking_step\<^sup>*\<^sup>* s s' \<Longrightarrow> s i = Some BCancelled \<Longrightarrow> s' i = Some BCancelled"
  by (induction rule: rtranclp_induct) (auto elim!: booking_stepE)

lemma booking_steps_key:
  "booking_step\<^sup>*\<^sup>* s s' \<Longrightarrow> s i = Some (BConfirmed key) \<Longrightarrow> s' i \<in> {Some (BConfirmed key), Some BCancelled}"
  by (induction rule: rtranclp_induct) (auto elim!: booking_stepE split: if_splits)

section \<open>The abstraction\<close>

definition state_of :: "AppointmentRow \<Rightarrow> booking_state" where
  "state_of r = (case ar_Status r of
     StatusHeld \<Rightarrow> BHeld | StatusConfirmed \<Rightarrow> BConfirmed (ar_IdempotencyKey r) | StatusCancelled \<Rightarrow> BCancelled)"

definition bookings_of :: "AppointmentRow list \<Rightarrow> bookings" where
  "bookings_of rows i = map_option state_of (select_one (\<lambda>r. ar_ID r = i) rows)"

lemma lookup_update:
  assumes "\<And>r. ar_ID (f r) = ar_ID r"
  shows "select_one (\<lambda>r. ar_ID r = i) (update_where P f rows) =
     map_option (\<lambda>r. if P r then f r else r) (select_one (\<lambda>r. ar_ID r = i) rows)"
  by (induction rows) (auto simp: assms select_one_def update_where_def)

lemma bookings_update:
  assumes "\<And>r. ar_ID (f r) = ar_ID r"
  shows "bookings_of (update_where P f rows) i =
     (case select_one (\<lambda>r. ar_ID r = i) rows of None \<Rightarrow> None | Some r \<Rightarrow> Some (state_of (if P r then f r else r)))"
  unfolding bookings_of_def lookup_update [OF assms] by (simp split: option.split)

lemma state_of_rows [simp]:
  "state_of (cancel_row r) = BCancelled" "state_of (clear_row r) = state_of r"
  "state_of (promote_row key fp r) = BConfirmed (nullif_empty key)"
  by (simp_all add: state_of_def cancel_row_def clear_row_def promote_row_def split: appt_status.split)

lemma row_ids [simp]:
  "ar_ID (cancel_row r) = ar_ID r" "ar_ID (clear_row r) = ar_ID r" "ar_ID (promote_row key fp r) = ar_ID r"
  by (simp_all add: cancel_row_def clear_row_def promote_row_def)

lemma cancel_many:
  assumes "finite A" and "\<And>i. i \<in> A \<Longrightarrow> \<exists>x. s i = Some x \<and> x \<noteq> BCancelled"
  shows "booking_step\<^sup>*\<^sup>* s (\<lambda>i. if i \<in> A then Some BCancelled else s i)"
  using assms
proof (induction A rule: finite_induct)
  case (insert a A)
  let ?m = "\<lambda>i. if i \<in> A then Some BCancelled else s i"
  obtain x where "s a = Some x" "x \<noteq> BCancelled" using insert.prems by blast
  then have "booking_step ?m (?m(a \<mapsto> BCancelled))"
    using insert.hyps by (intro booking_step.cancel [of _ _ x]) auto
  moreover have "?m(a \<mapsto> BCancelled) = (\<lambda>i. if i \<in> insert a A then Some BCancelled else s i)" by auto
  ultimately show ?case using insert.IH insert.prems by (metis (no_types, lifting) insertCI rtranclp.rtrancl_into_rtrancl)
qed simp

lemma refine_cancel:
  assumes "\<And>r. P r \<Longrightarrow> live_appt r"
  shows "booking_step\<^sup>*\<^sup>* (bookings_of rows) (bookings_of (update_where P cancel_row rows))"
proof -
  define A where "A = {i. \<exists>r. select_one (\<lambda>r. ar_ID r = i) rows = Some r \<and> P r}"
  have "A \<subseteq> ar_ID ` set rows" by (auto simp: A_def dest: select_one_Some)
  then have "finite A" by (rule finite_subset) simp
  moreover have "\<exists>x. bookings_of rows i = Some x \<and> x \<noteq> BCancelled" if "i \<in> A" for i
    using that assms by (fastforce simp: A_def bookings_of_def state_of_def live_appt_def split: appt_status.splits)
  moreover have "bookings_of (update_where P cancel_row rows) = (\<lambda>i. if i \<in> A then Some BCancelled else bookings_of rows i)"
    by (rule ext, subst bookings_update) (auto simp: A_def bookings_of_def split: option.split)
  ultimately show ?thesis using cancel_many [of A "bookings_of rows"] by simp
qed

lemma refine_insert:
  assumes "insert_appt ext r now rows = Inr rows'" and "ar_Status r = StatusHeld"
  shows "booking_step\<^sup>*\<^sup>* (bookings_of rows) (bookings_of rows')"
proof -
  obtain n where n: "stored_row ext r now = Some n" "ar_ID n \<notin> set (map ar_ID rows)" "rows' = rows @ [n]"
    using assms(1) by (auto simp: insert_appt_def split: option.splits if_splits)
  have "state_of n = BHeld" using n(1) assms(2) by (auto simp: stored_row_def state_of_def split: option.splits)
  moreover have none: "select_one (\<lambda>r. ar_ID r = ar_ID n) rows = None" using n(2) by (metis (mono_tags, lifting) image_eqI select_one_None_iff set_map)
  moreover have "select_one P (rows @ [n]) = (case select_one P rows of None \<Rightarrow> if P n then Some n else None | Some x \<Rightarrow> Some x)" for P
    by (induction rows) (auto simp: select_one_def)
  ultimately have "bookings_of rows' = (bookings_of rows)(ar_ID n \<mapsto> BHeld)" "bookings_of rows (ar_ID n) = None"
    by (auto simp: bookings_of_def n(3) fun_eq_iff split: option.split)
  then show ?thesis using booking_step.hold by (metis r_into_rtranclp)
qed

lemma refine_promote:
  assumes "promote_appts u key fp rows = Inr (r, rows')" and ok: "appts_ok rows"
  shows "booking_step\<^sup>*\<^sup>* (bookings_of rows) (bookings_of rows')"
proof -
  obtain r0 where r0: "select_one (\<lambda>r. ar_ID r = u \<and> held r) rows = Some r0"
      "\<not> (key \<noteq> '''' \<and> (\<exists>r2 \<in> set rows. has_key key r2))"
      "rows' = update_where (\<lambda>r. ar_ID r = u \<and> held r) (promote_row key fp) rows"
    using assms(1) by (auto simp: promote_appts_def split: option.splits if_splits)
  have "r0 \<in> set rows" "ar_ID r0 = u" "held r0" using select_one_Some [OF r0(1)] by simp_all
  then have look: "select_one (\<lambda>r. ar_ID r = u) rows = Some r0" and h: "held r0"
    using select_key_unique [OF appts_ok_distinct [OF ok], of r0] by auto
  have "booking_step (bookings_of rows) ((bookings_of rows)(u \<mapsto> BConfirmed (nullif_empty key)))"
  proof (rule booking_step.promote)
    show "bookings_of rows u = Some BHeld" using look h by (simp add: bookings_of_def state_of_def held_def)
    show "\<forall>k. nullif_empty key = Some k \<longrightarrow> (\<forall>j. bookings_of rows j \<noteq> Some (BConfirmed (Some k)))"
      using r0(2) by (auto simp: nullif_empty_def bookings_of_def state_of_def has_key_def
          split: if_splits appt_status.splits dest: select_one_Some)
  qed
  moreover have "bookings_of rows' = (bookings_of rows)(u \<mapsto> BConfirmed (nullif_empty key))"
    unfolding r0(3)
    by (rule ext, subst bookings_update)
      (use look h in \<open>auto simp: bookings_of_def split: option.split dest: select_one_Some\<close>)
  ultimately show ?thesis by simp
qed

lemma refine_clear: "bookings_of (update_where P clear_row rows) = bookings_of rows"
  by (rule ext, subst bookings_update)
    (auto simp: bookings_of_def split: option.split)

section \<open>Every statement refines the specification\<close>

definition life_rel :: "AppointmentRow list \<Rightarrow> AppointmentRow list \<Rightarrow> bool" where
  "life_rel rows rows' \<longleftrightarrow> (appts_ok rows \<longrightarrow> appts_ok rows' \<and> booking_step\<^sup>*\<^sup>* (bookings_of rows) (bookings_of rows'))"

lemma life_rel_refl [simp]: "life_rel rows rows"
  by (simp add: life_rel_def)

lemma life_relI:
  "appts_rel rows rows' \<Longrightarrow> (appts_ok rows \<Longrightarrow> booking_step\<^sup>*\<^sup>* (bookings_of rows) (bookings_of rows')) \<Longrightarrow> life_rel rows rows'"
  by (simp add: life_rel_def appts_rel_def)

lemma keeps_life_stmts:
  "keeps (InsertHeld ext r) life_rel" "keeps (get_stmt ext i) life_rel"
  "keeps (GetConfirmedByIdempotencyKey key) life_rel" "keeps (Promote ext i key fp) life_rel"
  "keeps (cancel_stmt ext i) life_rel" "keeps (SweepBatch n) life_rel"
  "keeps (ListCancelledNeedingRelease n) life_rel" "keeps (ClearOccupationIDs ext i) life_rel"
proof -
  have clear: "life_rel rows (update_where (\<lambda>r. ar_ID r = u \<and> cancelled r) clear_row rows)" for rows u
    by (rule life_relI [OF appts_rel_clear]) (simp add: refine_clear)
  have cancel: "life_rel rows (update_where (\<lambda>r. ar_ID r = u \<and> live_appt r) cancel_row rows)" for rows u
    by (rule life_relI [OF appts_rel_cancel]) (auto intro: refine_cancel)
  have sweep: "life_rel rows (update_where (\<lambda>r. ar_ID r \<in> set (sweep_ids now busy limit rows)) cancel_row rows)"
    for rows now busy limit
  proof (rule life_relI [OF appts_rel_sweep])
    assume ok: "appts_ok rows"
    show "booking_step\<^sup>*\<^sup>* (bookings_of rows)
        (bookings_of (update_where (\<lambda>r. ar_ID r \<in> set (sweep_ids now busy limit rows)) cancel_row rows))"
      unfolding sweep_ids_only_held [OF ok] by (rule refine_cancel) (simp add: held_def live_appt_def)
  qed
  have ins: "life_rel rows rows'" if "insert_appt ext r now rows = Inr rows'" "ar_Status r = StatusHeld" for rows rows' r now
    using that by (intro life_relI [OF appts_rel_insert] refine_insert)
  have prom: "life_rel rows rows'" if "promote_appts u key fp rows = Inr (r, rows')" for rows rows' u r
    using that by (intro life_relI [OF appts_rel_promote] refine_promote)
  show "keeps (InsertHeld ext r) life_rel"
    unfolding InsertHeld_def mint_uuid_def
    by (auto simp: Let_def split: sum.splits
        intro!: keeps_andthen keeps_atomic keeps_sql keeps_time_now elim!: ins)
  show "keeps (Promote ext i key fp) life_rel"
    unfolding Promote_def promote_stmt_def
    by (auto split: sum.splits option.splits intro!: keeps_andthen keeps_sql intro: prom)
  show "keeps (cancel_stmt ext i) life_rel" "keeps (ClearOccupationIDs ext i) life_rel"
    "keeps (get_stmt ext i) life_rel"
    unfolding cancel_stmt_def ClearOccupationIDs_def get_stmt_def
    by (auto split: option.splits intro!: keeps_sql clear cancel)
  show "keeps (GetConfirmedByIdempotencyKey key) life_rel" "keeps (SweepBatch n) life_rel"
    "keeps (ListCancelledNeedingRelease n) life_rel"
    unfolding GetConfirmedByIdempotencyKey_def SweepBatch_def ListCancelledNeedingRelease_def
    by (auto simp: Let_def intro!: keeps_sql sweep)
qed

definition life_world :: "world \<Rightarrow> world \<Rightarrow> bool" where
  "life_world w w' \<longleftrightarrow> life_rel (w_appts w) (w_appts w')"

lemma keeps_life_allocators: "keeps (on_tech p) life_world" "keeps (on_bay q) life_world"
  by (rule keeps_frame, simp add: life_world_def)+

lemma keeps_life: "keeps p life_rel \<Longrightarrow> keeps (on_appts p) life_world"
  by (erule keeps_zoom) (simp add: life_world_def)

interpretation life: store_contract life_world ext for ext
proof (unfold_locales, goal_cases)
  case (2 u v w)
  then show ?case by (auto simp: life_world_def life_rel_def intro: rtranclp_trans)
next
  case (3 w rid m)
  show ?case by (simp add: life_world_def)
qed (simp add: life_world_def, (rule keeps_life_allocators | rule keeps_life, rule keeps_life_stmts)+)

text \<open>
  C7: Booking refines its specification: whatever requests are in flight and however they are
  interleaved, lost or abandoned, the appointment table evolves only by the three transitions of the
  life cycle: a new id is held, a held booking is confirmed under a key no other confirmed booking
  has, a booking that is not cancelled is cancelled.
\<close>

theorem booking_refines_lifecycle:
  assumes "appts_ok (w_appts w)"
  shows "booking_step\<^sup>*\<^sup>* (bookings_of (w_appts w))
    (bookings_of (w_appts (snd (interleave sch (map (sys_serve ext go) reqs, w)))))"
  using life.system_keeps [of w sch ext go reqs] assms by (simp add: life_world_def life_rel_def)

lemma booking_refines_lifecycle_witness:
  "booking_step\<^sup>*\<^sup>* (bookings_of (w_appts (demo_held_world monday)))
    (bookings_of (w_appts (snd (interleave [(0, demo_open 0), (1, demo_open 1), (0, demo_open 2)]
       (map (sys_serve demo_ext demo_go) [SysSweeper [Tick], SysSweeper [Tick]], demo_held_world monday)))))"
  by (rule booking_refines_lifecycle)
    (simp add: demo_held_world_def appts_ok_def demo_appt_def row_ok_def held_def keys_unique_def)

end
