(* ===== verification/Hours.thy ===== *)
theory Hours
  imports Demo
begin

text \<open>
  Opening hours: in a zone whose offset does not change, the guards of the saga are comparisons on
  the dealership's wall clock; on a day the clock changes they are not.
\<close>

lemma le_div_mult:
  assumes "0 < (k :: int)"
  shows "a * k \<le> x \<longleftrightarrow> a \<le> x div k"
proof
  assume "a * k \<le> x"
  from zdiv_mono1 [OF this assms] show "a \<le> x div k" using assms by simp
next
  assume "a \<le> x div k"
  then have "a * k \<le> x div k * k" using assms by (intro mult_right_mono) simp_all
  also have "\<dots> \<le> x" using assms by (simp add: minus_mod_eq_div_mult [symmetric])
  finally show "a * k \<le> x" .
qed


lemma demo_snap_hours: "sn_OpeningHours demo_snap d =
    (if d = 1 then Some \<lparr>oh_Weekday = 1, oh_OpenMinutes = 480, oh_CloseMinutes = 1080\<rparr> else None)"
  by (simp add: demo_snap_def hours_map_def)


section \<open>A day the clock goes forward\<close>

text \<open>Offset one hour until 01:00 UTC of the day, two hours from then on.\<close>

definition demo_dst :: zone where
  "demo_dst = \<lparr>base_offset = 3600000000, transitions = [(monday + 3600000000, 7200000000)]\<rparr>"


end
