(* ===== verification/Sweeper.thy ===== *)
theory Sweeper
  imports System
begin

text \<open>
  The backlog of the recovery sweep: every tick cancels the fifty earliest expired holds, so a
  backlog of any size is worked off in a bounded number of ticks, whatever becomes of the Releases.
\<close>

definition due :: "instant \<Rightarrow> AppointmentRow list \<Rightarrow> AppointmentRow list" where
  "due t rows = filter (\<lambda>r. held r \<and> null_le (ar_HoldExpiresAt r) t) rows"

definition same_due :: "instant \<Rightarrow> world \<Rightarrow> world \<Rightarrow> bool" where
  "same_due t w w' \<longleftrightarrow> due t (w_appts w') = due t (w_appts w)"

interpretation backlog: guarantee "same_due t" for t
  by unfold_locales (auto simp: same_due_def)

section \<open>Releases leave the backlog alone\<close>

lemma due_clear: "due t (update_where (\<lambda>r. ar_ID r = u \<and> cancelled r) clear_row rows) = due t rows"
  by (induction rows) (auto simp: due_def held_def cancelled_def clear_row_def)

lemma keeps_same_due_rpc:
  "keeps (rpc k rid m (on_tech p)) (same_due t)" "keeps (rpc k rid m (on_bay q)) (same_due t)"
  unfolding rpc_def send_def
  by (auto intro!: keeps_andthen keeps_atomic keeps_frame simp: same_due_def split: fault.split)

lemma keeps_same_due_releases: "keeps (releaseCancelled ext rows) (same_due t)"
proof -
  have rel: "keeps (release_if (\<lambda>occ. releaseTech ext occ rid) o1) (same_due t)"
    "keeps (release_if (\<lambda>occ. releaseBay ext occ rid) o1) (same_due t)" for rid o1
    unfolding release_if_def releaseTech_def releaseBay_def
    by (auto intro!: keeps_same_due_rpc split: option.split)
  have clear: "keeps (on_appts (ClearOccupationIDs ext i)) (same_due t)" for i
    by (rule keeps_zoom [where R = "\<lambda>rows rows'. due t rows' = due t rows"])
      (auto simp: ClearOccupationIDs_def same_due_def due_clear intro!: keeps_sql split: option.split)
  have "keeps (release_row_ids ext r) (same_due t)" for r
    unfolding release_row_ids_def mint_uuid_def
    by (auto intro!: keeps_andthen keeps_atomic rel clear backlog.refl split: sum.split)
  then show ?thesis by (induction rows) (auto intro!: keeps_andthen)
qed

section \<open>A tick takes the earliest fifty\<close>

lemma sorted_filter_le:
  assumes "sorted (map k xs)"
  shows "filter (\<lambda>x. k x \<le> (t::int)) (drop n xs) = drop n (filter (\<lambda>x. k x \<le> t) xs)"
  using assms
proof (induction xs arbitrary: n)
  case (Cons x xs)
  show ?case
  proof (cases "k x \<le> t")
    case True
    then show ?thesis using Cons by (cases n) auto
  next
    case False
    then have none: "\<not> k y \<le> t" if "y \<in> set (x # xs)" for y using Cons.prems that by auto
    have "filter (\<lambda>x. k x \<le> t) (x # xs) = []" "filter (\<lambda>x. k x \<le> t) (drop n (x # xs)) = []"
      by (rule filter_False, use none in \<open>auto dest!: in_set_dropD simp del: set_simps\<close>)+
    then show ?thesis by (simp only: drop_Nil)
  qed
qed simp

lemma length_filter_conj: "length (filter (\<lambda>x. P x \<and> Q x) xs) \<le> length (filter P xs)"
  by (induction xs) auto

lemma due_cancel: "due t (update_where (\<lambda>r. ar_ID r \<in> I) cancel_row rows) =
    filter (\<lambda>r. (held r \<and> null_le (ar_HoldExpiresAt r) t) \<and> ar_ID r \<notin> I) rows"
  by (induction rows) (auto simp: due_def held_def cancel_row_def)

lemma sweep_backlog:
  assumes "t \<le> now"
  shows "length (due t (update_where (\<lambda>r. ar_ID r \<in> set (sweep_ids now [] n rows)) cancel_row rows))
    \<le> length (due t rows) - n"
proof -
  let ?d = "\<lambda>r. held r \<and> null_le (ar_HoldExpiresAt r) t"
  let ?ids = "set (sweep_ids now [] n rows)"
  let ?L = "sort_key expiry (filter (sweepable now []) rows)"
  have ids: "?ids = ar_ID ` set (take n ?L)"
    by (simp add: sweep_ids_def expiry_def [abs_def])
  have dueL: "filter ?d ?L = filter (\<lambda>r. expiry r \<le> t) ?L"
    by (rule filter_cong) (auto simp: sweepable_def null_le_def expiry_def split: option.splits)
  have rows: "length (filter ?d ?L) = length (due t rows)"
    using assms
    by (auto simp: filter_sort due_def sweepable_def null_le_def intro!: arg_cong [where f = length] filter_cong
        split: option.splits)
  have "length (due t (update_where (\<lambda>r. ar_ID r \<in> ?ids) cancel_row rows)) =
      length (filter (\<lambda>r. ?d r \<and> ar_ID r \<notin> ?ids) ?L)"
    using assms
    by (auto simp: due_cancel filter_sort sweepable_def null_le_def intro!: arg_cong [where f = length] filter_cong
        split: option.splits)
  also have "\<dots> = length (filter (\<lambda>r. ?d r \<and> ar_ID r \<notin> ?ids) (take n ?L @ drop n ?L))" by simp
  also have "\<dots> \<le> length (filter ?d (drop n ?L))"
  proof -
    have "filter (\<lambda>r. ?d r \<and> ar_ID r \<notin> ?ids) (take n ?L) = []" by (auto simp: filter_empty_conv ids)
    moreover have "length (filter (\<lambda>r. ?d r \<and> ar_ID r \<notin> ?ids) (drop n ?L)) \<le> length (filter ?d (drop n ?L))"
      by (rule length_filter_conj)
    ultimately show ?thesis by (simp only: filter_append append_Nil)
  qed
  also have "filter ?d (drop n ?L) = drop n (filter ?d ?L)"
  proof -
    have "filter ?d (drop n ?L) = filter (\<lambda>r. expiry r \<le> t) (drop n ?L)"
      by (rule filter_cong) (auto simp: sweepable_def null_le_def expiry_def split: option.splits dest!: in_set_dropD)
    then show ?thesis unfolding dueL by (simp only: sorted_filter_le [OF sorted_sort_key])
  qed
  finally show ?thesis using rows by simp
qed

text \<open>An environment in which the sweeping statement itself gets through, on rows nobody has locked.\<close>

definition sweeps_at :: "instant \<Rightarrow> choice \<Rightarrow> bool" where
  "sweeps_at t c \<longleftrightarrow> faults c SweepSQL = Deliver \<and> locked c = [] \<and> t \<le> db_now c"

lemma wp_tick:
  "wp (sweepOnce ext) (sweeps_at t) (\<lambda>_ w'. length (due t (w_appts w')) \<le> length (due t (w_appts w)) - 50) w"
proof -
  let ?rest = "\<lambda>rows. andthen (releaseCancelled ext rows) (\<lambda>_.
    andthen (on_appts (ListCancelledNeedingRelease sweepLimit)) (\<lambda>listed.
      case listed of Inl e \<Rightarrow> Ret () | Inr pending \<Rightarrow> releaseCancelled ext pending))"
  have "keeps (on_appts (ListCancelledNeedingRelease n)) (same_due t)" for n
    by (rule keeps_zoom [where R = "\<lambda>rows rows'. due t rows' = due t rows"])
      (auto simp: ListCancelledNeedingRelease_def same_due_def intro!: keeps_sql)
  then have "keeps (?rest rows) (same_due t)" for rows
    by (auto intro!: keeps_andthen keeps_same_due_releases split: sum.split)
  then have rest: "wp (?rest rows) (sweeps_at t) (\<lambda>_ v. same_due t u v) u" for rows u
    by (rule backlog.wp_keeps)
  have step: "wp (?rest rows) (sweeps_at t) (\<lambda>_ w'. length (due t (w_appts w')) \<le> length (due t (w_appts w)) - 50)
      (set_w_appts (update_where (\<lambda>r. ar_ID r \<in> set (sweep_ids now [] 50 (w_appts w))) cancel_row (w_appts w)) w)"
    if "t \<le> now" for rows now
    by (rule wp_mono [OF rest]) (use sweep_backlog [OF that, of 50 "w_appts w"] in \<open>simp add: same_due_def\<close>)
  show ?thesis
    unfolding sweepOnce_def wp_andthen wp_on_appts SweepBatch_def
    by (subst wp_sql_delivered) (auto simp: sweeps_at_def Let_def wp_andthen_fun intro: step [simplified wp_andthen_fun])
qed

lemma wp_sweeper:
  "wp (StartSweeper ext (replicate n Tick)) (sweeps_at t)
    (\<lambda>_ w'. length (due t (w_appts w')) \<le> length (due t (w_appts w)) - 50 * n) w"
proof (induction n arbitrary: w)
  case (Suc n)
  show ?case
    by (simp add: wp_andthen_fun) (rule wp_mono [OF wp_tick], rule wp_mono [OF Suc.IH], simp)
qed simp


text \<open>Every call but the sweep is lost.\<close>

definition demo_storm :: "nat \<Rightarrow> choice" where
  "demo_storm i = (demo_choice monday ''O'')\<lparr>faults := (\<lambda>k. if k = SweepSQL then Deliver else LoseRequest)\<rparr>"


end
