(* ===== verification/Catalog.thy ===== *)
theory Catalog
  imports Http "HOL-Library.List_Lexorder" "HOL-Library.Product_Lexorder"
begin

text \<open>
  The Catalog service (\<open>services/catalog/catalog.go\<close>): three read-only lookups over its own tables
  (\<open>services/catalog/migrations\<close>), their JSON, and the mux.  \<open>ORDER BY\<close> on a text column uses the
  database's collation; \<open>collate\<close> is its sort key, a parameter.
\<close>

section \<open>Tables\<close>

record dealership_row =
  dr_id :: string
  dr_name :: string
  dr_timezone :: string

record hours_row =
  hw_dealership_id :: string
  hw_weekday :: int
  hw_open_minutes :: int
  hw_close_minutes :: int

record service_type_row =
  str_id :: string
  str_name :: string
  str_duration_minutes :: int

record customer_row =
  cr_id :: string
  cr_name :: string

record vehicle_row =
  vr_id :: string
  vr_customer_id :: string
  vr_vin :: string

record catalog_db =
  cd_dealerships :: "dealership_row list"
  cd_hours :: "hours_row list"
  cd_service_types :: "service_type_row list"
  cd_customers :: "customer_row list"
  cd_vehicles :: "vehicle_row list"

text \<open>The constraints the tables are declared with.\<close>

definition hours_ok :: "catalog_db \<Rightarrow> hours_row \<Rightarrow> bool" where
  "hours_ok db h \<longleftrightarrow> hw_dealership_id h \<in> set (map dr_id (cd_dealerships db)) \<and>
     1 \<le> hw_weekday h \<and> hw_weekday h \<le> 7 \<and> 0 \<le> hw_open_minutes h \<and> hw_open_minutes h < 1440 \<and>
     0 < hw_close_minutes h \<and> hw_close_minutes h \<le> 1440"

definition catalog_ok :: "catalog_db \<Rightarrow> bool" where
  "catalog_ok db \<longleftrightarrow> distinct (map dr_id (cd_dealerships db)) \<and>
     distinct (map (\<lambda>h. (hw_dealership_id h, hw_weekday h)) (cd_hours db)) \<and> list_all (hours_ok db) (cd_hours db) \<and>
     distinct (map str_id (cd_service_types db)) \<and>
     list_all (\<lambda>s. 1 \<le> str_duration_minutes s) (cd_service_types db) \<and>
     distinct (map cr_id (cd_customers db)) \<and> distinct (map vr_id (cd_vehicles db)) \<and>
     list_all (\<lambda>v. vr_customer_id v \<in> set (map cr_id (cd_customers db))) (cd_vehicles db) \<and>
     distinct (map vr_vin (cd_vehicles db))"

section \<open>Wire types\<close>

record CatOpeningHours =
  co_Weekday :: int
  co_OpenMinutes :: int
  co_CloseMinutes :: int

record Dealership =
  de_ID :: string
  de_Name :: string
  de_Timezone :: string
  de_OpeningHours :: "CatOpeningHours list"

record ServiceType =
  se_ID :: string
  se_Name :: string
  se_DurationMinutes :: int

record Vehicle =
  vh_ID :: string
  vh_CustomerID :: string
  vh_VIN :: string

definition hours_json :: "CatOpeningHours \<Rightarrow> json" where
  "hours_json h = JObject [(''weekday'', JInt (co_Weekday h)), (''openMinutes'', JInt (co_OpenMinutes h)),
     (''closeMinutes'', JInt (co_CloseMinutes h))]"

definition dealership_json :: "Dealership \<Rightarrow> json" where
  "dealership_json d = JObject ([(''id'', JString (de_ID d))] @ omitempty ''name'' (de_Name d) @
     [(''timezone'', JString (de_Timezone d))] @
     (if de_OpeningHours d = [] then [] else [(''openingHours'', JArray (map hours_json (de_OpeningHours d)))]))"

definition service_type_json :: "ServiceType \<Rightarrow> json" where
  "service_type_json s = JObject ([(''id'', JString (se_ID s))] @ omitempty ''name'' (se_Name s) @
     [(''durationMinutes'', JInt (se_DurationMinutes s))])"

definition vehicle_json :: "Vehicle \<Rightarrow> json" where
  "vehicle_json v = JObject [(''id'', JString (vh_ID v)), (''customerId'', JString (vh_CustomerID v)),
     (''vin'', JString (vh_VIN v))]"

fun StatusText :: "nat \<Rightarrow> string" where
  "StatusText status = (if status = 404 then ''Not Found'' else if status = 500 then ''Internal Server Error'' else '''')"

definition cat_writeError :: "nat \<Rightarrow> string \<Rightarrow> http_out" where
  "cat_writeError status message =
     writeJSON status (JObject [(''error'', JString (StatusText status)), (''message'', JString message)])"

section \<open>Queries\<close>

text \<open>
  What \<open>pool.Query\<close> and the row loop see: an error at once, or rows, at whose end \<open>rows.Err()\<close> is
  nil or not.  A reply that is lost on the way breaks off after some of its rows; the random bytes
  of the choice say after how many.
\<close>

datatype 'r reply = QueryError | RowsThen "'r list" bool

definition query :: "call \<Rightarrow> ('w \<Rightarrow> 'r list) \<Rightarrow> ('w, 'r reply) prog" where
  "query k f = atomic (\<lambda>c w. (case faults c k of
       Deliver \<Rightarrow> RowsThen (f w) True
     | LoseRequest \<Rightarrow> QueryError
     | LoseReply \<Rightarrow> RowsThen (take (unat (entropy c 0)) (f w)) False, w))"

subsection \<open>Dealerships\<close>

text \<open>A row of the join; a dealership without hours appears once, with \<open>NULL\<close> in their place.\<close>

record dealer_scan =
  ds_id :: string
  ds_name :: string
  ds_timezone :: string
  ds_hours :: "(int \<times> int \<times> int) option"

definition joined :: "dealership_row \<Rightarrow> hours_row option \<Rightarrow> dealer_scan" where
  "joined d h = \<lparr>ds_id = dr_id d, ds_name = dr_name d, ds_timezone = dr_timezone d,
     ds_hours = map_option (\<lambda>h. (hw_weekday h, hw_open_minutes h, hw_close_minutes h)) h\<rparr>"

definition dealer_hours :: "catalog_db \<Rightarrow> dealership_row \<Rightarrow> hours_row list" where
  "dealer_hours db d = filter (\<lambda>h. hw_dealership_id h = dr_id d) (cd_hours db)"

definition left_join :: "catalog_db \<Rightarrow> dealership_row \<Rightarrow> dealer_scan list" where
  "left_join db d = (if dealer_hours db d = [] then [joined d None] else map (\<lambda>h. joined d (Some h)) (dealer_hours db d))"

text \<open>\<open>ORDER BY d.name, h.weekday\<close>: \<open>NULL\<close> sorts last.\<close>

definition dealer_order :: "(string \<Rightarrow> nat list) \<Rightarrow> dealer_scan \<Rightarrow> nat list \<times> nat \<times> int" where
  "dealer_order collate r = (collate (ds_name r), (case ds_hours r of None \<Rightarrow> (1, 0) | Some (d, m, n) \<Rightarrow> (0, d)))"

definition dealership_rows :: "(string \<Rightarrow> nat list) \<Rightarrow> catalog_db \<Rightarrow> dealer_scan list" where
  "dealership_rows collate db = sort_key (dealer_order collate) (concat (map (left_join db) (cd_dealerships db)))"

text \<open>\<open>Scan\<close> into \<open>*int16\<close> fails on a value out of its range.\<close>

definition scan_ok :: "dealer_scan \<Rightarrow> bool" where
  "scan_ok r \<longleftrightarrow> (case ds_hours r of None \<Rightarrow> True
     | Some (d, m, n) \<Rightarrow> \<forall>x \<in> {d, m, n}. - 32768 \<le> x \<and> x < 32768)"

text \<open>The loop body: \<open>byID\<close> and \<open>order\<close> after one more row.\<close>

definition group_row ::
  "dealer_scan \<Rightarrow> (string \<Rightarrow> Dealership option) \<times> string list \<Rightarrow> (string \<Rightarrow> Dealership option) \<times> string list" where
  "group_row r s = (case s of (byID, order) \<Rightarrow>
     let (d, order) = (case byID (ds_id r) of
         Some d \<Rightarrow> (d, order)
       | None \<Rightarrow> (\<lparr>de_ID = ds_id r, de_Name = ds_name r, de_Timezone = ds_timezone r, de_OpeningHours = []\<rparr>,
                   order @ [ds_id r]));
       d = (case ds_hours r of
         None \<Rightarrow> d
       | Some (wd, m, n) \<Rightarrow> d\<lparr>de_OpeningHours := de_OpeningHours d @
                               [\<lparr>co_Weekday = wd, co_OpenMinutes = m, co_CloseMinutes = n\<rparr>]\<rparr>)
     in (byID(ds_id r := Some d), order))"

fun group_rows ::
  "dealer_scan list \<Rightarrow> (string \<Rightarrow> Dealership option) \<times> string list \<Rightarrow>
   ((string \<Rightarrow> Dealership option) \<times> string list) option" where
  "group_rows [] s = Some s"
| "group_rows (r # rs) s = (if scan_ok r then group_rows rs (group_row r s) else None)"

text \<open>\<open>out\<close>: every id of \<open>order\<close> is in \<open>byID\<close> (\<open>group_rows_eq\<close> below), so no lookup is nil.\<close>

definition listDealerships :: "(string \<Rightarrow> nat list) \<Rightarrow> (catalog_db, http_out) prog" where
  "listDealerships collate = andthen (query DealershipsSQL (dealership_rows collate)) (\<lambda>q.
     case q of
       QueryError \<Rightarrow> Ret (cat_writeError 500 ''query dealerships'')
     | RowsThen rows ok \<Rightarrow>
         (case group_rows rows (\<lambda>_. None, []) of
            None \<Rightarrow> Ret (cat_writeError 500 ''scan dealership'')
          | Some (byID, order) \<Rightarrow>
              if \<not> ok then Ret (cat_writeError 500 ''scan dealerships'')
              else Ret (writeJSON 200 (JArray (map dealership_json (List.map_filter byID order))))))"

subsection \<open>Service types and vehicles\<close>

definition service_type_rows :: "(string \<Rightarrow> nat list) \<Rightarrow> catalog_db \<Rightarrow> service_type_row list" where
  "service_type_rows collate db = sort_key (\<lambda>s. collate (str_name s)) (cd_service_types db)"

definition scan_service_type :: "service_type_row \<Rightarrow> ServiceType" where
  "scan_service_type s = \<lparr>se_ID = str_id s, se_Name = str_name s, se_DurationMinutes = str_duration_minutes s\<rparr>"

definition listServiceTypes :: "(string \<Rightarrow> nat list) \<Rightarrow> (catalog_db, http_out) prog" where
  "listServiceTypes collate = andthen (query ServiceTypesSQL (service_type_rows collate)) (\<lambda>q.
     case q of
       QueryError \<Rightarrow> Ret (cat_writeError 500 ''query service types'')
     | RowsThen rows ok \<Rightarrow>
         if \<not> ok then Ret (cat_writeError 500 ''scan service types'')
         else Ret (writeJSON 200 (JArray (map (\<lambda>s. service_type_json (scan_service_type s)) rows))))"

definition customer_stmt :: "pg_ext \<Rightarrow> string \<Rightarrow> (catalog_db, pg_error + bool) prog" where
  "customer_stmt ext i = sql CustomerSQL (\<lambda>c db.
     (case uuid_in ext i of
        None \<Rightarrow> Inl OtherError
      | Some u \<Rightarrow> Inr (\<exists>cu \<in> set (cd_customers db). cr_id cu = u), db))"

definition vehicle_rows :: "(string \<Rightarrow> nat list) \<Rightarrow> string \<Rightarrow> catalog_db \<Rightarrow> vehicle_row list" where
  "vehicle_rows collate u db = sort_key (\<lambda>v. collate (vr_vin v)) (filter (\<lambda>v. vr_customer_id v = u) (cd_vehicles db))"

definition scan_vehicle :: "vehicle_row \<Rightarrow> Vehicle" where
  "scan_vehicle v = \<lparr>vh_ID = vr_id v, vh_CustomerID = vr_customer_id v, vh_VIN = vr_vin v\<rparr>"

definition listCustomerVehicles :: "pg_ext \<Rightarrow> (string \<Rightarrow> nat list) \<Rightarrow> string \<Rightarrow> (catalog_db, http_out) prog" where
  "listCustomerVehicles ext collate customerID = andthen (customer_stmt ext customerID) (\<lambda>exists1.
     case exists1 of
       Inl e \<Rightarrow> Ret (cat_writeError 500 ''query customer'')
     | Inr b \<Rightarrow>
         if \<not> b then Ret (cat_writeError 404 ''customer not found'')
         else (case uuid_in ext customerID of
           None \<Rightarrow> Ret (cat_writeError 500 ''query vehicles'')
         | Some u \<Rightarrow> andthen (query VehiclesSQL (vehicle_rows collate u)) (\<lambda>q.
             case q of
               QueryError \<Rightarrow> Ret (cat_writeError 500 ''query vehicles'')
             | RowsThen rows ok \<Rightarrow>
                 if \<not> ok then Ret (cat_writeError 500 ''scan vehicles'')
                 else Ret (writeJSON 200 (JArray (map (\<lambda>v. vehicle_json (scan_vehicle v)) rows))))))"

section \<open>The mux\<close>

definition catalog_handler :: "pg_ext \<Rightarrow> (string \<Rightarrow> nat list) \<Rightarrow> http_req \<Rightarrow> (catalog_db, http_out) prog" where
  "catalog_handler ext collate r =
     (let read = (\<lambda>p. if rq_method r = ''GET'' \<or> rq_method r = ''HEAD'' then on_head r p else Ret (mux_miss 405)) in
      if rq_path r = [''dealerships''] then read (listDealerships collate)
      else if rq_path r = [''service-types''] then read (listServiceTypes collate)
      else if rq_path r = [''healthz''] then read (Ret \<lparr>ho_status = 200, ho_body = TextBody ''ok''\<rparr>)
      else (case rq_path r of
              [p, i, q] \<Rightarrow>
                if p = ''customers'' \<and> i \<noteq> '''' \<and> q = ''vehicles'' then read (listCustomerVehicles ext collate i)
                else on_head r (Ret (mux_miss 404))
            | _ \<Rightarrow> on_head r (Ret (mux_miss 404))))"

section \<open>What the grouping loop builds\<close>

definition grouped :: "dealer_scan list \<Rightarrow> string \<Rightarrow> Dealership option" where
  "grouped rows i = (case filter (\<lambda>r. ds_id r = i) rows of
     [] \<Rightarrow> None
   | r # rs \<Rightarrow> Some \<lparr>de_ID = i, de_Name = ds_name r, de_Timezone = ds_timezone r,
       de_OpeningHours = map (\<lambda>(d, m, n). \<lparr>co_Weekday = d, co_OpenMinutes = m, co_CloseMinutes = n\<rparr>)
         (List.map_filter ds_hours (r # rs))\<rparr>)"

definition first_ids :: "dealer_scan list \<Rightarrow> string list" where
  "first_ids rows = rev (remdups (rev (map ds_id rows)))"

lemma first_ids_simps [simp]:
  "set (first_ids rows) = ds_id ` set rows" "distinct (first_ids rows)"
  by (auto simp: first_ids_def)

lemma first_ids_snoc:
  "first_ids (rows @ [r]) = (if ds_id r \<in> ds_id ` set rows then first_ids rows else first_ids rows @ [ds_id r])"
  by (simp add: first_ids_def)

lemma grouped_None_iff: "grouped rows i = None \<longleftrightarrow> i \<notin> ds_id ` set rows"
  by (auto simp: grouped_def filter_empty_conv split: list.split dest: filter_eq_ConsD)

lemma group_row_grouped: "group_row r (grouped rows, first_ids rows) = (grouped (rows @ [r]), first_ids (rows @ [r]))"
proof (cases "grouped rows (ds_id r)")
  case None
  then have new: "ds_id r \<notin> ds_id ` set rows" by (simp add: grouped_None_iff)
  then have "filter (\<lambda>x. ds_id x = ds_id r) rows = []" by (auto simp: filter_empty_conv image_iff)
  with None new show ?thesis
    by (auto simp: group_row_def grouped_def first_ids_snoc fun_eq_iff map_filter_simps split: option.split)
next
  case (Some d)
  then have "ds_id r \<in> ds_id ` set rows" using grouped_None_iff [of rows "ds_id r"] by auto
  moreover obtain x xs where "filter (\<lambda>x. ds_id x = ds_id r) rows = x # xs"
    using Some by (auto simp: grouped_def split: list.splits)
  ultimately show ?thesis using Some
    by (auto simp: group_row_def grouped_def first_ids_snoc fun_eq_iff map_filter_def split: option.split)
qed

lemma group_rows_from:
  "group_rows rs (grouped rows, first_ids rows) =
     (if list_all scan_ok rs then Some (grouped (rows @ rs), first_ids (rows @ rs)) else None)"
  by (induction rs arbitrary: rows) (simp_all add: group_row_grouped)

lemma group_rows_eq:
  "group_rows rows (\<lambda>_. None, []) = (if list_all scan_ok rows then Some (grouped rows, first_ids rows) else None)"
proof -
  have "grouped [] = (\<lambda>_. None)" "first_ids [] = []" by (simp_all add: grouped_def first_ids_def fun_eq_iff)
  then show ?thesis using group_rows_from [of rows "[]"] by simp
qed

section \<open>The list of dealerships\<close>

lemma sort_key_map: "sort_key f (map g xs) = map g (sort_key (\<lambda>x. f (g x)) xs)"
proof -
  have "insort_key f (g x) (map g ys) = map g (insort_key (\<lambda>x. f (g x)) x ys)" for x ys
    by (induction ys) auto
  then show ?thesis by (induction xs) simp_all
qed

lemma sort_key_cong:
  assumes "\<And>x y. f x \<le> f y \<longleftrightarrow> h x \<le> h y"
  shows "sort_key f xs = sort_key h xs"
proof -
  have "insort_key f x ys = insort_key h x ys" for x ys
    by (induction ys) (simp_all add: assms)
  then show ?thesis by (induction xs) simp_all
qed

lemma map_filter_total: "(\<And>x. x \<in> set xs \<Longrightarrow> f x \<noteq> None) \<Longrightarrow> List.map_filter f xs = map (\<lambda>x. the (f x)) xs"
  by (induction xs) (force simp: map_filter_simps split: option.split)+

text \<open>The entry a dealership should get: its own name and zone, and its hours by weekday.\<close>

definition dealership_of :: "catalog_db \<Rightarrow> dealership_row \<Rightarrow> Dealership" where
  "dealership_of db d = \<lparr>de_ID = dr_id d, de_Name = dr_name d, de_Timezone = dr_timezone d,
     de_OpeningHours = map (\<lambda>h. \<lparr>co_Weekday = hw_weekday h, co_OpenMinutes = hw_open_minutes h,
         co_CloseMinutes = hw_close_minutes h\<rparr>) (sort_key hw_weekday (dealer_hours db d))\<rparr>"

lemma joined_simps [simp]:
  "ds_id (joined d h) = dr_id d" "ds_name (joined d h) = dr_name d" "ds_timezone (joined d h) = dr_timezone d"
  "ds_hours (joined d None) = None"
  "ds_hours (joined d (Some x)) = Some (hw_weekday x, hw_open_minutes x, hw_close_minutes x)"
  by (simp_all add: joined_def)

lemma left_join_ids: "r \<in> set (left_join db d) \<Longrightarrow> \<exists>h. r = joined d h \<and> (\<forall>x. h = Some x \<longrightarrow> x \<in> set (cd_hours db))"
  by (auto simp: left_join_def dealer_hours_def split: if_splits)

lemma left_join_nonempty: "left_join db d \<noteq> []"
  by (simp add: left_join_def)

lemma rows_of_dealership:
  assumes "distinct (map dr_id ds)" and "d \<in> set ds"
  shows "filter (\<lambda>r. ds_id r = dr_id d) (concat (map (left_join db) ds)) = left_join db d"
proof -
  have own: "filter (\<lambda>r. ds_id r = dr_id d) (left_join db e) = (if dr_id e = dr_id d then left_join db e else [])" for e
    by (auto simp: filter_empty_conv intro!: filter_True dest: left_join_ids)
  have none: "concat (map (\<lambda>e. if dr_id e = dr_id d then left_join db e else []) es) = []"
    if "dr_id d \<notin> dr_id ` set es" for es
    using that by (induction es) auto
  show ?thesis
    using assms by (induction ds) (auto simp: own none filter_concat comp_def)
qed

lemma sorted_join: "sort_key (dealer_order collate) (left_join db d) =
   (if dealer_hours db d = [] then [joined d None]
    else map (\<lambda>h. joined d (Some h)) (sort_key hw_weekday (dealer_hours db d)))"
  by (auto simp: left_join_def sort_key_map intro!: arg_cong [where f = "map f" for f] sort_key_cong
      simp: dealer_order_def)

lemma grouped_dealership:
  assumes "distinct (map dr_id (cd_dealerships db))" and "d \<in> set (cd_dealerships db)"
  shows "grouped (dealership_rows collate db) (dr_id d) = Some (dealership_of db d)"
proof -
  have "filter (\<lambda>r. ds_id r = dr_id d) (dealership_rows collate db) = sort_key (dealer_order collate) (left_join db d)"
    by (simp add: dealership_rows_def filter_sort rows_of_dealership assms)
  moreover have "(case map (\<lambda>h. joined d (Some h)) hs of [] \<Rightarrow> x | r # rs \<Rightarrow> f r (r # rs)) =
      (if hs = [] then x else f (joined d (Some (hd hs))) (map (\<lambda>h. joined d (Some h)) hs))" for hs x f
    by (cases hs) simp_all
  moreover have "sort_key hw_weekday hs = [] \<longleftrightarrow> hs = []" for hs :: "hours_row list"
    by (metis length_0_conv length_sort)
  ultimately show ?thesis
    by (auto simp: grouped_def sorted_join dealership_of_def map_filter_def comp_def split: list.split)
qed

lemma first_ids_sorted:
  assumes "\<And>r. r \<in> set rows \<Longrightarrow> k (ds_id r) = f r" and "sorted (map f rows)"
  shows "sorted (map k (first_ids rows))"
  using assms
proof (induction rows rule: rev_induct)
  case (snoc r rows)
  then show ?case by (auto simp: first_ids_snoc sorted_append)
qed (simp add: first_ids_def)

lemma rows_sorted: "sorted (map (\<lambda>r. collate (ds_name r)) (dealership_rows collate db))"
proof -
  have "sorted (map (dealer_order collate) (dealership_rows collate db))"
    by (simp add: dealership_rows_def)
  then show ?thesis
    by (simp only: sorted_wrt_map sorted_map)
      (erule sorted_wrt_mono_rel [rotated], auto simp: dealer_order_def less_eq_prod_def less_le)
qed

lemma dealership_hours:
  assumes "catalog_ok db"
  shows "sorted_wrt (<) (map co_Weekday (de_OpeningHours (dealership_of db d)))"
    and "set (de_OpeningHours (dealership_of db d)) =
      (\<lambda>h. \<lparr>co_Weekday = hw_weekday h, co_OpenMinutes = hw_open_minutes h, co_CloseMinutes = hw_close_minutes h\<rparr>) `
        {h \<in> set (cd_hours db). hw_dealership_id h = dr_id d}"
proof -
  let ?hs = "sort_key hw_weekday (dealer_hours db d)"
  have pairs: "inj_on (\<lambda>h. (hw_dealership_id h, hw_weekday h)) (set (cd_hours db))" "distinct (cd_hours db)"
    using assms by (auto simp: catalog_ok_def distinct_map)
  have "inj_on hw_weekday (set ?hs)"
  proof (rule inj_onI)
    fix x y assume "x \<in> set ?hs" "y \<in> set ?hs" "hw_weekday x = hw_weekday y"
    then show "x = y"
      using inj_onD [OF pairs(1), of x y] by (simp add: dealer_hours_def)
  qed
  then have "distinct (map hw_weekday ?hs)"
    using pairs(2) by (simp add: distinct_map dealer_hours_def)
  moreover have "sorted (map hw_weekday ?hs)" by simp
  ultimately have "sorted_wrt (<) (map hw_weekday ?hs)"
    by (simp add: strict_sorted_iff)
  then show "sorted_wrt (<) (map co_Weekday (de_OpeningHours (dealership_of db d)))"
    by (simp add: dealership_of_def comp_def)
  show "set (de_OpeningHours (dealership_of db d)) =
      (\<lambda>h. \<lparr>co_Weekday = hw_weekday h, co_OpenMinutes = hw_open_minutes h, co_CloseMinutes = hw_close_minutes h\<rparr>) `
        {h \<in> set (cd_hours db). hw_dealership_id h = dr_id d}"
    by (auto simp: dealership_of_def dealer_hours_def)
qed

lemma rows_scan_ok: "catalog_ok db \<Longrightarrow> list_all scan_ok (dealership_rows collate db)"
proof -
  assume ok: "catalog_ok db"
  have "scan_ok r" if row: "r \<in> set (left_join db d)" for r d
  proof -
    obtain h where "r = joined d h" and "\<forall>x. h = Some x \<longrightarrow> x \<in> set (cd_hours db)"
      using left_join_ids [OF row] by auto
    with ok show ?thesis
      by (cases h) (auto simp: scan_ok_def catalog_ok_def list_all_iff hours_ok_def)
  qed
  then show ?thesis by (auto simp: list_all_iff dealership_rows_def)
qed

lemma row_dealership:
  assumes "r \<in> set (dealership_rows collate db)"
  obtains d where "d \<in> set (cd_dealerships db)" and "ds_id r = dr_id d" and "ds_name r = dr_name d"
  using assms left_join_ids by (fastforce simp: dealership_rows_def)

text \<open>The dealerships in the order of the first row of each.\<close>

definition listed :: "(string \<Rightarrow> nat list) \<Rightarrow> catalog_db \<Rightarrow> dealership_row list" where
  "listed collate db = List.map_filter (\<lambda>i. select_one (\<lambda>d. dr_id d = i) (cd_dealerships db))
     (first_ids (dealership_rows collate db))"

lemma listed_props:
  assumes "distinct (map dr_id (cd_dealerships db))"
  shows "map dr_id (listed collate db) = first_ids (dealership_rows collate db)"
    and "set (listed collate db) = set (cd_dealerships db)"
    and "sorted (map (\<lambda>d. collate (dr_name d)) (listed collate db))"
proof -
  let ?rows = "dealership_rows collate db" and ?find = "\<lambda>i. select_one (\<lambda>d. dr_id d = i) (cd_dealerships db)"
  have find: "d \<in> set (cd_dealerships db) \<Longrightarrow> ?find (dr_id d) = Some d" for d
    using select_key_unique [OF assms] by simp
  have some: "\<exists>d \<in> set (cd_dealerships db). ?find i = Some d \<and> dr_id d = i" if "i \<in> set (first_ids ?rows)" for i
    using that find by (auto elim!: row_dealership)
  have map: "List.map_filter ?find (first_ids ?rows) = map (\<lambda>i. the (?find i)) (first_ids ?rows)"
    by (rule map_filter_total) (use some in fastforce)
  show ids: "map dr_id (listed collate db) = first_ids ?rows"
    unfolding listed_def map using some by (force simp: comp_def intro!: map_idI)
  have mem: "d \<in> set (listed collate db)" if "d \<in> set (cd_dealerships db)" for d
  proof -
    obtain r where "r \<in> set (left_join db d)" using left_join_nonempty [of db d] by (cases "left_join db d") auto
    then have "dr_id d \<in> set (first_ids ?rows)"
      using that left_join_ids by (force simp: dealership_rows_def)
    then show ?thesis
      using find [OF that] unfolding listed_def map by force
  qed
  show "set (listed collate db) = set (cd_dealerships db)"
    using mem some unfolding listed_def map by fastforce
  have "sorted (map (\<lambda>i. collate (dr_name (the (?find i)))) (first_ids ?rows))"
    by (rule first_ids_sorted [OF _ rows_sorted]) (auto elim!: row_dealership simp: find)
  then show "sorted (map (\<lambda>d. collate (dr_name d)) (listed collate db))"
    unfolding listed_def map by (simp add: comp_def)
qed

lemma run_listDealerships:
  assumes "catalog_ok db" and "faults (cs 0) DealershipsSQL = Deliver"
  shows "run (listDealerships collate) cs db =
    (writeJSON 200 (JArray (map (\<lambda>d. dealership_json (dealership_of db d)) (listed collate db))), db)"
proof -
  have ids: "distinct (map dr_id (cd_dealerships db))" using assms(1) by (simp add: catalog_ok_def)
  have "List.map_filter (grouped (dealership_rows collate db)) (map dr_id ds) = map (dealership_of db) ds"
    if "set ds \<subseteq> set (cd_dealerships db)" for ds
    using that by (induction ds) (auto simp: map_filter_simps grouped_dealership [OF ids])
  from this [of "listed collate db"]
  have "List.map_filter (grouped (dealership_rows collate db)) (first_ids (dealership_rows collate db)) =
      map (dealership_of db) (listed collate db)"
    by (simp add: listed_props [OF ids])
  then show ?thesis
    using assms(2) by (simp add: listDealerships_def query_def group_rows_eq rows_scan_ok [OF assms(1)] comp_def)
qed

text \<open>
  C23: GET /dealerships of a healthy Catalog answers 200 with one entry per dealership, in the order
  of their names; each entry carries the dealership's name, zone and exactly its own opening hours,
  in strictly increasing weekday order, even where the join interleaves the rows of two dealerships
  of the same name.  The database is not changed.
\<close>

theorem listDealerships_complete:
  assumes "catalog_ok db" and "faults (cs 0) DealershipsSQL = Deliver"
  shows "\<exists>ds. distinct (map dr_id ds) \<and> set ds = set (cd_dealerships db) \<and>
      sorted (map (\<lambda>d. collate (dr_name d)) ds) \<and>
      run (listDealerships collate) cs db =
        (writeJSON 200 (JArray (map (\<lambda>d. dealership_json (dealership_of db d)) ds)), db) \<and>
      (\<forall>d \<in> set ds. sorted_wrt (<) (map co_Weekday (de_OpeningHours (dealership_of db d))) \<and>
         set (de_OpeningHours (dealership_of db d)) =
           (\<lambda>h. \<lparr>co_Weekday = hw_weekday h, co_OpenMinutes = hw_open_minutes h, co_CloseMinutes = hw_close_minutes h\<rparr>) `
             {h \<in> set (cd_hours db). hw_dealership_id h = dr_id d})"
proof (rule exI [of _ "listed collate db"], intro conjI ballI)
  have ids: "distinct (map dr_id (cd_dealerships db))" using assms(1) by (simp add: catalog_ok_def)
  show "distinct (map dr_id (listed collate db))" by (simp add: listed_props [OF ids])
  show "set (listed collate db) = set (cd_dealerships db)"
    "sorted (map (\<lambda>d. collate (dr_name d)) (listed collate db))" by (rule listed_props [OF ids])+
qed (rule run_listDealerships [OF assms(1), of cs, OF assms(2)] dealership_hours [OF assms(1)])+

text \<open>Two dealerships of one name, whose rows the join interleaves, and one that is always closed.\<close>

definition demo_catalog_db :: catalog_db where
  "demo_catalog_db = \<lparr>cd_dealerships = [\<lparr>dr_id = ''B'', dr_name = ''N'', dr_timezone = ''UTC''\<rparr>,
       \<lparr>dr_id = ''D'', dr_name = ''N'', dr_timezone = ''UTC''\<rparr>, \<lparr>dr_id = ''E'', dr_name = ''A'', dr_timezone = ''UTC''\<rparr>],
     cd_hours = [\<lparr>hw_dealership_id = ''D'', hw_weekday = 2, hw_open_minutes = 480, hw_close_minutes = 1080\<rparr>,
       \<lparr>hw_dealership_id = ''B'', hw_weekday = 1, hw_open_minutes = 480, hw_close_minutes = 1080\<rparr>,
       \<lparr>hw_dealership_id = ''D'', hw_weekday = 1, hw_open_minutes = 480, hw_close_minutes = 1440\<rparr>],
     cd_service_types = [\<lparr>str_id = ''S'', str_name = ''oil'', str_duration_minutes = 30\<rparr>],
     cd_customers = [\<lparr>cr_id = ''C'', cr_name = ''Ada''\<rparr>],
     cd_vehicles = [\<lparr>vr_id = ''V'', vr_customer_id = ''C'', vr_vin = ''W''\<rparr>]\<rparr>"

definition demo_collate :: "string \<Rightarrow> nat list" where
  "demo_collate s = map of_char s"

lemma demo_catalog_ok: "catalog_ok demo_catalog_db"
  by code_simp

lemma listDealerships_complete_witness:
  "\<exists>ds. distinct (map dr_id ds) \<and> set ds = set (cd_dealerships demo_catalog_db) \<and>
      sorted (map (\<lambda>d. demo_collate (dr_name d)) ds) \<and>
      run (listDealerships demo_collate) demo_cs demo_catalog_db =
        (writeJSON 200 (JArray (map (\<lambda>d. dealership_json (dealership_of demo_catalog_db d)) ds)), demo_catalog_db)"
proof -
  have "faults (demo_cs 0) DealershipsSQL = Deliver" by (simp add: demo_cs_def demo_choice_def)
  from listDealerships_complete [OF demo_catalog_ok, of demo_cs, OF this, of demo_collate] show ?thesis by blast
qed

end
