(* ===== verification/CatalogAnswers.thy ===== *)
theory CatalogAnswers
  imports Catalog
begin

text \<open>
  What Booking learns from the Catalog: the JSON the Catalog writes, decoded by Booking's client,
  gives back the rows of the Catalog's tables, so that a Snapshot taken over three HTTP answers is
  the snapshot a direct query of the database would give.
\<close>

section \<open>What one side writes the other reads\<close>

lemma fold_names:
  "fold_name ''id'' = ''id''" "fold_name ''name'' = ''name''" "fold_name ''timezone'' = ''timezone''"
  "fold_name ''openingHours'' = ''openinghours''" "fold_name ''weekday'' = ''weekday''"
  "fold_name ''openMinutes'' = ''openminutes''" "fold_name ''closeMinutes'' = ''closeminutes''"
  "fold_name ''durationMinutes'' = ''durationminutes''" "fold_name ''customerId'' = ''customerid''"
  "fold_name ''vin'' = ''vin''"
  by code_simp+

lemma decode_all_map:
  "(\<And>x. x \<in> set xs \<Longrightarrow> dec (enc x) = Some (f x)) \<Longrightarrow> decode_all dec (map enc xs) = Some (map f xs)"
  by (induction xs) simp_all

definition client_hours :: "CatOpeningHours \<Rightarrow> OpeningHours" where
  "client_hours h = \<lparr>oh_Weekday = co_Weekday h, oh_OpenMinutes = co_OpenMinutes h, oh_CloseMinutes = co_CloseMinutes h\<rparr>"

definition in_int64 :: "int \<Rightarrow> bool" where
  "in_int64 n \<longleftrightarrow> - (2 ^ 63) \<le> n \<and> n < 2 ^ 63"

lemma decode_hours_json:
  assumes "in_int64 (co_Weekday h)" "in_int64 (co_OpenMinutes h)" "in_int64 (co_CloseMinutes h)"
  shows "decode_hours (hours_json h) = Some (client_hours h)"
  using assms by (simp add: decode_hours_def hours_json_def field_values_def fold_names client_hours_def in_int64_def)

lemma decode_dealership_json:
  assumes "\<And>h. h \<in> set (de_OpeningHours d) \<Longrightarrow> decode_hours (hours_json h) = Some (client_hours h)"
  shows "decode_dealership (dealership_json d) = Some \<lparr>dd_ID = de_ID d, dd_Name = de_Name d,
    dd_Timezone = de_Timezone d, dd_OpeningHours = map client_hours (de_OpeningHours d)\<rparr>"
  using decode_all_map [of "de_OpeningHours d" decode_hours hours_json client_hours, OF assms]
  by (simp add: decode_dealership_def dealership_json_def field_values_def fold_names omitempty_def)

lemma decode_service_type_json: "decode_service_type (service_type_json s) = Some \<lparr>sd_ID = se_ID s\<rparr>"
  by (simp add: decode_service_type_def service_type_json_def field_values_def fold_names omitempty_def)

lemma decode_vehicle_json: "decode_vehicle (vehicle_json v) = Some \<lparr>vd_ID = vh_ID v, vd_CustomerID = vh_CustomerID v\<rparr>"
  by (simp add: decode_vehicle_def vehicle_json_def field_values_def fold_names)

lemma hours_map_distinct:
  assumes "distinct (map oh_Weekday hs)"
  shows "hours_map hs w = select_one (\<lambda>h. oh_Weekday h = w) hs"
proof -
  have "foldl (\<lambda>m h. m(oh_Weekday h := Some h)) m hs w =
      (case select_one (\<lambda>h. oh_Weekday h = w) hs of None \<Rightarrow> m w | Some h \<Rightarrow> Some h)" for m
    using assms
    by (induction hs arbitrary: m) (auto split: option.split simp: select_one_None_iff image_iff dest!: select_one_Some)
  then show ?thesis by (simp add: hours_map_def split: option.split)
qed

lemma select_one_map: "select_one P (map f xs) = map_option f (select_one (\<lambda>x. P (f x)) xs)"
  by (induction xs) simp_all

lemma select_unique_cong:
  assumes "\<And>x y. x \<in> set xs \<Longrightarrow> y \<in> set xs \<Longrightarrow> P x \<Longrightarrow> P y \<Longrightarrow> x = y"
    and "\<And>x. x \<in> set xs \<and> P x \<longleftrightarrow> x \<in> set ys \<and> Q x"
  shows "select_one P xs = select_one Q ys"
proof (cases "select_one Q ys")
  case None
  then have "select_one P xs = None" using assms(2) by (auto simp: select_one_None_iff)
  with None show ?thesis by simp
next
  case (Some y)
  then have y: "y \<in> set xs" "P y" using assms(2) select_one_Some by metis+
  then obtain x where x: "select_one P xs = Some x" using select_one_None_iff [of P xs] by fastforce
  then have "x = y" using assms(1) [of x y] y select_one_Some by metis
  with x Some show ?thesis by simp
qed

lemma client_snapshot_hours:
  assumes "catalog_ok db"
  shows "hours_map (map client_hours (de_OpeningHours (dealership_of db d))) w =
    map_option (\<lambda>h. \<lparr>oh_Weekday = hw_weekday h, oh_OpenMinutes = hw_open_minutes h, oh_CloseMinutes = hw_close_minutes h\<rparr>)
      (select_one (\<lambda>h. hw_dealership_id h = dr_id d \<and> hw_weekday h = w) (cd_hours db))"
proof -
  let ?hs = "sort_key hw_weekday (dealer_hours db d)"
  have pairs: "inj_on (\<lambda>h. (hw_dealership_id h, hw_weekday h)) (set (cd_hours db))"
    using assms by (simp add: catalog_ok_def distinct_map)
  have "distinct (map co_Weekday (de_OpeningHours (dealership_of db d)))"
    using dealership_hours(1) [OF assms] strict_sorted_iff by blast
  then have "distinct (map oh_Weekday (map client_hours (de_OpeningHours (dealership_of db d))))"
    by (simp add: client_hours_def comp_def)
  moreover have "select_one (\<lambda>h. hw_weekday h = w) ?hs =
      select_one (\<lambda>h. hw_dealership_id h = dr_id d \<and> hw_weekday h = w) (cd_hours db)"
    by (rule select_unique_cong) (use pairs in \<open>auto simp: dealer_hours_def inj_on_def\<close>)
  ultimately show ?thesis
    by (simp add: hours_map_distinct dealership_of_def select_one_map client_hours_def comp_def
        option.map_comp)
qed

section \<open>The snapshot\<close>

text \<open>
  A reply that carries a handler's output: its status and, when the output is JSON, a body that is a
  text of that value however it arrives.
\<close>

definition carries :: "go_ext \<Rightarrow> http_out \<Rightarrow> http_resp option \<Rightarrow> bool" where
  "carries go out reply \<longleftrightarrow> (\<exists>resp. reply = Some resp \<and> hr_status resp = int (ho_status out) \<and>
     (\<forall>v. ho_body out = JsonBody v \<longrightarrow> json_text go (read_body (hr_reads resp)) = Some v \<and>
        json_prefix go (stream_text (hr_reads resp)) = Some v))"

definition catalog_serves ::
  "pg_ext \<Rightarrow> (string \<Rightarrow> nat list) \<Rightarrow> go_ext \<Rightarrow> catalog_db \<Rightarrow> string list \<Rightarrow> http_resp option \<Rightarrow> bool" where
  "catalog_serves ext collate go db path reply \<longleftrightarrow> (\<exists>cs. (\<forall>n. faults (cs n) = (\<lambda>_. Deliver)) \<and>
     carries go (fst (run (catalog_handler ext collate
       \<lparr>rq_method = ''GET'', rq_path = path, rq_header = [], rq_body = ''''\<rparr>) cs db)) reply)"

lemma carries_json:
  "carries go (writeJSON n v) reply \<longleftrightarrow> (\<exists>resp. reply = Some resp \<and> hr_status resp = int n \<and>
     json_text go (read_body (hr_reads resp)) = Some v \<and> json_prefix go (stream_text (hr_reads resp)) = Some v)"
  by (simp add: carries_def writeJSON_def)

lemma served_dealerships:
  assumes "catalog_ok db" and "catalog_serves ext collate go db [''dealerships''] reply"
  obtains resp ds where "reply = Some resp" and "hr_status resp = 200" and "set ds = set (cd_dealerships db)"
    and "distinct (map dr_id ds)"
    and "decode_body (json_text go) decode_dealership (read_body (hr_reads resp)) = Some (map (\<lambda>d.
      \<lparr>dd_ID = dr_id d, dd_Name = dr_name d, dd_Timezone = dr_timezone d,
       dd_OpeningHours = map client_hours (de_OpeningHours (dealership_of db d))\<rparr>) ds)"
proof -
  obtain cs where cs: "\<forall>n. faults (cs n) = (\<lambda>_. Deliver)"
    and c: "carries go (fst (run (listDealerships collate) cs db)) reply"
    using assms(2) by (auto simp: catalog_serves_def catalog_handler_def on_head_def)
  have ids: "distinct (map dr_id (cd_dealerships db))" using assms(1) by (simp add: catalog_ok_def)
  have "faults (cs 0) DealershipsSQL = Deliver" using cs by simp
  then have "carries go (writeJSON 200 (JArray (map (\<lambda>d. dealership_json (dealership_of db d)) (listed collate db)))) reply"
    using c run_listDealerships [OF assms(1)] by simp
  note c = this
  have "decode_hours (hours_json h) = Some (client_hours h)" if "h \<in> set (de_OpeningHours (dealership_of db d))" for h d
  proof (rule decode_hours_json)
    have "\<exists>r \<in> set (cd_hours db). h = \<lparr>co_Weekday = hw_weekday r, co_OpenMinutes = hw_open_minutes r,
        co_CloseMinutes = hw_close_minutes r\<rparr>"
      using that dealership_hours(2) [OF assms(1), of d] by auto
    with assms(1) show "in_int64 (co_Weekday h)" "in_int64 (co_OpenMinutes h)" "in_int64 (co_CloseMinutes h)"
      by (auto simp: catalog_ok_def list_all_iff hours_ok_def in_int64_def)
  qed
  then have "decode_dealership (dealership_json (dealership_of db d)) = Some
      \<lparr>dd_ID = dr_id d, dd_Name = dr_name d, dd_Timezone = dr_timezone d,
       dd_OpeningHours = map client_hours (de_OpeningHours (dealership_of db d))\<rparr>" for d
    using decode_dealership_json [of "dealership_of db d"] by (simp add: dealership_of_def)
  then have "decode_all decode_dealership (map (\<lambda>d. dealership_json (dealership_of db d)) ds) = Some (map (\<lambda>d.
      \<lparr>dd_ID = dr_id d, dd_Name = dr_name d, dd_Timezone = dr_timezone d,
       dd_OpeningHours = map client_hours (de_OpeningHours (dealership_of db d))\<rparr>) ds)"
    for ds by (rule decode_all_map)
  with c show ?thesis
    by (auto simp: carries_json decode_body_def listed_props [OF ids] intro!: that [of _ "listed collate db"])
qed

lemma served_service_types:
  assumes "catalog_serves ext collate go db [''service-types''] reply"
  obtains resp types where "reply = Some resp" and "hr_status resp = 200"
    and "decode_body (json_text go) decode_service_type (read_body (hr_reads resp)) = Some types"
    and "\<forall>i. (\<exists>st \<in> set types. sd_ID st = i) \<longleftrightarrow> i \<in> set (map str_id (cd_service_types db))"
proof -
  let ?rows = "service_type_rows collate db"
  obtain resp where r: "reply = Some resp" "hr_status resp = 200"
    "json_text go (read_body (hr_reads resp)) = Some (JArray (map (\<lambda>s. service_type_json (scan_service_type s)) ?rows))"
    using assms by (auto simp: catalog_serves_def catalog_handler_def on_head_def listServiceTypes_def query_def
        carries_json)
  have "decode_all decode_service_type (map (\<lambda>s. service_type_json (scan_service_type s)) ?rows) =
      Some (map (\<lambda>s. \<lparr>sd_ID = str_id s\<rparr>) ?rows)"
    by (rule decode_all_map) (simp add: decode_service_type_json scan_service_type_def)
  with r show ?thesis
    by (intro that [of resp]) (auto simp: decode_body_def service_type_rows_def)
qed

lemma served_vehicles:
  assumes "catalog_serves ext collate go db [''customers'', i, ''vehicles''] reply" and "i \<noteq> ''''" and "catalog_ok db"
  shows "snapshot_vehicle go snap v reply =
    (case uuid_in ext i of
       None \<Rightarrow> Inl errCatalogDown
     | Some u \<Rightarrow>
         if \<exists>r \<in> set (cd_vehicles db). vr_id r = v \<and> vr_customer_id r = u
         then Inr (snap\<lparr>sn_VehicleBelongs := True\<rparr>) else Inl errCatalogNotFound)"
proof -
  obtain cs where cs: "\<forall>n. faults (cs n) = (\<lambda>_. Deliver)"
    and c: "carries go (fst (run (listCustomerVehicles ext collate i) cs db)) reply"
    using assms(1,2) by (auto simp: catalog_serves_def catalog_handler_def on_head_def)
  show ?thesis
  proof (cases "\<exists>u. uuid_in ext i = Some u \<and> u \<in> set (map cr_id (cd_customers db))")
    case True
    then obtain u where u: "uuid_in ext i = Some u" "u \<in> set (map cr_id (cd_customers db))" by auto
    then have ex: "\<exists>cu \<in> set (cd_customers db). cr_id cu = u" by auto
    let ?rows = "vehicle_rows collate u db"
    have "decode_all decode_vehicle (map (\<lambda>v. vehicle_json (scan_vehicle v)) ?rows) =
        Some (map (\<lambda>r. \<lparr>vd_ID = vr_id r, vd_CustomerID = vr_customer_id r\<rparr>) ?rows)"
      by (rule decode_all_map) (simp add: decode_vehicle_json scan_vehicle_def)
    moreover have "carries go (writeJSON 200 (JArray (map (\<lambda>v. vehicle_json (scan_vehicle v)) ?rows))) reply"
      using c cs u(1) ex by (auto simp: listCustomerVehicles_def customer_stmt_def sql_def query_def split: if_splits)
    ultimately show ?thesis
      using u by (auto simp: carries_json snapshot_vehicle_def decode_body_def vehicle_rows_def)
  next
    case False
    have no: "\<not> (\<exists>r \<in> set (cd_vehicles db). vr_id r = v \<and> vr_customer_id r = u)" if "uuid_in ext i = Some u" for u
      using False that assms(3) by (auto simp: catalog_ok_def list_all_iff)
    obtain m where "carries go (cat_writeError (if uuid_in ext i = None then 500 else 404) m) reply"
      using c cs False
      by (auto simp: listCustomerVehicles_def customer_stmt_def sql_def image_iff split: option.splits if_splits)
    with no show ?thesis
      by (auto simp: cat_writeError_def carries_json snapshot_vehicle_def split: option.split if_splits)
  qed
qed

text \<open>
  C10: End to end with the Catalog: when Booking's three GETs are answered by the Catalog's own
  handlers on a well-formed database, the Snapshot is exactly the query of that database - the
  dealership's zone, its opening hours of every weekday, and found only if the dealership and the
  service type exist and the vehicle belongs to the customer; a customer id that is not a uuid
  makes the Catalog unavailable, anything else missing is not found.
\<close>

theorem snapshot_reads_catalog:
  assumes "catalog_ok db" and "customerID \<noteq> ''''"
    and "catalog_serves ext collate go db [''dealerships''] (catalog_reply (cs 0) ''/dealerships'')"
    and "catalog_serves ext collate go db [''service-types''] (catalog_reply (cs 1) ''/service-types'')"
    and "catalog_serves ext collate go db [''customers'', customerID, ''vehicles'']
      (catalog_reply (cs 2) (vehicles_path customerID))"
  shows "run (take_snapshot go dealershipID serviceTypeID customerID vehicleID) cs w =
    (case select_one (\<lambda>d. dr_id d = dealershipID) (cd_dealerships db) of
       None \<Rightarrow> Inl errCatalogNotFound
     | Some d \<Rightarrow>
         if serviceTypeID \<notin> set (map str_id (cd_service_types db)) then Inl errCatalogNotFound
         else (case uuid_in ext customerID of
             None \<Rightarrow> Inl errCatalogDown
           | Some u \<Rightarrow>
               if \<exists>v \<in> set (cd_vehicles db). vr_id v = vehicleID \<and> vr_customer_id v = u
               then Inr \<lparr>sn_DealershipID = dealershipID, sn_Timezone = dr_timezone d,
                 sn_OpeningHours = (\<lambda>weekday. map_option (\<lambda>h. \<lparr>oh_Weekday = hw_weekday h,
                     oh_OpenMinutes = hw_open_minutes h, oh_CloseMinutes = hw_close_minutes h\<rparr>)
                   (select_one (\<lambda>h. hw_dealership_id h = dealershipID \<and> hw_weekday h = weekday) (cd_hours db))),
                 sn_ServiceTypeOK = True, sn_VehicleBelongs = True\<rparr>
               else Inl errCatalogNotFound), w)"
proof -
  obtain r1 ds where r1: "catalog_reply (cs 0) ''/dealerships'' = Some r1" "hr_status r1 = 200"
    and ds: "set ds = set (cd_dealerships db)" "distinct (map dr_id ds)"
    and dec1: "decode_body (json_text go) decode_dealership (read_body (hr_reads r1)) = Some (map (\<lambda>d.
      \<lparr>dd_ID = dr_id d, dd_Name = dr_name d, dd_Timezone = dr_timezone d,
       dd_OpeningHours = map client_hours (de_OpeningHours (dealership_of db d))\<rparr>) ds)"
    by (rule served_dealerships [OF assms(1,3)])
  obtain r2 types where r2: "catalog_reply (cs 1) ''/service-types'' = Some r2" "hr_status r2 = 200"
    and dec2: "decode_body (json_text go) decode_service_type (read_body (hr_reads r2)) = Some types"
    and types: "\<forall>i. (\<exists>st \<in> set types. sd_ID st = i) \<longleftrightarrow> i \<in> set (map str_id (cd_service_types db))"
    by (rule served_service_types [OF assms(4)])
  have pick: "select_one (\<lambda>d. dr_id d = dealershipID) ds = select_one (\<lambda>d. dr_id d = dealershipID) (cd_dealerships db)"
    by (rule select_unique_cong) (use ds distinct_key_eq [OF ds(2)] in auto)
  have hours: "hours_map (map client_hours (de_OpeningHours (dealership_of db d))) = (\<lambda>weekday.
      map_option (\<lambda>h. \<lparr>oh_Weekday = hw_weekday h, oh_OpenMinutes = hw_open_minutes h, oh_CloseMinutes = hw_close_minutes h\<rparr>)
        (select_one (\<lambda>h. hw_dealership_id h = dr_id d \<and> hw_weekday h = weekday) (cd_hours db)))" for d
    by (rule ext) (rule client_snapshot_hours [OF assms(1)])
  show ?thesis
  proof (cases "select_one (\<lambda>d. dr_id d = dealershipID) (cd_dealerships db)")
    case None
    then show ?thesis
      using r1 dec1 by (simp add: take_snapshot_def dealer_snapshot_def select_one_map pick)
  next
    case (Some d)
    then have d: "dr_id d = dealershipID" by (rule select_one_Some [THEN conjunct2])
    note veh = served_vehicles [OF assms(5,2,1), unfolded numeral_2_eq_2]
    have snap: "dealer_snapshot dealershipID (map (\<lambda>d. \<lparr>dd_ID = dr_id d, dd_Name = dr_name d,
        dd_Timezone = dr_timezone d, dd_OpeningHours = map client_hours (de_OpeningHours (dealership_of db d))\<rparr>) ds) =
      Some \<lparr>sn_DealershipID = dealershipID, sn_Timezone = dr_timezone d,
        sn_OpeningHours = hours_map (map client_hours (de_OpeningHours (dealership_of db d))),
        sn_ServiceTypeOK = False, sn_VehicleBelongs = False\<rparr>"
      unfolding dealer_snapshot_def select_one_map dealershipDTO.simps pick Some by (simp add: d)
    show ?thesis
      by (simp add: take_snapshot_def catalog_do_def r1 r2 [unfolded One_nat_def] dec1 dec2 types veh snap Some hours d split: option.split) blast
  qed
qed

text \<open>A healthy exchange: the three bodies are the texts \<open>1\<close>, \<open>2\<close> and \<open>3\<close>.\<close>

definition demo_body :: "string list \<Rightarrow> json" where
  "demo_body path = (case ho_body (fst (run (catalog_handler demo_ext demo_collate
     \<lparr>rq_method = ''GET'', rq_path = path, rq_header = [], rq_body = ''''\<rparr>) demo_cs demo_catalog_db)) of
       JsonBody v \<Rightarrow> v | _ \<Rightarrow> JNull)"

definition demo_texts :: "string \<Rightarrow> json option" where
  "demo_texts s = (if s = ''1'' then Some (demo_body [''dealerships''])
     else if s = ''2'' then Some (demo_body [''service-types''])
     else if s = ''3'' then Some (demo_body [''customers'', ''C'', ''vehicles'']) else None)"

definition demo_codec :: go_ext where
  "demo_codec = demo_go\<lparr>json_text := demo_texts, json_prefix := demo_texts\<rparr>"

definition demo_answers :: "nat \<Rightarrow> choice" where
  "demo_answers n = (demo_cs n)\<lparr>catalog_reply := (\<lambda>p. Some \<lparr>hr_status = 200,
     hr_reads = [(if p = ''/dealerships'' then ''1'' else if p = ''/service-types'' then ''2'' else ''3'', True)]\<rparr>)\<rparr>"

lemma demo_serves:
  assumes "hr_reads resp = [(s, True)]" and "hr_status resp = 200" and "demo_texts s = Some (demo_body path)"
    and "path \<in> {[''dealerships''], [''service-types''], [''customers'', ''C'', ''vehicles'']}"
  shows "catalog_serves demo_ext demo_collate demo_codec demo_catalog_db path (Some resp)"
proof -
  have "ho_status (fst (run (catalog_handler demo_ext demo_collate
     \<lparr>rq_method = ''GET'', rq_path = path, rq_header = [], rq_body = ''''\<rparr>) demo_cs demo_catalog_db)) = 200"
    using assms(4) by (elim insertE emptyE; hypsubst) code_simp+
  moreover have "\<forall>n. faults (demo_cs n) = (\<lambda>_. Deliver)" by (simp add: demo_cs_def demo_choice_def)
  ultimately show ?thesis
    unfolding catalog_serves_def carries_def
    by (intro exI [of _ demo_cs] conjI exI [of _ resp])
      (use assms(1-3) in \<open>auto simp: demo_codec_def demo_body_def\<close>)
qed

lemma snapshot_reads_catalog_witness:
  "run (take_snapshot demo_codec ''D'' ''S'' ''C'' ''V'') demo_answers () =
     (Inr \<lparr>sn_DealershipID = ''D'', sn_Timezone = ''UTC'',
        sn_OpeningHours = (\<lambda>weekday. map_option (\<lambda>h. \<lparr>oh_Weekday = hw_weekday h,
            oh_OpenMinutes = hw_open_minutes h, oh_CloseMinutes = hw_close_minutes h\<rparr>)
          (select_one (\<lambda>h. hw_dealership_id h = ''D'' \<and> hw_weekday h = weekday) (cd_hours demo_catalog_db))),
        sn_ServiceTypeOK = True, sn_VehicleBelongs = True\<rparr>, ())"
proof -
  have reply: "catalog_reply (demo_answers n) p = Some \<lparr>hr_status = 200,
      hr_reads = [(if p = ''/dealerships'' then ''1'' else if p = ''/service-types'' then ''2'' else ''3'', True)]\<rparr>" for n p
    by (simp add: demo_answers_def)
  have served:
    "catalog_serves demo_ext demo_collate demo_codec demo_catalog_db [''dealerships''] (catalog_reply (demo_answers 0) ''/dealerships'')"
    "catalog_serves demo_ext demo_collate demo_codec demo_catalog_db [''service-types''] (catalog_reply (demo_answers 1) ''/service-types'')"
    "catalog_serves demo_ext demo_collate demo_codec demo_catalog_db [''customers'', ''C'', ''vehicles'']
       (catalog_reply (demo_answers 2) (vehicles_path ''C''))"
    unfolding reply
    by (rule demo_serves [of _ "''1''"] demo_serves [of _ "''2''"] demo_serves [of _ "''3''"];
        simp add: demo_texts_def vehicles_path_def; fail)+
  have pick: "select_one (\<lambda>d. dr_id d = ''D'') (cd_dealerships demo_catalog_db) =
      Some \<lparr>dr_id = ''D'', dr_name = ''N'', dr_timezone = ''UTC''\<rparr>"
    "''S'' \<in> str_id ` set (cd_service_types demo_catalog_db)" "uuid_in demo_ext ''C'' = Some ''C''"
    "\<exists>v \<in> set (cd_vehicles demo_catalog_db). vr_id v = ''V'' \<and> vr_customer_id v = ''C''"
    by code_simp+
  show ?thesis
    by (subst snapshot_reads_catalog [where db = demo_catalog_db and ext = demo_ext and collate = demo_collate,
        OF demo_catalog_ok _ served]) (simp_all add: pick)
qed

end
