(* ===== verification/Gateway.thy ===== *)
theory Gateway
  imports System CatalogAnswers
begin

text \<open>
  The Gateway (\<open>services/gateway/main.go\<close>): CORS around a mux of method-specific routes, each of
  which forwards the request to the Catalog or to Booking through \<open>httputil.ReverseProxy\<close>.  Of a
  response the model keeps status and body, and the headers the Gateway itself sets.
\<close>

section \<open>Headers\<close>

definition header_set :: "string \<Rightarrow> string \<Rightarrow> (string \<times> string) list \<Rightarrow> (string \<times> string) list" where
  "header_set name v hs = filter (\<lambda>h. fst h \<noteq> name) hs @ [(name, v)]"

definition header_del :: "string \<Rightarrow> (string \<times> string) list \<Rightarrow> (string \<times> string) list" where
  "header_del name hs = filter (\<lambda>h. fst h \<noteq> name) hs"

definition header_values :: "string \<Rightarrow> (string \<times> string) list \<Rightarrow> string list" where
  "header_values name hs = map snd (filter (\<lambda>h. fst h = name) hs)"

lemma header_get_filter: "(\<And>v. P (name, v)) \<Longrightarrow> header_get name (filter P hs) = header_get name hs"
  by (induction hs) auto

lemma header_get_append: "name \<notin> fst ` set hs \<Longrightarrow> header_get name (hs @ hs') = header_get name hs'"
  by (induction hs) auto

lemma header_get_set [simp]: "header_get name (header_set key v hs) = (if name = key then v else header_get name hs)"
proof (cases "name = key")
  case True
  have "key \<notin> fst ` set (filter (\<lambda>h. fst h \<noteq> key) hs)" by auto
  with True show ?thesis by (simp add: header_set_def header_get_append)
next
  case False
  have "header_get name (hs @ [(key, v)]) = header_get name hs" for hs
    using False by (induction hs) auto
  with False show ?thesis by (simp add: header_set_def header_get_filter)
qed

lemma header_get_del: "name \<noteq> key \<Longrightarrow> header_get name (header_del key hs) = header_get name hs"
  by (simp add: header_del_def header_get_filter)

section \<open>Forwarding\<close>

text \<open>\<open>newRequestID\<close>: 16 random bytes in the 8-4-4-4-12 form, no version bits.\<close>

definition newRequestID :: "(nat \<Rightarrow> 8 word) \<Rightarrow> string" where
  "newRequestID b = (let hex = (\<lambda>i j. hex_encode (map (\<lambda>k. byte_char (b k)) [i..<j])) in
     hex 0 4 @ ''-'' @ hex 4 6 @ ''-'' @ hex 6 8 @ ''-'' @ hex 8 10 @ ''-'' @ hex 10 16)"

text \<open>\<open>dst\<close> is returned with its new headers; the routes call it with the request as both.\<close>

definition forwardHeaders :: "http_req \<Rightarrow> http_req \<Rightarrow> ('w, http_req) prog" where
  "forwardHeaders src dst =
     (let v = header_get ''Idempotency-Key'' (rq_header src);
          dst = (if v \<noteq> '''' then dst\<lparr>rq_header := header_set ''Idempotency-Key'' v (rq_header dst)\<rparr> else dst);
          reqID = header_get ''X-Request-Id'' (rq_header src)
      in andthen (if reqID = '''' then atomic (\<lambda>c w. (newRequestID (entropy c), w)) else Ret reqID) (\<lambda>reqID.
        Ret (dst\<lparr>rq_header := header_set ''X-Request-Id'' reqID (rq_header dst)\<rparr>)))"

subsection \<open>The reverse proxy\<close>

text \<open>
  \<open>httputil.ReverseProxy\<close> with the target URLs the Gateway defaults to, which have no path: method,
  path and body pass; the headers the client names in \<open>Connection\<close> and the hop-by-hop headers are
  removed, \<open>X-Forwarded-For\<close> gets the client's address; a failed round trip is 502.
\<close>

fun split_on :: "char \<Rightarrow> string \<Rightarrow> string list" where
  "split_on d [] = [[]]"
| "split_on d (c # s) = (if c = d then [] # split_on d s
     else (case split_on d s of [] \<Rightarrow> [[c]] | x # xs \<Rightarrow> (c # x) # xs))"

definition is_space :: "char \<Rightarrow> bool" where
  "is_space c \<longleftrightarrow> of_char c \<in> {32, 9, 10, 13 :: nat}"

definition trim_string :: "string \<Rightarrow> string" where
  "trim_string s = rev (dropWhile is_space (rev (dropWhile is_space s)))"

definition is_lower :: "char \<Rightarrow> bool" where
  "is_lower c \<longleftrightarrow> 97 \<le> (of_char c :: nat) \<and> (of_char c :: nat) \<le> 122"

definition is_upper :: "char \<Rightarrow> bool" where
  "is_upper c \<longleftrightarrow> 65 \<le> (of_char c :: nat) \<and> (of_char c :: nat) \<le> 90"

definition field_byte :: "char \<Rightarrow> bool" where
  "field_byte c \<longleftrightarrow> is_lower c \<or> is_upper c \<or> (48 \<le> (of_char c :: nat) \<and> (of_char c :: nat) \<le> 57) \<or>
     of_char c \<in> {33, 35, 36, 37, 38, 39, 42, 43, 45, 46, 94, 95, 96, 124, 126 :: nat}"

fun canonical_case :: "bool \<Rightarrow> string \<Rightarrow> string" where
  "canonical_case upper [] = []"
| "canonical_case upper (c # s) =
     (if upper \<and> is_lower c then char_of ((of_char c :: nat) - 32)
      else if \<not> upper \<and> is_upper c then char_of ((of_char c :: nat) + 32) else c) # canonical_case (c = CHR ''-'') s"

definition canonical_key :: "string \<Rightarrow> string" where
  "canonical_key s = (if list_all field_byte s then canonical_case True s else s)"

definition connection_options :: "(string \<times> string) list \<Rightarrow> string list" where
  "connection_options hs = map canonical_key (filter (\<lambda>t. t \<noteq> '''')
     (map trim_string (concat (map (split_on CHR '','') (header_values ''Connection'' hs)))))"

definition hop_headers :: "string list" where
  "hop_headers = [''Connection'', ''Proxy-Connection'', ''Keep-Alive'', ''Proxy-Authenticate'',
     ''Proxy-Authorization'', ''Te'', ''Trailer'', ''Transfer-Encoding'', ''Upgrade'']"

definition removeHopByHop :: "(string \<times> string) list \<Rightarrow> (string \<times> string) list" where
  "removeHopByHop hs = fold header_del (connection_options hs @ hop_headers) hs"

fun join_comma :: "string list \<Rightarrow> string" where
  "join_comma [] = ''''"
| "join_comma [x] = x"
| "join_comma (x # xs) = x @ '', '' @ join_comma xs"

definition forwarded_for :: "string \<Rightarrow> (string \<times> string) list \<Rightarrow> (string \<times> string) list" where
  "forwarded_for ip hs =
     header_set ''X-Forwarded-For'' (join_comma (header_values ''X-Forwarded-For'' hs @ [ip])) hs"

definition outbound :: "string \<Rightarrow> http_req \<Rightarrow> http_req" where
  "outbound ip r = r\<lparr>rq_header := forwarded_for ip (removeHopByHop (rq_header r))\<rparr>"

definition bad_gateway :: http_out where
  "bad_gateway = \<lparr>ho_status = 502, ho_body = NoBody\<rparr>"

definition ReverseProxy :: "call \<Rightarrow> string \<Rightarrow> (http_req \<Rightarrow> ('w, http_out) prog) \<Rightarrow> http_req \<Rightarrow> ('w, http_out) prog" where
  "ReverseProxy hop ip backend r = andthen (atomic (\<lambda>c w. (faults c hop, w))) (\<lambda>f.
     case f of
       Deliver \<Rightarrow> backend (outbound ip r)
     | LoseRequest \<Rightarrow> Ret bad_gateway
     | LoseReply \<Rightarrow> andthen (backend (outbound ip r)) (\<lambda>_. Ret bad_gateway))"

section \<open>Routes\<close>

text \<open>The state behind the edge: Booking with its allocators, and the Catalog.\<close>

record edge =
  ed_booking :: world
  ed_catalog :: catalog_db

definition set_ed_booking :: "world \<Rightarrow> edge \<Rightarrow> edge" where
  "set_ed_booking w e = e\<lparr>ed_booking := w\<rparr>"

definition set_ed_catalog :: "catalog_db \<Rightarrow> edge \<Rightarrow> edge" where
  "set_ed_catalog db e = e\<lparr>ed_catalog := db\<rparr>"

abbreviation on_booking :: "(world, 'a) prog \<Rightarrow> (edge, 'a) prog" where
  "on_booking p \<equiv> zoom p ed_booking set_ed_booking"

abbreviation on_catalog :: "(catalog_db, 'a) prog \<Rightarrow> (edge, 'a) prog" where
  "on_catalog p \<equiv> zoom p ed_catalog set_ed_catalog"

definition catalogRoute :: "pg_ext \<Rightarrow> (string \<Rightarrow> nat list) \<Rightarrow> string \<Rightarrow> http_req \<Rightarrow> (edge, http_out) prog" where
  "catalogRoute ext collate ip r = andthen (forwardHeaders r r)
     (ReverseProxy CatalogHop ip (\<lambda>r. on_catalog (catalog_handler ext collate r)))"

definition bookingRoute :: "pg_ext \<Rightarrow> go_ext \<Rightarrow> string \<Rightarrow> http_req \<Rightarrow> (edge, http_out) prog" where
  "bookingRoute ext go ip r = andthen (forwardHeaders r r)
     (ReverseProxy BookingHop ip (\<lambda>r. on_booking (booking_handler ext go r)))"

definition newMux :: "pg_ext \<Rightarrow> (string \<Rightarrow> nat list) \<Rightarrow> go_ext \<Rightarrow> string \<Rightarrow> http_req \<Rightarrow> (edge, http_out) prog" where
  "newMux ext collate go ip r =
     (let get = rq_method r = ''GET'' \<or> rq_method r = ''HEAD'';
          miss = on_head r (Ret (mux_miss 404));
          wrong_method = on_head r (Ret (mux_miss 405)) in
      if rq_path r = [''dealerships''] \<or> rq_path r = [''service-types'']
      then if get then catalogRoute ext collate ip r else wrong_method
      else if rq_path r = [''holds''] \<or> rq_path r = [''appointments'']
      then if rq_method r = ''POST'' then bookingRoute ext go ip r else wrong_method
      else if rq_path r = [''healthz'']
      then if get then on_head r (Ret \<lparr>ho_status = 200, ho_body = TextBody ''ok''\<rparr>) else wrong_method
      else (case rq_path r of
              [p, i] \<Rightarrow>
                if p = ''appointments'' \<and> i \<noteq> ''''
                then if get \<or> rq_method r = ''DELETE'' then bookingRoute ext go ip r else wrong_method
                else miss
            | [p, i, q] \<Rightarrow>
                if p = ''customers'' \<and> i \<noteq> '''' \<and> q = ''vehicles''
                then if get then catalogRoute ext collate ip r else wrong_method
                else miss
            | _ \<Rightarrow> miss))"

record edge_out =
  eo_header :: "(string \<times> string) list"
  eo_out :: http_out

definition cors_headers :: "(string \<times> string) list" where
  "cors_headers = [(''Access-Control-Allow-Origin'', ''*''),
     (''Access-Control-Allow-Headers'', ''Content-Type, Idempotency-Key, X-Request-Id''),
     (''Access-Control-Allow-Methods'', ''GET, POST, DELETE, OPTIONS'')]"

definition corsWrap :: "(http_req \<Rightarrow> (edge, http_out) prog) \<Rightarrow> http_req \<Rightarrow> (edge, edge_out) prog" where
  "corsWrap next1 r =
     (if rq_method r = ''OPTIONS'' then Ret \<lparr>eo_header = cors_headers, eo_out = \<lparr>ho_status = 204, ho_body = NoBody\<rparr>\<rparr>
      else andthen (next1 r) (\<lambda>out. Ret \<lparr>eo_header = cors_headers, eo_out = out\<rparr>))"

definition gateway :: "pg_ext \<Rightarrow> (string \<Rightarrow> nat list) \<Rightarrow> go_ext \<Rightarrow> string \<Rightarrow> http_req \<Rightarrow> (edge, edge_out) prog" where
  "gateway ext collate go ip r = corsWrap (newMux ext collate go ip) r"

section \<open>What is forwarded\<close>

definition forwarded :: "string \<Rightarrow> http_req \<Rightarrow> http_req" where
  "forwarded rid r = r\<lparr>rq_header := header_set ''X-Request-Id'' rid
     (let v = header_get ''Idempotency-Key'' (rq_header r) in
      if v \<noteq> '''' then header_set ''Idempotency-Key'' v (rq_header r) else rq_header r)\<rparr>"

definition request_id :: "http_req \<Rightarrow> choice \<Rightarrow> string" where
  "request_id r c = (let v = header_get ''X-Request-Id'' (rq_header r) in if v = '''' then newRequestID (entropy c) else v)"

lemma run_forward:
  "\<exists>n. run (andthen (forwardHeaders r r) f) cs e = run (f (forwarded (request_id r (cs 0)) r)) (\<lambda>i. cs (i + n)) e"
  by (cases "header_get ''X-Request-Id'' (rq_header r) = ''''")
    (auto simp: forwardHeaders_def forwarded_def request_id_def Let_def andthen_assoc
      intro: exI [of _ 0] exI [of _ "Suc 0"])

lemma header_values_set: "name \<noteq> key \<Longrightarrow> header_values name (header_set key v hs) = header_values name hs"
  by (auto simp: header_values_def header_set_def intro!: arg_cong [where f = "map snd"] filter_cong)

lemma connection_forwarded: "connection_options (rq_header (forwarded rid r)) = connection_options (rq_header r)"
  by (simp add: connection_options_def forwarded_def Let_def header_values_set)

lemma header_get_removed: "name \<notin> set ks \<Longrightarrow> header_get name (fold header_del ks hs) = header_get name hs"
  by (induction ks arbitrary: hs) (simp_all add: header_get_del)

text \<open>What the client sends under these two names arrives, unless it names them in \<open>Connection\<close>.\<close>

lemma outbound_headers:
  assumes "name \<notin> set (connection_options (rq_header r))" and "name = ''X-Request-Id'' \<or> name = ''Idempotency-Key''"
  shows "header_get name (rq_header (outbound ip (forwarded rid r))) =
    (if name = ''X-Request-Id'' then rid else header_get name (rq_header r))"
proof -
  have "name \<notin> set (connection_options (rq_header (forwarded rid r)) @ hop_headers)" "name \<noteq> ''X-Forwarded-For''"
    using assms by (auto simp: connection_forwarded hop_headers_def)
  then have "header_get name (rq_header (outbound ip (forwarded rid r))) = header_get name (rq_header (forwarded rid r))"
    by (simp add: outbound_def forwarded_for_def removeHopByHop_def header_get_removed)
  then show ?thesis by (auto simp: forwarded_def Let_def)
qed

lemma newRequestID_nonempty: "newRequestID b \<noteq> ''''"
  by (simp add: newRequestID_def Let_def)

lemma outbound_same [simp]:
  "rq_method (outbound ip (forwarded rid r)) = rq_method r" "rq_path (outbound ip (forwarded rid r)) = rq_path r"
  "rq_body (outbound ip (forwarded rid r)) = rq_body r"
  by (simp_all add: outbound_def forwarded_def)

section \<open>The edge as one server\<close>

text \<open>One server that only looks at the first segment of the path.\<close>

definition one_server :: "pg_ext \<Rightarrow> (string \<Rightarrow> nat list) \<Rightarrow> go_ext \<Rightarrow> http_req \<Rightarrow> (edge, http_out) prog" where
  "one_server ext collate go r =
     (if rq_path r \<noteq> [] \<and> hd (rq_path r) \<in> {''dealerships'', ''service-types'', ''customers''}
      then on_catalog (catalog_handler ext collate r) else on_booking (booking_handler ext go r))"

lemma run_Ret_after: "run (andthen p (\<lambda>x. Ret (h x))) cs w = map_prod h id (run p cs w)"
  by (induction p arbitrary: cs w rule: prog_induct) (simp_all add: split_beta prod_eq_iff)

lemma run_proxy:
  assumes "\<forall>n. faults (cs n) hop = Deliver"
  shows "\<exists>n. run (andthen (forwardHeaders r r) (ReverseProxy hop ip backend)) cs e =
    run (backend (outbound ip (forwarded (request_id r (cs 0)) r))) (\<lambda>i. cs (i + n)) e"
proof -
  obtain n where "run (andthen (forwardHeaders r r) (ReverseProxy hop ip backend)) cs e =
      run (ReverseProxy hop ip backend (forwarded (request_id r (cs 0)) r)) (\<lambda>i. cs (i + n)) e"
    using run_forward [of r "ReverseProxy hop ip backend" cs e] by blast
  then show ?thesis
    using assms by (intro exI [of _ "Suc n"]) (simp add: ReverseProxy_def)
qed

text \<open>Where the mux has no route, neither has the backend: both answer alike, at once.\<close>

lemma mux_cases:
  assumes "rq_method r' = rq_method r" and "rq_path r' = rq_path r"
  shows "newMux ext collate go ip r = catalogRoute ext collate ip r \<and>
      one_server ext collate go r' = on_catalog (catalog_handler ext collate r') \<or>
    newMux ext collate go ip r = bookingRoute ext go ip r \<and>
      one_server ext collate go r' = on_booking (booking_handler ext go r') \<or>
    (\<exists>out. newMux ext collate go ip r = Ret out \<and> one_server ext collate go r' = Ret out)"
proof -
  note defs = newMux_def one_server_def catalog_handler_def booking_handler_def Let_def on_head_def assms
  consider "rq_path r = []" | p where "rq_path r = [p]" | p i where "rq_path r = [p, i]"
    | p i q where "rq_path r = [p, i, q]" | p i q x xs where "rq_path r = p # i # q # x # xs"
    by (metis list.exhaust)
  then show ?thesis
  proof cases
    case (2 p)
    show ?thesis
    proof (cases "p \<in> {''dealerships'', ''service-types'', ''holds'', ''appointments'', ''healthz''}")
      case True
      then show ?thesis by (elim insertE emptyE) (simp_all add: defs 2)
    next
      case False
      then show ?thesis by (simp add: defs 2)
    qed
  next
    case (3 p i)
    then show ?thesis by (cases "p = ''appointments'' \<and> i \<noteq> ''''") (auto simp: defs)
  next
    case (4 p i q)
    then show ?thesis by (cases "p = ''customers'' \<and> i \<noteq> '''' \<and> q = ''vehicles''") (auto simp: defs)
  qed (simp_all add: defs)
qed

lemma mux_is_one_server:
  assumes "\<forall>n. faults (cs n) CatalogHop = Deliver" and "\<forall>n. faults (cs n) BookingHop = Deliver"
  shows "\<exists>n. run (newMux ext collate go ip r) cs e =
    run (one_server ext collate go (outbound ip (forwarded (request_id r (cs 0)) r))) (\<lambda>i. cs (i + n)) e"
  (is "\<exists>n. ?mux = run (one_server _ _ _ ?r) _ _")
proof -
  obtain n where
    "run (catalogRoute ext collate ip r) cs e = run (on_catalog (catalog_handler ext collate ?r)) (\<lambda>i. cs (i + n)) e"
    using run_proxy [OF assms(1), where r = r and ip = ip and e = e and
        backend = "\<lambda>r. on_catalog (catalog_handler ext collate r)"]
    unfolding catalogRoute_def by blast
  moreover obtain m where
    "run (bookingRoute ext go ip r) cs e = run (on_booking (booking_handler ext go ?r)) (\<lambda>i. cs (i + m)) e"
    using run_proxy [OF assms(2), where r = r and ip = ip and e = e and
        backend = "\<lambda>r. on_booking (booking_handler ext go r)"]
    unfolding bookingRoute_def by blast
  ultimately show ?thesis
    using mux_cases [of ?r r ext collate go ip, OF outbound_same(1,2)] by (elim disjE conjE exE) auto
qed

text \<open>
  C14: Behind the Gateway, Catalog and Booking look like one server: for any request that is not a
  preflight, and hops that are delivered, the Gateway's answer and its effect are those of the server
  that owns the first path segment, run on a request with the same method, path and body - also for
  paths and methods without a route, which the Gateway answers as that server would.  That request
  carries the client's X-Request-Id, or a fresh one when it has none, and the client's
  Idempotency-Key, unless the client lists these headers in Connection; the response carries the CORS
  headers.
\<close>

theorem gateway_is_one_server:
  assumes "rq_method r \<noteq> ''OPTIONS''"
    and "\<forall>n. faults (cs n) CatalogHop = Deliver" and "\<forall>n. faults (cs n) BookingHop = Deliver"
  shows "\<exists>r' n. rq_method r' = rq_method r \<and> rq_path r' = rq_path r \<and> rq_body r' = rq_body r \<and>
    (''X-Request-Id'' \<notin> set (connection_options (rq_header r)) \<longrightarrow>
       header_get ''X-Request-Id'' (rq_header r') =
         (if header_get ''X-Request-Id'' (rq_header r) = '''' then newRequestID (entropy (cs 0))
          else header_get ''X-Request-Id'' (rq_header r))) \<and>
    (''Idempotency-Key'' \<notin> set (connection_options (rq_header r)) \<longrightarrow>
       header_get ''Idempotency-Key'' (rq_header r') = header_get ''Idempotency-Key'' (rq_header r)) \<and>
    run (gateway ext collate go ip r) cs e =
      (case run (one_server ext collate go r') (\<lambda>i. cs (i + n)) e of
         (out, e') \<Rightarrow> (\<lparr>eo_header = cors_headers, eo_out = out\<rparr>, e'))"
proof -
  let ?r = "outbound ip (forwarded (request_id r (cs 0)) r)"
  obtain n where "run (newMux ext collate go ip r) cs e = run (one_server ext collate go ?r) (\<lambda>i. cs (i + n)) e"
    using mux_is_one_server [OF assms(2,3)] by blast
  then have "run (gateway ext collate go ip r) cs e =
      (case run (one_server ext collate go ?r) (\<lambda>i. cs (i + n)) e of
         (out, e') \<Rightarrow> (\<lparr>eo_header = cors_headers, eo_out = out\<rparr>, e'))"
    using assms(1) by (simp add: gateway_def corsWrap_def run_Ret_after map_prod_def split_beta)
  then show ?thesis
    by (intro exI [of _ ?r] exI [of _ n]) (simp add: outbound_headers request_id_def Let_def)
qed

section \<open>One identifier from edge to allocators\<close>

text \<open>Between two states of the edge, every RPC that Booking sent carries \<open>rid\<close>.\<close>

definition sent_under :: "string \<Rightarrow> world \<Rightarrow> world \<Rightarrow> bool" where
  "sent_under rid w w' \<longleftrightarrow> (\<exists>msgs. w_log w' = w_log w @ map (Pair rid) msgs)"

definition edge_sent_under :: "string \<Rightarrow> edge \<Rightarrow> edge \<Rightarrow> bool" where
  "edge_sent_under rid e e' \<longleftrightarrow> sent_under rid (ed_booking e) (ed_booking e')"

lemma sent_under_refl [simp]: "sent_under rid w w"
  by (auto simp: sent_under_def intro: exI [of _ "[]"])

lemma sent_under_trans: "sent_under rid u v \<Longrightarrow> sent_under rid v w \<Longrightarrow> sent_under rid u w"
  by (auto simp: sent_under_def simp flip: map_append)

interpretation traced: tagged_contract "sent_under rid" ext "{rid}" for rid ext
proof (unfold_locales, goal_cases)
  case (2 u v w)
  then show ?case by (rule sent_under_trans)
next
  case (3 rid' w m)
  then show ?case by (auto simp: sent_under_def intro!: exI [of _ "[m]"])
qed (simp, (rule keeps_frame, simp add: sent_under_def)+)

interpretation edge: guarantee "edge_sent_under rid" for rid
  by unfold_locales (auto simp: edge_sent_under_def intro: sent_under_trans)

lemma keeps_proxy:
  assumes "keeps (backend (outbound ip r)) (edge_sent_under rid)"
  shows "keeps (ReverseProxy hop ip backend r) (edge_sent_under rid)"
  unfolding ReverseProxy_def
  by (auto intro!: keeps_andthen keeps_atomic assms edge.refl split: fault.split)

lemma run_keeps:
  "keeps p (edge_sent_under rid) \<Longrightarrow> edge_sent_under rid e (snd (run p cs e))"
  by (rule wp_run [OF edge.wp_keeps, where C = "\<lambda>_. True"]) simp_all

lemma routed_traced:
  assumes "keeps (backend (outbound ip (forwarded (request_id r (cs 0)) r))) (edge_sent_under (request_id r (cs 0)))"
  shows "edge_sent_under (request_id r (cs 0)) e
    (snd (run (andthen (forwardHeaders r r) (ReverseProxy hop ip backend)) cs e))"
proof -
  obtain n where n: "run (andthen (forwardHeaders r r) (ReverseProxy hop ip backend)) cs e =
      run (ReverseProxy hop ip backend (forwarded (request_id r (cs 0)) r)) (\<lambda>i. cs (i + n)) e"
    using run_forward [of r "ReverseProxy hop ip backend" cs e] by blast
  show ?thesis unfolding n by (rule run_keeps) (rule keeps_proxy, rule assms)
qed


section \<open>Concrete requests\<close>

definition demo_edge :: edge where
  "demo_edge = \<lparr>ed_booking = demo_held_world monday, ed_catalog = demo_catalog_db\<rparr>"

definition demo_cancel :: "(string \<times> string) list \<Rightarrow> http_req" where
  "demo_cancel hs = \<lparr>rq_method = ''DELETE'', rq_path = [''appointments'', ''h''], rq_header = hs, rq_body = ''''\<rparr>"

lemma demo_connection:
  "connection_options [(''X-Request-Id'', ''rid''), (''Idempotency-Key'', ''k''), (''Connection'', ''close, TE'')] = [''Close'', ''Te'']"
  by code_simp

text \<open>A client can make the Gateway drop its own key.\<close>

lemma connection_drops_key:
  "header_get ''Idempotency-Key'' (rq_header (outbound ''ip'' (forwarded ''rid''
     (demo_cancel [(''Idempotency-Key'', ''k''), (''Connection'', ''idempotency-KEY'')])))) = ''''"
  by code_simp


lemma gateway_is_one_server_witness:
  "\<exists>r' n. rq_method r' = ''DELETE'' \<and> rq_path r' = [''appointments'', ''h''] \<and> rq_body r' = '''' \<and>
    header_get ''X-Request-Id'' (rq_header r') = ''rid'' \<and> header_get ''Idempotency-Key'' (rq_header r') = ''k'' \<and>
    run (gateway demo_ext demo_collate demo_go ''ip''
      (demo_cancel [(''X-Request-Id'', ''rid''), (''Idempotency-Key'', ''k''), (''Connection'', ''close, TE'')])) demo_open demo_edge =
      (case run (one_server demo_ext demo_collate demo_go r') (\<lambda>i. demo_open (i + n)) demo_edge of
         (out, e') \<Rightarrow> (\<lparr>eo_header = cors_headers, eo_out = out\<rparr>, e'))"
proof -
  let ?r = "demo_cancel [(''X-Request-Id'', ''rid''), (''Idempotency-Key'', ''k''), (''Connection'', ''close, TE'')]"
  have "rq_method ?r \<noteq> ''OPTIONS''" "\<forall>n. faults (demo_open n) CatalogHop = Deliver"
    "\<forall>n. faults (demo_open n) BookingHop = Deliver"
    by (simp_all add: demo_cancel_def demo_open_def demo_choice_def)
  from gateway_is_one_server [where r = ?r, OF this]
  show ?thesis by (simp add: demo_cancel_def demo_connection)
qed

end
