(* ===== verification/Migrate.thy ===== *)
theory Migrate
  imports Effects "HOL-Library.List_Lexorder" "HOL-Library.Char_ord"
begin

text \<open>
  The migrations runner (\<open>shared/migrate/main.go\<close>): it applies the SQL files of each service to that
  service's database, in file name order, each in a transaction that also records its name in
  \<open>schema_migrations\<close>.  What a script does to a schema is a parameter \<open>exec\<close>, as is the file system.
  A transaction is one atomic action: PostgreSQL isolates it and rolls back what does not commit.
\<close>

section \<open>Files\<close>

record dir_entry =
  en_name :: string
  en_is_dir :: bool

record service_dir =
  sd_entries :: "dir_entry list option"
  sd_read :: "string \<Rightarrow> string option"

datatype migrate_error =
    ConnectError
  | ReadDirError
  | BadName string
  | TableError pg_error
  | ReadFileError string
  | ScriptError string pg_error
  | StepError pg_error

definition HasSuffix :: "string \<Rightarrow> string \<Rightarrow> bool" where
  "HasSuffix s suffix \<longleftrightarrow> length suffix \<le> length s \<and> drop (length s - length suffix) s = suffix"

fun sql_files :: "dir_entry list \<Rightarrow> string list \<Rightarrow> migrate_error + string list" where
  "sql_files [] files = Inr files"
| "sql_files (e # es) files =
     (if en_is_dir e \<or> \<not> HasSuffix (en_name e) ''.sql'' then sql_files es files
      else if length (en_name e) < 3 \<or> en_name e ! 0 < CHR ''0'' \<or> CHR ''9'' < en_name e ! 0
      then Inl (BadName (en_name e))
      else sql_files es (files @ [en_name e]))"

definition migrationFiles :: "dir_entry list option \<Rightarrow> migrate_error + string list" where
  "migrationFiles entries =
     (case entries of
        None \<Rightarrow> Inl ReadDirError
      | Some es \<Rightarrow> map_sum id sort (sql_files es []))"

section \<open>One database\<close>

text \<open>The schema a script works on, whether \<open>schema_migrations\<close> exists, and its file names.\<close>

record 's migrated =
  md_schema :: 's
  md_table :: bool
  md_applied :: "string list"

type_synonym 's script = "string \<Rightarrow> 's \<Rightarrow> pg_error + 's"

abbreviation (input) undefined_table :: string where "undefined_table \<equiv> ''42P01''"

definition create_stmt :: "('s migrated, pg_error + unit) prog" where
  "create_stmt = sql MigrateTableSQL (\<lambda>c s. (Inr (), s\<lparr>md_table := True\<rparr>))"

definition already_stmt :: "string \<Rightarrow> ('s migrated, pg_error + bool) prog" where
  "already_stmt f = sql MigratedSQL (\<lambda>c s.
     (if md_table s then Inr (f \<in> set (md_applied s)) else Inl (PgError undefined_table), s))"

text \<open>
  Begin, the script, the record, Commit.  Whatever fails before the commit rolls everything back; a
  commit whose reply is lost has happened, and is reported as an error.
\<close>

definition record_row :: "string \<Rightarrow> 's migrated \<Rightarrow> pg_error + 's migrated" where
  "record_row f s =
     (if \<not> md_table s then Inl (PgError undefined_table)
      else if f \<in> set (md_applied s) then Inl (PgError ''23505'')
      else Inr (s\<lparr>md_applied := md_applied s @ [f]\<rparr>))"

definition migration_tx :: "'s script \<Rightarrow> string \<Rightarrow> string \<Rightarrow> ('s migrated, migrate_error + unit) prog" where
  "migration_tx exec f script = atomic (\<lambda>c s.
     if faults c MigrateBegin \<noteq> Deliver then (Inl (StepError OtherError), s)
     else if faults c MigrateExec \<noteq> Deliver then (Inl (ScriptError f OtherError), s)
     else (case exec script (md_schema s) of
       Inl e \<Rightarrow> (Inl (ScriptError f e), s)
     | Inr schema \<Rightarrow>
         if faults c MigrateRecordSQL \<noteq> Deliver then (Inl (StepError OtherError), s)
         else (case record_row f (s\<lparr>md_schema := schema\<rparr>) of
           Inl e \<Rightarrow> (Inl (StepError e), s)
         | Inr s' \<Rightarrow>
             (case faults c MigrateCommit of
                Deliver \<Rightarrow> (Inr (), s')
              | LoseRequest \<Rightarrow> (Inl (StepError OtherError), s)
              | LoseReply \<Rightarrow> (Inl (StepError OtherError), s')))))"

primrec apply_files ::
  "'s script \<Rightarrow> (string \<Rightarrow> string option) \<Rightarrow> string list \<Rightarrow> ('s migrated, migrate_error option) prog" where
  "apply_files exec read [] = Ret None"
| "apply_files exec read (f # fs) = andthen (already_stmt f) (\<lambda>r.
     case r of
       Inl e \<Rightarrow> Ret (Some (StepError e))
     | Inr already \<Rightarrow>
         if already then apply_files exec read fs
         else (case read f of
           None \<Rightarrow> Ret (Some (ReadFileError f))
         | Some script \<Rightarrow> andthen (migration_tx exec f script) (\<lambda>r.
             case r of
               Inl e \<Rightarrow> Ret (Some e)
             | Inr x \<Rightarrow> apply_files exec read fs)))"

definition migrateDatabase :: "'s script \<Rightarrow> service_dir \<Rightarrow> ('s migrated, migrate_error option) prog" where
  "migrateDatabase exec dir = andthen (atomic (\<lambda>c s. (faults c MigrateConnect = Deliver, s))) (\<lambda>connected.
     if \<not> connected then Ret (Some ConnectError)
     else (case migrationFiles (sd_entries dir) of
       Inl e \<Rightarrow> Ret (Some e)
     | Inr files \<Rightarrow> andthen create_stmt (\<lambda>r.
         case r of
           Inl e \<Rightarrow> Ret (Some (TableError e))
         | Inr x \<Rightarrow> apply_files exec (sd_read dir) files)))"

section \<open>All databases\<close>

definition databases :: "string list" where
  "databases = [''catalog'', ''technician'', ''bay'', ''booking'']"

abbreviation on_db :: "string \<Rightarrow> ('s, 'a) prog \<Rightarrow> (string \<Rightarrow> 's, 'a) prog" where
  "on_db db p \<equiv> zoom p (\<lambda>s. s db) (\<lambda>v s. s(db := v))"

primrec migrate_each ::
  "'s script \<Rightarrow> (string \<Rightarrow> service_dir) \<Rightarrow> string list \<Rightarrow> bool \<Rightarrow> (string \<Rightarrow> 's migrated, bool) prog" where
  "migrate_each exec dirs [] failed = Ret failed"
| "migrate_each exec dirs (db # dbs) failed = andthen (on_db db (migrateDatabase exec (dirs db))) (\<lambda>err.
     migrate_each exec dirs dbs (failed \<or> err \<noteq> None))"

text \<open>The exit status.\<close>

definition migrate_main :: "'s script \<Rightarrow> (string \<Rightarrow> service_dir) \<Rightarrow> (string \<Rightarrow> 's migrated, nat) prog" where
  "migrate_main exec dirs = andthen (migrate_each exec dirs databases False) (\<lambda>failed. Ret (if failed then 1 else 0))"

section \<open>Each file once\<close>

text \<open>What the scripts of a list of files make of a schema, one after the other.\<close>

fun replay_files :: "'s script \<Rightarrow> (string \<Rightarrow> string option) \<Rightarrow> 's \<Rightarrow> string list \<Rightarrow> 's option" where
  "replay_files exec read s [] = Some s"
| "replay_files exec read s (f # fs) =
     (case read f of
        None \<Rightarrow> None
      | Some script \<Rightarrow> (case exec script s of Inl e \<Rightarrow> None | Inr s' \<Rightarrow> replay_files exec read s' fs))"

lemma replay_append: "replay_files exec read s (fs @ gs) =
    (case replay_files exec read s fs of None \<Rightarrow> None | Some s' \<Rightarrow> replay_files exec read s' gs)"
  by (induction fs arbitrary: s) (auto split: option.split sum.split)

text \<open>The recorded files are exactly those that made the schema, each run once, in that order.\<close>

definition history :: "'s script \<Rightarrow> (string \<Rightarrow> string option) \<Rightarrow> 's \<Rightarrow> 's migrated \<Rightarrow> bool" where
  "history exec read init s \<longleftrightarrow> distinct (md_applied s) \<and>
     replay_files exec read init (md_applied s) = Some (md_schema s)"

definition migrate_rel :: "'s script \<Rightarrow> (string \<Rightarrow> string option) \<Rightarrow> 's \<Rightarrow> 's migrated \<Rightarrow> 's migrated \<Rightarrow> bool" where
  "migrate_rel exec read init s s' \<longleftrightarrow> (history exec read init s \<longrightarrow> history exec read init s') \<and>
     (\<exists>new. md_applied s' = md_applied s @ new)"

interpretation migrating: guarantee "migrate_rel exec read init" for exec read init
  by unfold_locales (auto simp: migrate_rel_def)

lemma migrate_rel_refl [simp]: "migrate_rel exec read init s s"
  by (rule migrating.refl)

lemma migrate_rel_record:
  assumes "read f = Some script" and "exec script (md_schema s) = Inr schema"
    and "record_row f (s\<lparr>md_schema := schema\<rparr>) = Inr s'"
  shows "migrate_rel exec read init s s'"
  using assms by (auto simp: migrate_rel_def history_def record_row_def replay_append split: if_splits)

lemma keeps_migration_tx:
  assumes "read f = Some script"
  shows "keeps (migration_tx exec f script) (migrate_rel exec read init)"
  unfolding migration_tx_def
  by (rule keeps_atomic) (auto split: sum.split fault.split simp: assms intro: migrate_rel_record [where f = f and script = script])

lemma keeps_apply_files: "keeps (apply_files exec read fs) (migrate_rel exec read init)"
  by (induction fs)
    (auto simp: already_stmt_def intro!: keeps_andthen keeps_sql keeps_migration_tx split: sum.split option.split)

lemma keeps_migrateDatabase: "keeps (migrateDatabase exec dir) (migrate_rel exec (sd_read dir) init)"
  unfolding migrateDatabase_def create_stmt_def
  by (auto intro!: keeps_andthen keeps_atomic keeps_sql keeps_apply_files split: sum.split)
    (simp add: migrate_rel_def history_def)

definition all_rel :: "'s script \<Rightarrow> (string \<Rightarrow> service_dir) \<Rightarrow> (string \<Rightarrow> 's) \<Rightarrow>
    (string \<Rightarrow> 's migrated) \<Rightarrow> (string \<Rightarrow> 's migrated) \<Rightarrow> bool" where
  "all_rel exec dirs init s s' \<longleftrightarrow> (\<forall>db. migrate_rel exec (sd_read (dirs db)) (init db) (s db) (s' db))"

interpretation all_migrating: guarantee "all_rel exec dirs init" for exec dirs init
  by unfold_locales (auto simp: all_rel_def intro: migrating.trans)

lemma keeps_migrate_main: "keeps (migrate_main exec dirs) (all_rel exec dirs init)"
proof -
  have db: "keeps (on_db db (migrateDatabase exec (dirs db))) (all_rel exec dirs init)" for db
    by (rule keeps_zoom [OF keeps_migrateDatabase]) (simp add: all_rel_def)
  have "keeps (migrate_each exec dirs dbs failed) (all_rel exec dirs init)" for dbs failed
    by (induction dbs arbitrary: failed) (auto intro!: keeps_andthen db)
  then show ?thesis unfolding migrate_main_def by (auto intro!: keeps_andthen)
qed

text \<open>
  C13: However often the runner is started, also several at a time, and wherever any of them is
  stopped or fails, each migration runs exactly once: in every database the recorded names stay
  distinct, no record is lost, and the schema is what the recorded scripts, each run once in that
  order, make of the initial one.
\<close>

theorem migrations_exactly_once:
  assumes "\<And>db. history exec (sd_read (dirs db)) (init db) (s db)"
  shows "case interleave sch (replicate n (migrate_main exec dirs), s) of (ts, s') \<Rightarrow>
    \<forall>db. distinct (md_applied (s' db)) \<and> take (length (md_applied (s db))) (md_applied (s' db)) = md_applied (s db) \<and>
      replay_files exec (sd_read (dirs db)) (init db) (md_applied (s' db)) = Some (md_schema (s' db))"
proof -
  have "all_rel exec dirs init s (snd (interleave sch (replicate n (migrate_main exec dirs), s)))"
    by (rule all_migrating.interleave_keeps) (auto simp: keeps_migrate_main)
  then have "history exec (sd_read (dirs db)) (init db) (snd (interleave sch (replicate n (migrate_main exec dirs), s)) db) \<and>
      (\<exists>new. md_applied (snd (interleave sch (replicate n (migrate_main exec dirs), s)) db) = md_applied (s db) @ new)" for db
    using assms [of db] by (auto simp: all_rel_def migrate_rel_def)
  then show ?thesis
    unfolding case_prod_beta history_def by (metis append_eq_conv_conj)
qed

section \<open>A run that meets no fault\<close>

abbreviation healthy :: "(nat \<Rightarrow> choice) \<Rightarrow> bool" where
  "healthy cs \<equiv> \<forall>n. faults (cs n) = (\<lambda>_. Deliver)"

lemma run_already:
  assumes "healthy cs" and "md_table s"
  shows "run (andthen (already_stmt f) h) cs s = run (h (Inr (f \<in> set (md_applied s)))) (\<lambda>n. cs (Suc n)) s"
  using assms by (simp add: already_stmt_def sql_def)

lemma run_migration_tx:
  assumes "healthy cs" and "md_table s" and "f \<notin> set (md_applied s)"
  shows "run (andthen (migration_tx exec f script) h) cs s =
    (case exec script (md_schema s) of
       Inl e \<Rightarrow> run (h (Inl (ScriptError f e))) (\<lambda>n. cs (Suc n)) s
     | Inr schema \<Rightarrow> run (h (Inr ())) (\<lambda>n. cs (Suc n)) (s\<lparr>md_schema := schema, md_applied := md_applied s @ [f]\<rparr>))"
  using assms by (simp add: migration_tx_def record_row_def split: sum.split)

lemma healthy_shift: "healthy cs \<Longrightarrow> healthy (\<lambda>n. cs (Suc n))"
  by simp

text \<open>
  The loop up to a point: the files already recorded are skipped, the others run as far as their
  scripts succeed.
\<close>

lemma run_apply_files:
  assumes "healthy cs" and "md_table s" and "distinct (fs @ gs)"
    and "replay_files exec read (md_schema s) (filter (\<lambda>f. f \<notin> set (md_applied s)) fs) = Some schema"
  shows "\<exists>k. run (apply_files exec read (fs @ gs)) cs s = run (apply_files exec read gs) (\<lambda>n. cs (n + k))
    (s\<lparr>md_schema := schema, md_applied := md_applied s @ filter (\<lambda>f. f \<notin> set (md_applied s)) fs\<rparr>)"
  using assms
proof (induction fs arbitrary: cs s)
  case Nil
  then show ?case by (auto intro!: exI [of _ 0])
next
  case (Cons f fs)
  show ?case
  proof (cases "f \<in> set (md_applied s)")
    case True
    obtain k where "run (apply_files exec read (fs @ gs)) (\<lambda>n. cs (Suc n)) s =
        run (apply_files exec read gs) (\<lambda>n. cs (Suc (n + k)))
          (s\<lparr>md_schema := schema, md_applied := md_applied s @ filter (\<lambda>f. f \<notin> set (md_applied s)) fs\<rparr>)"
      using Cons.IH [of "\<lambda>n. cs (Suc n)" s] Cons.prems True by auto
    then show ?thesis
      using True by (intro exI [of _ "Suc k"]) (simp add: run_already [OF Cons.prems(1,2)])
  next
    case False
    obtain script s1 where f: "read f = Some script" "exec script (md_schema s) = Inr s1"
      using Cons.prems(4) False by (auto split: option.splits sum.splits)
    let ?s = "s\<lparr>md_schema := s1, md_applied := md_applied s @ [f]\<rparr>"
    have rest: "filter (\<lambda>g. g \<notin> set (md_applied ?s)) fs = filter (\<lambda>g. g \<notin> set (md_applied s)) fs"
      by (rule filter_cong) (use Cons.prems(3) in auto)
    then obtain k where "run (apply_files exec read (fs @ gs)) (\<lambda>n. cs (Suc (Suc n))) ?s =
        run (apply_files exec read gs) (\<lambda>n. cs (Suc (Suc (n + k))))
          (?s\<lparr>md_schema := schema, md_applied := md_applied ?s @ filter (\<lambda>g. g \<notin> set (md_applied s)) fs\<rparr>)"
      using Cons.IH [of "\<lambda>n. cs (Suc (Suc n))" ?s] Cons.prems False f by auto
    then show ?thesis
      using False f
      by (intro exI [of _ "Suc (Suc k)"])
        (simp add: run_already [OF Cons.prems(1,2)] run_migration_tx [OF healthy_shift [OF Cons.prems(1)] Cons.prems(2)])
  qed
qed

lemma run_migrateDatabase:
  assumes "healthy cs" and "migrationFiles (sd_entries dir) = Inr files"
  shows "run (migrateDatabase exec dir) cs s =
    run (apply_files exec (sd_read dir) files) (\<lambda>n. cs (Suc (Suc n))) (s\<lparr>md_table := True\<rparr>)"
  using assms by (simp add: migrateDatabase_def create_stmt_def sql_def)

lemma run_up_to_date:
  assumes "healthy cs" and "migrationFiles (sd_entries dir) = Inr files" and "distinct files"
    and "replay_files exec (sd_read dir) (md_schema s) (filter (\<lambda>f. f \<notin> set (md_applied s)) files) = Some schema"
  shows "run (migrateDatabase exec dir) cs s = (None, s\<lparr>md_table := True, md_schema := schema,
    md_applied := md_applied s @ filter (\<lambda>f. f \<notin> set (md_applied s)) files\<rparr>)"
  using run_apply_files [of "\<lambda>n. cs (Suc (Suc n))" "s\<lparr>md_table := True\<rparr>" files "[]" exec "sd_read dir" schema] assms
  by (auto simp: run_migrateDatabase)

text \<open>What \<open>migrationFiles\<close> lists.\<close>

definition sql_file :: "dir_entry \<Rightarrow> bool" where
  "sql_file e \<longleftrightarrow> \<not> en_is_dir e \<and> HasSuffix (en_name e) ''.sql''"

definition well_named :: "string \<Rightarrow> bool" where
  "well_named name \<longleftrightarrow> 3 \<le> length name \<and> CHR ''0'' \<le> name ! 0 \<and> name ! 0 \<le> CHR ''9''"

lemma sql_files_eq: "sql_files es files =
    (case filter (\<lambda>e. \<not> well_named (en_name e)) (filter sql_file es) of
       [] \<Rightarrow> Inr (files @ map en_name (filter sql_file es))
     | e # bad \<Rightarrow> Inl (BadName (en_name e)))"
  by (induction es arbitrary: files) (auto simp: sql_file_def well_named_def not_less not_le split: list.split)

text \<open>
  The files of a directory that are applied are exactly its entries that are not directories and
  end in .sql, in increasing order of their names; one of them that is shorter than three bytes or does not
  start with a digit makes the whole listing fail.
\<close>

theorem migrationFiles_sorted:
  assumes "distinct (map en_name es)"
  shows "(case migrationFiles (Some es) of
      Inr files \<Rightarrow> sorted_wrt (<) files \<and> set files = en_name ` {e \<in> set es. sql_file e} \<and> list_all well_named files
    | Inl err \<Rightarrow> \<exists>e \<in> set es. sql_file e \<and> \<not> well_named (en_name e) \<and> err = BadName (en_name e))"
proof (cases "filter (\<lambda>e. \<not> well_named (en_name e)) (filter sql_file es)")
  case Nil
  then have "list_all well_named (map en_name (filter sql_file es))"
    by (auto simp: list_all_iff filter_empty_conv)
  moreover have "distinct (map en_name (filter sql_file es))" using assms by (simp add: distinct_map_filter)
  ultimately show ?thesis using Nil
    by (auto simp: migrationFiles_def sql_files_eq strict_sorted_iff list_all_iff)
next
  case (Cons e bad)
  then have "e \<in> set es \<and> sql_file e \<and> \<not> well_named (en_name e)" by (auto simp: filter_eq_Cons_iff)
  with Cons show ?thesis by (auto simp: migrationFiles_def sql_files_eq)
qed

text \<open>
  C38: A run that meets no fault brings a database up to date: if the scripts not yet recorded succeed
  one after the other, they are run in file name order and recorded, those recorded are skipped, the run
  reports no error, and a second run changes nothing.
\<close>

theorem migrate_brings_up_to_date:
  assumes "\<forall>n. faults (cs n) = (\<lambda>_. Deliver)" and "\<forall>n. faults (cs' n) = (\<lambda>_. Deliver)"
    and "migrationFiles (sd_entries dir) = Inr files" and "distinct files"
    and "replay_files exec (sd_read dir) (md_schema s) (filter (\<lambda>f. f \<notin> set (md_applied s)) files) = Some schema"
  shows "(let s' = \<lparr>md_schema = schema, md_table = True,
        md_applied = md_applied s @ filter (\<lambda>f. f \<notin> set (md_applied s)) files\<rparr> in
      run (migrateDatabase exec dir) cs s = (None, s') \<and> run (migrateDatabase exec dir) cs' s' = (None, s'))"
proof -
  let ?s = "\<lparr>md_schema = schema, md_table = True,
    md_applied = md_applied s @ filter (\<lambda>f. f \<notin> set (md_applied s)) files\<rparr>"
  have "run (migrateDatabase exec dir) cs s = (None, ?s)"
    using run_up_to_date [OF assms(1,3,4,5)] by (cases s) simp
  moreover have "run (migrateDatabase exec dir) cs' ?s = (None, ?s)"
    using run_up_to_date [OF assms(2,3,4), of exec ?s schema] by (simp add: filter_empty_conv)
  ultimately show ?thesis by (simp add: Let_def)
qed

text \<open>
  C37: A script that fails stops its database there: everything before it stays applied and recorded,
  neither its own statements nor any later file leaves a trace, and the error names the file.
\<close>

theorem migrate_stops_at_failure:
  assumes "\<forall>n. faults (cs n) = (\<lambda>_. Deliver)"
    and "migrationFiles (sd_entries dir) = Inr (before @ f # after)" and "distinct (before @ f # after)"
    and "replay_files exec (sd_read dir) (md_schema s) (filter (\<lambda>f. f \<notin> set (md_applied s)) before) = Some schema"
    and "f \<notin> set (md_applied s)" and "sd_read dir f = Some script" and "exec script schema = Inl e"
  shows "run (migrateDatabase exec dir) cs s = (Some (ScriptError f e),
    \<lparr>md_schema = schema, md_table = True, md_applied = md_applied s @ filter (\<lambda>f. f \<notin> set (md_applied s)) before\<rparr>)"
proof -
  let ?s = "s\<lparr>md_table := True\<rparr>"
  obtain k where k: "run (apply_files exec (sd_read dir) (before @ f # after)) (\<lambda>n. cs (Suc (Suc n))) ?s =
      run (apply_files exec (sd_read dir) (f # after)) (\<lambda>n. cs (Suc (Suc (n + k))))
        (?s\<lparr>md_schema := schema, md_applied := md_applied s @ filter (\<lambda>f. f \<notin> set (md_applied s)) before\<rparr>)"
    using run_apply_files [of "\<lambda>n. cs (Suc (Suc n))" ?s before "f # after" exec "sd_read dir" schema] assms(1,3,4)
    by auto
  show ?thesis
    unfolding run_migrateDatabase [OF assms(1,2)] k using assms(1,3,5-7)
    by (cases s) (simp add: run_already run_migration_tx)
qed

section \<open>A concrete directory\<close>

text \<open>The schema is the list of the scripts that ran; a script \<open>bad\<close> is a syntax error.\<close>

definition demo_exec :: "string list script" where
  "demo_exec script s = (if script = ''bad'' then Inl (PgError ''42601'') else Inr (s @ [script]))"

definition demo_dir :: service_dir where
  "demo_dir = \<lparr>sd_entries = Some [\<lparr>en_name = ''02_seed.sql'', en_is_dir = False\<rparr>, \<lparr>en_name = ''01_init.sql'', en_is_dir = False\<rparr>,
     \<lparr>en_name = ''03_fix.sql'', en_is_dir = False\<rparr>, \<lparr>en_name = ''README'', en_is_dir = False\<rparr>, \<lparr>en_name = ''04.sql'', en_is_dir = True\<rparr>],
     sd_read = (\<lambda>f. Some (if f = ''01_init.sql'' then ''init'' else if f = ''02_seed.sql'' then ''seed'' else ''bad''))\<rparr>"

definition demo_schema :: "string list migrated" where
  "demo_schema = \<lparr>md_schema = [''init''], md_table = True, md_applied = [''01_init.sql'']\<rparr>"

definition demo_delivers :: "nat \<Rightarrow> choice" where
  "demo_delivers n = \<lparr>faults = (\<lambda>_. Deliver), db_now = 0, go_now = 0, fresh_id = '''', entropy = (\<lambda>_. 0),
     locked = [], catalog_reply = (\<lambda>_. None)\<rparr>"

lemma demo_files: "migrationFiles (sd_entries demo_dir) = Inr [''01_init.sql'', ''02_seed.sql'', ''03_fix.sql'']"
  by code_simp

lemma demo_healthy: "\<forall>n. faults (demo_delivers n) = (\<lambda>_. Deliver)"
  by (simp add: demo_delivers_def)

lemma migrations_exactly_once_witness:
  "case interleave [(0, demo_delivers 0), (1, demo_delivers 1), (0, demo_delivers 2)]
      (replicate 2 (migrate_main demo_exec (\<lambda>_. demo_dir)), \<lambda>_. demo_schema) of (ts, s') \<Rightarrow>
    \<forall>db. distinct (md_applied (s' db)) \<and> take (length (md_applied demo_schema)) (md_applied (s' db)) = md_applied demo_schema \<and>
      replay_files demo_exec (sd_read demo_dir) [] (md_applied (s' db)) = Some (md_schema (s' db))"
proof (rule migrations_exactly_once [where s = "\<lambda>_. demo_schema" and dirs = "\<lambda>_. demo_dir" and init = "\<lambda>_. []"])
  show "history demo_exec (sd_read demo_dir) [] demo_schema" by code_simp
qed

lemma migrationFiles_sorted_witness:
  "sorted_wrt (<) [''01_init.sql'', ''02_seed.sql'', ''03_fix.sql''] \<and>
    set [''01_init.sql'', ''02_seed.sql'', ''03_fix.sql''] = en_name ` {e \<in> set (the (sd_entries demo_dir)). sql_file e} \<and>
    list_all well_named [''01_init.sql'', ''02_seed.sql'', ''03_fix.sql'']"
proof -
  have "distinct (map en_name (the (sd_entries demo_dir)))" by code_simp
  moreover have "Some (the (sd_entries demo_dir)) = sd_entries demo_dir" by code_simp
  ultimately show ?thesis using migrationFiles_sorted [of "the (sd_entries demo_dir)"] demo_files by simp
qed

lemma migrate_brings_up_to_date_witness:
  "let s' = \<lparr>md_schema = [''init'', ''seed''], md_table = True, md_applied = [''01_init.sql'', ''02_seed.sql'']\<rparr>;
       dir = demo_dir\<lparr>sd_entries := Some (take 2 (the (sd_entries demo_dir)))\<rparr> in
   run (migrateDatabase demo_exec dir) demo_delivers demo_schema = (None, s') \<and>
   run (migrateDatabase demo_exec dir) demo_delivers s' = (None, s')"
proof -
  let ?dir = "demo_dir\<lparr>sd_entries := Some (take 2 (the (sd_entries demo_dir)))\<rparr>"
  have "migrationFiles (sd_entries ?dir) = Inr [''01_init.sql'', ''02_seed.sql'']"
    "distinct [''01_init.sql'', ''02_seed.sql'']"
    "replay_files demo_exec (sd_read ?dir) (md_schema demo_schema)
      (filter (\<lambda>f. f \<notin> set (md_applied demo_schema)) [''01_init.sql'', ''02_seed.sql'']) = Some [''init'', ''seed'']"
    by code_simp+
  from migrate_brings_up_to_date [OF demo_healthy demo_healthy this]
  show ?thesis by (simp add: Let_def demo_schema_def)
qed

lemma migrate_stops_at_failure_witness:
  "run (migrateDatabase demo_exec demo_dir) demo_delivers demo_schema =
    (Some (ScriptError ''03_fix.sql'' (PgError ''42601'')),
     \<lparr>md_schema = [''init'', ''seed''], md_table = True, md_applied = [''01_init.sql'', ''02_seed.sql'']\<rparr>)"
proof -
  have "migrationFiles (sd_entries demo_dir) = Inr ([''01_init.sql'', ''02_seed.sql''] @ ''03_fix.sql'' # [])"
    "distinct ([''01_init.sql'', ''02_seed.sql''] @ ''03_fix.sql'' # [])"
    "replay_files demo_exec (sd_read demo_dir) (md_schema demo_schema)
      (filter (\<lambda>f. f \<notin> set (md_applied demo_schema)) [''01_init.sql'', ''02_seed.sql'']) = Some [''init'', ''seed'']"
    "''03_fix.sql'' \<notin> set (md_applied demo_schema)" "sd_read demo_dir ''03_fix.sql'' = Some ''bad''"
    "demo_exec ''bad'' [''init'', ''seed''] = Inl (PgError ''42601'')"
    by code_simp+
  from migrate_stops_at_failure [OF demo_healthy this]
  show ?thesis by (simp add: demo_schema_def)
qed

text \<open>The order is that of strings: a tenth file of one-digit numbering runs before the second.\<close>

lemma files_in_string_order:
  "migrationFiles (Some [\<lparr>en_name = ''2_b.sql'', en_is_dir = False\<rparr>, \<lparr>en_name = ''10_j.sql'', en_is_dir = False\<rparr>]) =
     Inr [''10_j.sql'', ''2_b.sql'']"
  by code_simp

end
