(* ===== verification/Spec2Isabelle.thy ===== *)
theory Spec2Isabelle
  imports Races Idempotency Lifecycle Hours Sweeper Gateway Startup Harness
begin

text \<open>
  A verification development of unified-service-scheduler, a Go system that books a vehicle service:
  a technician and a service bay for one interval at a dealership.

  \<^bold>\<open>The program.\<close>  Clients reach the \<^emph>\<open>Gateway\<close> (\<open>services/gateway/main.go\<close>), which proxies reads to
  \<^emph>\<open>Catalog\<close> (\<open>services/catalog/catalog.go\<close>: dealerships, opening hours, service types, vehicles)
  and everything else to \<^emph>\<open>Booking\<close> (\<open>services/booking\<close>).  Booking owns the appointments.  To book it
  takes a snapshot of Catalog over HTTP, then reserves a technician and a bay by gRPC at the two
  allocators (\<open>services/technician/reserve.go\<close>, \<open>services/bay/reserve.go\<close>), each with a database of its
  own whose exclusion constraint is the authority on races, and inserts the appointment as HELD;
  confirming promotes both occupations and the row in place, and every failure on the way releases
  what was reserved, in reverse order.  A sweeper in Booking cancels expired holds and frees their
  occupations; a reaper in each allocator (\<open>shared/pkg/reaper\<close>) deletes expired held occupations.
  \<open>shared/migrate/main.go\<close> creates the schemas.

  \<^bold>\<open>How it is modelled.\<close>  A handler is a program of atomic actions (\<open>Effects\<close>): a statement, a clock
  reading, the sending of a request.  Each action consumes a \<open>choice\<close> of the environment, which
  decides whether the call is carried out and answered, lost, or carried out with its reply lost,
  what the clocks of database and process say, which random bytes and ids come out, which rows others
  have locked, and what Catalog answers.  \<open>run\<close> executes a program alone, \<open>interleave\<close> any number of
  them under any schedule, switching at every action; a thread that is no longer scheduled has
  crashed.  \<open>wp\<close> reasons about all runs, \<open>keeps\<close> about all interleavings: a relation that every
  action of every thread respects (locale \<open>guarantee\<close>) relates any two states of any execution.
  Every program is a total function, so every handler ends for every environment; loops over
  attempts, rows, files and ticks are structural recursions, and no fuel is used.  The one loop of the
  repository that may not end, in the test harness, is a \<open>partial_function\<close>, and that it returns is proved.

  \<^bold>\<open>The theories.\<close>
  \<^item> \<open>Prelude\<close>: instants in microseconds, PostgreSQL errors, tables as lists of rows, guarded updates
    and their contracts (\<open>cas_update\<close>, \<open>cas_once\<close>, \<open>cas_idem\<close>).  \<open>Effects\<close>: programs, runs,
    interleavings.  \<open>Clock\<close>: time zones, weekdays and minutes as Go and PostgreSQL compute them.
  \<^item> \<open>Occupancy\<close>, \<open>Allocator\<close>: the occupation table both allocators declare in \<open>001_init.sql\<close>, its
    constraints, the statements of Confirm, Release and the reaper, and the claim with its retry loop.
    \<open>Technician\<close> and \<open>Bay\<close>: the claiming SELECT of each, the handlers Reserve, Confirm, Release and
    the server; no double booking under any interleaving, what a Reserve claims and when it fails, the
    life cycle of an occupation.
  \<^item> \<open>Booking\<close> (\<open>booking.go\<close>: records, errors, fingerprint, ids), \<open>AppointmentStore\<close> (\<open>store.go\<close> and its
    schema: every statement, and the relation of two states of the table), \<open>CatalogClient\<close>
    (\<open>catalog_client.go\<close>: decoding and the fail-closed snapshot), \<open>Saga\<close> (\<open>saga.go\<close>: RPCs over a lossy
    network, hours, reserve order, compensation), \<open>Service\<close> (\<open>service.go\<close>: CreateHold, Confirm, Get,
    Cancel, the sweeper), \<open>Http\<close> (\<open>http.go\<close>: bodies, handlers, the mux, the statuses it can answer).
  \<^item> \<open>Holds\<close>, \<open>Confirms\<close>, \<open>Recovery\<close>, \<open>Sweeper\<close>: what the operations of Booking achieve.  A failed hold or
    confirmation leaves nothing behind once its Releases are answered, a 201 means that row and both
    occupations are confirmed, Cancel frees, a sweep forgets an occupation only when it is free and
    recovers every expired hold, and a backlog of \<open>k\<close> is worked off in \<open>k / 50\<close> ticks, rounded up.
    \<open>Idempotency\<close>: a confirmation repeated under its key is the same appointment.
  \<^item> \<open>System\<close>: requests, sweeper, allocator calls and reapers in flight together; the contract between
    Booking and its stores as a locale (\<open>tagged_contract\<close>, extended to \<open>store_contract\<close>) interpreted
    for the invariants of the system and, in \<open>Lifecycle\<close>, for the refinement of a three-transition
    specification of bookings.  \<open>Races\<close>: two executions that break what the code intends.
    \<open>Hours\<close>: opening hours against the wall clock, and where they part.
  \<^item> \<open>Catalog\<close>: the tables and lookups of the Catalog, with the loop that groups the joined rows;
    \<open>CatalogAnswers\<close>: what Booking decodes is what Catalog encoded, so the snapshot is a query of the
    Catalog's database.  \<open>Gateway\<close>: headers, the proxy, the routes; behind it the two services are one
    server, and one identifier follows a request from the edge to the allocators.
  \<^item> \<open>Migrate\<close>: listing, ordering and the transaction per file; each file runs once, a run brings a
    database up to date, a failing script stops it.
  \<^item> \<open>Startup\<close>: where the settings of each process come from (command line, environment, default) and
    the \<open>main\<close> functions under \<open>services/*/cmd\<close>, \<open>services/gateway\<close> and \<open>shared/migrate\<close> as traces of what was
    started; nothing works on a database that has not answered, a failed start exits with an error, and
    with nothing configured the five processes reach each other and the migrated databases.
  \<^item> \<open>Harness\<close>: the helpers of the integration tests (\<open>shared/pkg/integrationtest\<close>): when the search for
    a weekday ends, with what result, and when it does not; the cleanups of a test.
  \<^item> \<open>Demo\<close> and the ends of the theories: concrete systems on which each theorem is applied.

  \<^bold>\<open>Parameters.\<close>  \<open>go_ext\<close> holds what Booking uses of Go's library that is not modelled: the time zone
  database, SHA-256, RFC 3339, and the syntax of JSON texts (decoding of the parsed value into structs
  is modelled); \<open>pg_ext\<close> holds PostgreSQL's hash of a text, its parsing of a \<open>uuid\<close> and its zones; \<open>collate\<close>
  is the sort key of a collation; \<open>exec\<close> is the effect of a migration script; \<open>host\<close> says which calls of a
  starting process succeed.

  \<^bold>\<open>Bounds.\<close>  A claim is attempted at most three times, a sweep takes at most fifty rows, a hold lasts
  120 seconds: the constants of the code.  \<open>time.Duration\<close> arithmetic wraps at 64 bits, and minutes scanned
  into \<open>int16\<close> are range checked.

  \<^bold>\<open>Simplifications.\<close>  Instants below a microsecond are not represented.  A lost reply means the server
  finished before the client went on.  Ties in an ORDER BY are broken by the order of the table.  A
  second JSON array for one slice field replaces the first; \<open>encoding/json\<close> would reuse its elements.
  A migration transaction is one action.

  \<^bold>\<open>Not modelled.\<close>  Connection pools and logging; path cleaning and redirects of \<open>net/http\<close>, response
  headers of the services, target URLs with a path and protocol upgrades in the proxy; marshalling and
  stubs of the generated protobuf code; the browser harness and the deployment files, which are not part
  of the Go program.  What the source has beyond that is imports, comments and the constructors that
  wrap a pool or a client (\<open>NewServer\<close>, \<open>NewStore\<close>, \<open>NewService\<close>), which the state of the models stands for.
\<close>

end
